(* ===== verification/GoBase.thy ===== *)
theory GoBase
  imports Complex_Main "HOL-Library.Word" "HOL-Library.Char_ord" "HOL-Library.List_Lexorder"
    "HOL-Library.Sublist" "HOL-Library.AList"
begin

text \<open>
  What the components share: Go error values and their message texts, the operations of the
  Go standard library the source uses on strings, slices and durations, JSON trees, and the
  collections of facts (\<open>go_text\<close>, \<open>go_string\<close>) their lemmas are gathered in.

  A Go string is a sequence of bytes, which is what \<^typ>\<open>string\<close> is here. A Go \<open>int\<close> and
  \<open>int64\<close> are 64-bit words; \<open>time.Time\<close> is an integer count of nanoseconds.
\<close>

named_theorems go_text \<open>message texts\<close>
named_theorems go_string \<open>splitting, joining and trimming strings\<close>

section \<open>Message texts and error values\<close>

text \<open>
  A message text is a sequence of fragments: literal bytes, or the \<open>%q\<close> rendering of a
  string, which is kept symbolic (\<open>strconv.Quote\<close> always yields at least its two quotes).
\<close>

datatype frag = Lit string | Quoted string

type_synonym message = "frag list"

definition frag_empty :: "frag \<Rightarrow> bool" where
  "frag_empty f = (f = Lit [])"

definition text_empty :: "message \<Rightarrow> bool" where
  "text_empty t = list_all frag_empty t"

text \<open>
  Error values. \<open>Errorf\<close> is \<open>fmt.Errorf\<close> or \<open>errors.New\<close>: literal text (with \<open>%s\<close> and
  \<open>%d\<close> already filled in), \<open>%q\<close> arguments and \<open>%w\<close> causes, in the order of the format.
  \<open>ApiError\<close> is a status error of the Kubernetes API, \<open>RunError\<close> a \<open>shell.ExitError\<close>
  (stdout, stderr, exit code, cause) and \<open>ExtError\<close> any other error that
  comes from outside the repository, with its message.
\<close>

datatype status_reason = AlreadyExists | Invalid | OtherReason

datatype error =
    Errorf "efrag list"
  | ApiError status_reason string
  | RunError string string int error
  | ExtError string
and efrag = Txt string | Qtd string | Wrp error

primrec Error :: "error \<Rightarrow> message"
  and efrag_text :: "efrag \<Rightarrow> message"
where
  "Error (Errorf fs) = concat (map efrag_text fs)"
| "Error (ApiError r m) = [Lit m]"
| "Error (RunError so se c e) = Error e"
| "Error (ExtError m) = [Lit m]"
| "efrag_text (Txt s) = [Lit s]"
| "efrag_text (Qtd s) = [Quoted s]"
| "efrag_text (Wrp e) = Error e"

text \<open>\<open>apierrors.IsAlreadyExists\<close> and \<open>apierrors.IsInvalid\<close> on the errors of the API.\<close>

fun IsAlreadyExists :: "error \<Rightarrow> bool" where
  "IsAlreadyExists (ApiError r m) = (r = AlreadyExists)"
| "IsAlreadyExists _ = False"

fun IsInvalid :: "error \<Rightarrow> bool" where
  "IsInvalid (ApiError r m) = (r = Invalid)"
| "IsInvalid _ = False"

text \<open>\<open>errors.AsType[*shell.ExitError](err)\<close>: the first one in the tree of causes.\<close>

fun first_some :: "'a option list \<Rightarrow> 'a option" where
  "first_some [] = None"
| "first_some (None # xs) = first_some xs"
| "first_some (Some x # xs) = Some x"

primrec as_ExitError :: "error \<Rightarrow> (string \<times> string \<times> int) option"
  and as_ExitError_frag :: "efrag \<Rightarrow> (string \<times> string \<times> int) option"
where
  "as_ExitError (Errorf fs) = first_some (map as_ExitError_frag fs)"
| "as_ExitError (ApiError r m) = None"
| "as_ExitError (RunError so se c e) = Some (so, se, c)"
| "as_ExitError (ExtError m) = None"
| "as_ExitError_frag (Txt s) = None"
| "as_ExitError_frag (Qtd s) = None"
| "as_ExitError_frag (Wrp e) = as_ExitError e"

lemma text_empty_simps [simp]:
  "text_empty []"
  "text_empty (f # t) \<longleftrightarrow> frag_empty f \<and> text_empty t"
  "text_empty (t @ t') \<longleftrightarrow> text_empty t \<and> text_empty t'"
  "frag_empty (Lit s) \<longleftrightarrow> s = []"
  "\<not> frag_empty (Quoted s)"
  by (auto simp: text_empty_def frag_empty_def)

lemma Errorf_nonempty [go_text, intro]:
  "Txt (c # s) \<in> set fs \<Longrightarrow> \<not> text_empty (Error (Errorf fs))"
  by (induction fs) auto

section \<open>Strings\<close>

text \<open>\<open>strings.Split(s, sep)\<close> and \<open>strings.Join(parts, sep)\<close> for a one-byte separator.\<close>

fun Split :: "char \<Rightarrow> string \<Rightarrow> string list" where
  "Split c [] = [[]]"
| "Split c (x # xs) =
     (if x = c then [] # Split c xs
      else (case Split c xs of p # ps \<Rightarrow> (x # p) # ps | [] \<Rightarrow> [[x]]))"

fun Join :: "string \<Rightarrow> string list \<Rightarrow> string" where
  "Join sep [] = []"
| "Join sep [p] = p"
| "Join sep (p # q # ps) = p @ sep @ Join sep (q # ps)"

lemma Split_not_Nil [simp]: "Split c s \<noteq> []"
  by (induction s) (auto split: list.split)

lemma Join_Split [go_string]: "Join [c] (Split c s) = s"
proof (induction s)
  case Nil
  then show ?case by simp
next
  case (Cons x xs)
  obtain p ps where sp: "Split c xs = p # ps" by (cases "Split c xs") auto
  with Cons show ?case by (cases ps) auto
qed

lemma Split_free [go_string]: "c \<notin> set s \<Longrightarrow> Split c s = [s]"
  by (induction s) auto

lemma Split_append_sep [go_string]:
  "c \<notin> set p \<Longrightarrow> Split c (p @ c # s) = p # Split c s"
  by (induction p) auto

lemma Split_Join [go_string]:
  "ps \<noteq> [] \<Longrightarrow> \<forall>p\<in>set ps. c \<notin> set p \<Longrightarrow> Split c (Join [c] ps) = ps"
  by (induction "[c]" ps rule: Join.induct) (auto simp: Split_free Split_append_sep)

lemma length_Split [go_string]: "length (Split c s) = Suc (count_list s c)"
  by (induction s) (auto split: list.split)

lemma Split_parts_free [go_string]: "p \<in> set (Split c s) \<Longrightarrow> c \<notin> set p"
  by (induction s arbitrary: p) (auto split: list.splits if_splits)

lemma Split_inject [go_string]: "Split c s = Split c t \<longleftrightarrow> s = t"
  by (metis Join_Split)

text \<open>
  \<open>strings.TrimSpace\<close> removes leading and trailing Unicode white space; these are the UTF-8
  encodings of the code points with the White_Space property.
\<close>

definition byte :: "nat \<Rightarrow> char" where
  "byte n = char_of n"

definition space_runes :: "string list" where
  "space_runes = map (\<lambda>n. [byte n]) [9, 10, 11, 12, 13, 32]
     @ map (map byte) [[0xC2, 0x85], [0xC2, 0xA0], [0xE1, 0x9A, 0x80]]
     @ map (\<lambda>n. [byte 0xE2, byte 0x80, byte n]) [0x80, 0x81, 0x82, 0x83, 0x84, 0x85, 0x86, 0x87, 0x88, 0x89, 0x8A, 0xA8, 0xA9, 0xAF]
     @ map (map byte) [[0xE2, 0x81, 0x9F], [0xE3, 0x80, 0x80]]"

fun strip_one :: "string list \<Rightarrow> string \<Rightarrow> string option" where
  "strip_one [] s = None"
| "strip_one (r # rs) s =
     (if r \<noteq> [] \<and> prefix r s then Some (drop (length r) s) else strip_one rs s)"

lemma strip_one_shorter: "strip_one rs s = Some t \<Longrightarrow> length t < length s"
  by (induction rs) (auto split: if_splits simp: prefix_def)

function trim_left :: "string list \<Rightarrow> string \<Rightarrow> string" where
  "trim_left rs s = (case strip_one rs s of None \<Rightarrow> s | Some t \<Rightarrow> trim_left rs t)"
  by pat_completeness auto
termination
  by (relation "measure (\<lambda>(rs, s). length s)") (auto dest: strip_one_shorter)

declare trim_left.simps [simp del]

definition TrimSpace :: "string \<Rightarrow> string" where
  "TrimSpace s =
     rev (trim_left (map rev space_runes) (rev (trim_left space_runes s)))"

lemma trim_left_Nil [simp]: "trim_left rs [] = []"
proof -
  have "strip_one rs [] = None" by (induction rs) auto
  then show ?thesis by (subst trim_left.simps) simp
qed

lemma trim_left_id: "strip_one rs s = None \<Longrightarrow> trim_left rs s = s"
  by (subst trim_left.simps) simp

lemma trim_left_step: "strip_one rs s = Some t \<Longrightarrow> trim_left rs s = trim_left rs t"
  by (subst trim_left.simps) simp

text \<open>\<open>strings.Contains\<close>.\<close>

fun Contains :: "string \<Rightarrow> string \<Rightarrow> bool" where
  "Contains s sub = (prefix sub s \<or> (case s of [] \<Rightarrow> False | _ # t \<Rightarrow> Contains t sub))"

declare Contains.simps [simp del]

text \<open>\<open>%d\<close> and \<open>strconv.Itoa\<close>.\<close>

definition digit :: "nat \<Rightarrow> char" where
  "digit n = ''0123456789'' ! n"

fun nat_digits :: "nat \<Rightarrow> string" where
  "nat_digits n = (if n < 10 then [digit n] else nat_digits (n div 10) @ [digit (n mod 10)])"

declare nat_digits.simps [simp del]

definition Itoa :: "int \<Rightarrow> string" where
  "Itoa i = (if i < 0 then CHR ''-'' # nat_digits (nat (- i)) else nat_digits (nat i))"

text \<open>
  \<open>filepath.Join\<close> on Unix: the non-empty elements joined by slashes, then \<open>filepath.Clean\<close>,
  which drops empty and \<open>.\<close> elements and resolves \<open>..\<close> against the element before it.
\<close>

fun clean_parts :: "bool \<Rightarrow> string list \<Rightarrow> string list \<Rightarrow> string list" where
  "clean_parts rooted stack [] = rev stack"
| "clean_parts rooted stack (p # ps) =
     (if p = [] \<or> p = ''.'' then clean_parts rooted stack ps
      else if p = ''..'' then
        (case stack of
           [] \<Rightarrow> clean_parts rooted (if rooted then [] else [''..'']) ps
         | q # qs \<Rightarrow> if q = ''..'' then clean_parts rooted (''..'' # stack) ps
                     else clean_parts rooted qs ps)
      else clean_parts rooted (p # stack) ps)"

definition Clean :: "string \<Rightarrow> string" where
  "Clean path =
     (let rooted = prefix ''/'' path;
          body = Join ''/'' (clean_parts rooted [] (Split CHR ''/'' path))
      in if rooted then ''/'' @ body else if body = [] then ''.'' else body)"

definition filepath_Join :: "string list \<Rightarrow> string" where
  "filepath_Join elems =
     (let es = filter (\<lambda>e. e \<noteq> []) elems in if es = [] then [] else Clean (Join ''/'' es))"

text \<open>\<open>'%s'\<close>: between single quotes.\<close>

definition in_quotes :: "string \<Rightarrow> string" where
  "in_quotes s = CHR 0x27 # s @ [CHR 0x27]"

text \<open>\<open>hex.EncodeToString\<close>.\<close>

definition hex_digit :: "nat \<Rightarrow> char" where
  "hex_digit n = ''0123456789abcdef'' ! n"

definition hex_encode :: "string \<Rightarrow> string" where
  "hex_encode s = concat (map (\<lambda>c. [hex_digit (of_char c div 16), hex_digit (of_char c mod 16)]) s)"

section \<open>Slices and maps\<close>

text \<open>
  The \<open>seen\<close>-map loop the source uses to drop duplicates: it appends to \<open>out\<close> what it has not
  seen before.
\<close>

fun dedup_into :: "'a list \<Rightarrow> 'a list \<Rightarrow> 'a list" where
  "dedup_into out [] = out"
| "dedup_into out (x # xs) = dedup_into (if x \<in> set out then out else out @ [x]) xs"

lemma set_dedup_into [simp]: "set (dedup_into out xs) = set out \<union> set xs"
  by (induction xs arbitrary: out) auto

lemma distinct_dedup_into: "distinct out \<Longrightarrow> distinct (dedup_into out xs)"
  by (induction xs arbitrary: out) auto

lemma dedup_into_append: "dedup_into out (xs @ ys) = dedup_into (dedup_into out xs) ys"
  by (induction xs arbitrary: out) auto

lemma dedup_into_distinct:
  "distinct (out @ xs) \<Longrightarrow> dedup_into out xs = out @ xs"
  by (induction xs arbitrary: out) auto

lemma prefix_dedup_into: "prefix out (dedup_into out xs)"
proof (induction xs arbitrary: out)
  case Nil
  then show ?case by simp
next
  case (Cons x xs)
  have "prefix out (if x \<in> set out then out else out @ [x])" by simp
  then show ?case using Cons prefix_order.trans by fastforce
qed

text \<open>The same in terms of the list library: the first occurrence of each element.\<close>

definition first_seen :: "'a list \<Rightarrow> 'a list" where
  "first_seen xs = rev (remdups (rev xs))"

lemma first_seen_snoc:
  "first_seen (xs @ [x]) = (if x \<in> set xs then first_seen xs else first_seen xs @ [x])"
  by (simp add: first_seen_def)

lemma set_first_seen [simp]: "set (first_seen xs) = set xs"
  by (simp add: first_seen_def)

lemma distinct_first_seen [simp]: "distinct (first_seen xs)"
  by (simp add: first_seen_def)

lemma dedup_into_first_seen: "dedup_into [] xs = first_seen xs"
proof (induction xs rule: rev_induct)
  case Nil
  then show ?case by (simp add: first_seen_def)
next
  case (snoc x xs)
  then show ?case by (simp add: dedup_into_append first_seen_snoc)
qed

section \<open>Integers and durations\<close>

type_synonym int64 = "64 word"

text \<open>\<open>time.Duration\<close>: a signed count of nanoseconds.\<close>

type_synonym duration = int64

definition Second :: duration where
  "Second = 1000000000"

text \<open>\<open>time.Duration(n) * time.Second\<close>; the product wraps.\<close>

definition seconds :: "int64 \<Rightarrow> duration" where
  "seconds n = n * Second"

end
