(* ===== verification/Procs.thy ===== *)
theory Procs
  imports GoBase
begin

text \<open>
  Goroutines. A \<open>proc\<close> is a computation over a shared state, cut into the atomic actions
  between which other goroutines can run (a lock-protected section, one call to a server).
  \<open>run\<close> executes one goroutine alone; \<open>pool_step\<close> interleaves a \<open>sync.WaitGroup\<close> of them,
  and lets an environment (other requests, the clock, the servers) move in between.

  The lemmas: sequencing, a rely/guarantee rule (\<open>pool_keeps\<close>) that lifts what holds of each
  atomic action to every schedule, progress, and termination of every schedule.
\<close>

named_theorems go_proc \<open>running and verifying computations\<close>

section \<open>Computations\<close>

datatype ('a, 's) proc = Ret 'a | Atom "'s \<Rightarrow> ('a, 's) proc \<times> 's"

text \<open>Induction that reads the recursive occurrences as \<open>fst (f s)\<close>.\<close>

lemma proc_induct [case_names Ret Atom]:
  assumes "\<And>a. P (Ret a)" and "\<And>f. (\<And>s. P (fst (f s))) \<Longrightarrow> P (Atom f)"
  shows "P p"
proof (induction p)
  case (Ret a)
  show ?case by (rule assms(1))
next
  case (Atom f)
  have "P (fst (f s))" for s
    by (rule Atom.IH [of "f s"]) (auto simp: fsts.simps prod_eq_iff)
  then show ?case by (rule assms(2))
qed

primrec bind_proc :: "('a, 's) proc \<Rightarrow> ('a \<Rightarrow> ('b, 's) proc) \<Rightarrow> ('b, 's) proc" where
  "bind_proc (Ret a) k = k a"
| "bind_proc (Atom f) k = Atom (map_prod (\<lambda>p. bind_proc p k) id \<circ> f)"

primrec run :: "('a, 's) proc \<Rightarrow> 's \<Rightarrow> 'a \<times> 's" where
  "run (Ret a) = (\<lambda>s. (a, s))"
| "run (Atom f) = (\<lambda>s. case (map_prod run id \<circ> f) s of (g, s') \<Rightarrow> g s')"

text \<open>One atomic action with a result.\<close>

definition act :: "('s \<Rightarrow> 'a \<times> 's) \<Rightarrow> ('a, 's) proc" where
  "act f = Atom (\<lambda>s. case f s of (a, s') \<Rightarrow> (Ret a, s'))"

text \<open>\<open>x, err := p; if err != nil { return err }\<close>, and the wrapped \<open>fmt.Errorf("...: %w", err)\<close>.\<close>

definition try_proc ::
  "(error + 'a, 's) proc \<Rightarrow> ('a \<Rightarrow> (error + 'b, 's) proc) \<Rightarrow> (error + 'b, 's) proc" where
  "try_proc p k = bind_proc p (\<lambda>r. case r of Inl e \<Rightarrow> Ret (Inl e) | Inr a \<Rightarrow> k a)"

definition wrap_error :: "string \<Rightarrow> error + 'a \<Rightarrow> error + 'a" where
  "wrap_error pre r =
     (case r of Inl e \<Rightarrow> Inl (Errorf [Txt pre, Wrp e]) | Inr a \<Rightarrow> Inr a)"

definition try_wrap ::
  "string \<Rightarrow> (error + 'a, 's) proc \<Rightarrow> ('a \<Rightarrow> (error + 'b, 's) proc) \<Rightarrow> (error + 'b, 's) proc" where
  "try_wrap pre p k = try_proc (bind_proc p (\<lambda>r. Ret (wrap_error pre r))) k"

text \<open>A computation on a part of the state.\<close>

primrec zoom :: "('s \<Rightarrow> 'w) \<Rightarrow> ('w \<Rightarrow> 's \<Rightarrow> 's) \<Rightarrow> ('a, 'w) proc \<Rightarrow> ('a, 's) proc" where
  "zoom g u (Ret a) = Ret a"
| "zoom g u (Atom f) =
     Atom (\<lambda>s. case (map_prod (zoom g u) id \<circ> f) (g s) of (p, w) \<Rightarrow> (p, u w s))"

text \<open>The first action of a sequence.\<close>

lemma bind_act:
  "bind_proc (act f) k = Atom (\<lambda>s. case f s of (a, s') \<Rightarrow> (k a, s'))"
  by (auto simp: act_def prod.case_eq_if)

lemma bind_Atom:
  "bind_proc (Atom f) k = Atom (\<lambda>s. case f s of (p, s') \<Rightarrow> (bind_proc p k, s'))"
  by (auto simp: fun_eq_iff map_prod_def prod.case_eq_if)

section \<open>Running one computation alone\<close>

lemma run_Atom [go_proc]: "run (Atom f) s = (case f s of (p, s') \<Rightarrow> run p s')"
  by (simp split: prod.split)

declare run.simps(2) [simp del]

lemma run_act [simp]: "run (act f) s = f s"
  by (simp add: act_def run_Atom split: prod.split)

lemma run_bind [simp]: "run (bind_proc p k) s = (case run p s of (a, s') \<Rightarrow> run (k a) s')"
proof (induction p arbitrary: s rule: proc_induct)
  case (Ret a)
  then show ?case by simp
next
  case (Atom f)
  from Atom [of s] show ?case by (simp add: run_Atom prod.case_eq_if)
qed

lemma run_try [simp]:
  "run (try_proc p k) s =
     (case run p s of (Inl e, s') \<Rightarrow> (Inl e, s') | (Inr a, s') \<Rightarrow> run (k a) s')"
  by (simp add: try_proc_def split: prod.split sum.split)

lemma run_try_wrap [simp]:
  "run (try_wrap m p k) s =
     (case run p s of
        (Inl e, s') \<Rightarrow> (Inl (Errorf [Txt m, Wrp e]), s')
      | (Inr a, s') \<Rightarrow> run (k a) s')"
  by (simp add: try_wrap_def wrap_error_def split: prod.split sum.split)

lemma run_zoom [simp]:
  assumes "\<And>w s. g (u w s) = w" "\<And>s. u (g s) s = s" "\<And>w w' s. u w (u w' s) = u w s"
  shows "run (zoom g u p) s = (case run p (g s) of (a, w) \<Rightarrow> (a, u w s))"
proof (induction p arbitrary: s rule: proc_induct)
  case (Ret a)
  then show ?case by (simp add: assms)
next
  case (Atom f)
  from Atom [of "g s" "u (snd (f (g s))) s"] show ?case
    by (simp add: run_Atom assms prod.case_eq_if)
qed

section \<open>What every atomic action keeps\<close>

text \<open>
  \<open>keeps I Q p\<close>: started in any state with \<open>I\<close>, each atomic action of \<open>p\<close> re-establishes
  \<open>I\<close>, and what \<open>p\<close> returns satisfies \<open>Q\<close>, whatever happens between its actions.
\<close>

primrec keeps :: "('s \<Rightarrow> bool) \<Rightarrow> ('a \<Rightarrow> bool) \<Rightarrow> ('a, 's) proc \<Rightarrow> bool" where
  "keeps I Q (Ret a) = Q a"
| "keeps I Q (Atom f) =
     (\<forall>s. I s \<longrightarrow> (case (map_prod (keeps I Q) id \<circ> f) s of (ok, s') \<Rightarrow> ok \<and> I s'))"

lemma keeps_Atom [go_proc]:
  "keeps I Q (Atom f) \<longleftrightarrow> (\<forall>s. I s \<longrightarrow> keeps I Q (fst (f s)) \<and> I (snd (f s)))"
  by (auto split: prod.split simp: prod.case_eq_if)

declare keeps.simps(2) [simp del]

lemma keeps_weaken:
  assumes "keeps I Q p" and "\<And>a. Q a \<Longrightarrow> Q' a"
  shows "keeps I Q' p"
  using assms(1)
proof (induction p rule: proc_induct)
  case (Ret a)
  with assms(2) show ?case by simp
next
  case (Atom f)
  have "keeps I Q' (fst (f s))" if "I s" for s
    by (rule Atom.IH) (use Atom.prems that in \<open>simp add: keeps_Atom\<close>)
  with Atom.prems show ?case by (simp add: keeps_Atom)
qed

lemma keeps_bind:
  assumes "keeps I Q p" and "\<And>a. Q a \<Longrightarrow> keeps I Q' (k a)"
  shows "keeps I Q' (bind_proc p k)"
  using assms(1)
proof (induction p rule: proc_induct)
  case (Ret a)
  with assms(2) show ?case by simp
next
  case (Atom f)
  have "keeps I Q' (bind_proc (fst (f s)) k)" if "I s" for s
    by (rule Atom.IH) (use Atom.prems that in \<open>simp add: keeps_Atom\<close>)
  with Atom.prems show ?case by (simp add: keeps_Atom)
qed

lemma keeps_act:
  assumes "\<And>s. I s \<Longrightarrow> Q (fst (f s)) \<and> I (snd (f s))"
  shows "keeps I Q (act f)"
  using assms by (simp add: act_def keeps_Atom prod.case_eq_if)

definition okQ :: "('a \<Rightarrow> bool) \<Rightarrow> error + 'a \<Rightarrow> bool" where
  "okQ Q r = (case r of Inl e \<Rightarrow> True | Inr a \<Rightarrow> Q a)"

lemma okQ_simps [simp]: "okQ Q (Inl e)" "okQ Q (Inr a) = Q a"
  by (simp_all add: okQ_def)

lemma keeps_call: "keeps (\<lambda>_. True) (okQ (\<lambda>a. \<exists>w w'. f w = (Inr a, w'))) (act f)"
proof (rule keeps_act)
  fix w
  show "okQ (\<lambda>a. \<exists>w w'. f w = (Inr a, w')) (fst (f w)) \<and> True"
    by (cases "f w"; cases "fst (f w)") auto
qed

lemma keeps_try:
  assumes "keeps I (okQ Q) p" and "\<And>a. Q a \<Longrightarrow> keeps I (okQ Q') (k a)"
  shows "keeps I (okQ Q') (try_proc p k)"
  unfolding try_proc_def
  by (rule keeps_bind [OF assms(1)]) (auto simp: assms(2) split: sum.split)

lemma keeps_try_wrap:
  assumes "keeps I (okQ Q) p" and "\<And>a. Q a \<Longrightarrow> keeps I (okQ Q') (k a)"
  shows "keeps I (okQ Q') (try_wrap m p k)"
  unfolding try_wrap_def
  by (rule keeps_try [where Q = Q], rule keeps_bind [OF assms(1)])
    (auto simp: assms(2) wrap_error_def split: sum.split)

lemma keeps_run: "keeps I Q p \<Longrightarrow> I s \<Longrightarrow> run p s = (a, s') \<Longrightarrow> Q a \<and> I s'"
proof (induction p arbitrary: s rule: proc_induct)
  case (Ret a)
  then show ?case by simp
next
  case (Atom f)
  show ?case
    by (rule Atom.IH [of s "snd (f s)"])
      (use Atom.prems in \<open>simp_all add: keeps_Atom run_Atom prod.case_eq_if\<close>)
qed

lemma keeps_True: "keeps (\<lambda>_. True) (\<lambda>_. True) p"
  by (induction p rule: proc_induct) (simp_all add: keeps_Atom)

lemma keeps_conj:
  "keeps I P p \<Longrightarrow> keeps (\<lambda>_. True) Q p \<Longrightarrow> keeps I (\<lambda>a. P a \<and> Q a) p"
  by (induction p rule: proc_induct) (simp_all add: keeps_Atom)

lemma ok_anything: "keeps I (\<lambda>_. True) p \<Longrightarrow> keeps I (okQ (\<lambda>_. True)) p"
  by (erule keeps_weaken) (simp add: okQ_def split: sum.split)

lemma keeps_zoom:
  assumes "\<And>s. I s \<Longrightarrow> J (g s)" and "\<And>s w. I s \<Longrightarrow> J w \<Longrightarrow> I (u w s)" and "keeps J Q p"
  shows "keeps I Q (zoom g u p)"
  using assms(3)
proof (induction p rule: proc_induct)
  case (Ret a)
  then show ?case by simp
next
  case (Atom f)
  have "keeps I Q (zoom g u (fst (f (g s))))" if "I s" for s
    by (rule Atom.IH) (use Atom.prems that assms(1) in \<open>simp add: keeps_Atom\<close>)
  with Atom.prems assms(1,2) show ?case
    by (simp add: keeps_Atom prod.case_eq_if)
qed

section \<open>Interleaving a wait group\<close>

text \<open>\<open>R\<close> is what the environment may do to the shared state between two actions.\<close>

inductive pool_step ::
  "('s \<Rightarrow> 's \<Rightarrow> bool) \<Rightarrow> ('a, 's) proc list \<times> 's \<Rightarrow> ('a, 's) proc list \<times> 's \<Rightarrow> bool"
  for R where
  goroutine: "i < length ps \<Longrightarrow> ps ! i = Atom f \<Longrightarrow> f s = (p, s') \<Longrightarrow>
     pool_step R (ps, s) (ps[i := p], s')"
| environment: "R s s' \<Longrightarrow> pool_step R (ps, s) (ps, s')"

inductive_simps pool_step_iff: "pool_step R (ps, s) (ps', s')"

lemma pool_stepE [consumes 1, case_names goroutine environment]:
  assumes "pool_step R (ps, s) (ps', s')"
  obtains i f p where "i < length ps" "ps ! i = Atom f" "f s = (p, s')" "ps' = ps[i := p]"
    | "R s s'" "ps' = ps"
  using assms by (auto simp: pool_step_iff)

abbreviation pool_steps where
  "pool_steps R \<equiv> (pool_step R)\<^sup>*\<^sup>*"

text \<open>\<open>wg.Wait()\<close> returns when every goroutine has; \<open>outcome\<close> collects what they stored.\<close>

fun returned :: "('a, 's) proc \<Rightarrow> 'a option" where
  "returned (Ret a) = Some a"
| "returned (Atom f) = None"

definition outcome :: "('a, 's) proc list \<Rightarrow> 'a list option" where
  "outcome ps = those (map returned ps)"

lemma those_Some: "those xs = Some ys \<longleftrightarrow> xs = map Some ys"
  by (induction xs arbitrary: ys) (auto split: option.splits)

lemma those_None: "those xs = None \<longleftrightarrow> None \<in> set xs"
  by (induction xs) (auto split: option.splits)

lemma returned_Some: "returned p = Some a \<longleftrightarrow> p = Ret a"
  by (cases p) auto

lemma outcome_Some: "outcome ps = Some rs \<longleftrightarrow> ps = map Ret rs"
proof -
  have "map returned ps = map Some rs \<longleftrightarrow> ps = map Ret rs"
    by (induction ps arbitrary: rs) (auto simp: Cons_eq_map_conv map_eq_Cons_conv returned_Some)
  then show ?thesis by (simp add: outcome_def those_Some)
qed

lemma pool_step_keeps:
  assumes "pool_step R (ps, s) (ps', s')" and "I s"
    and "\<forall>i < length ps. keeps I (Q i) (ps ! i)" and "\<And>s s'. R s s' \<Longrightarrow> I s \<Longrightarrow> I s'"
  shows "length ps' = length ps \<and> I s' \<and> (\<forall>i < length ps'. keeps I (Q i) (ps' ! i))"
  using assms(1)
proof (cases rule: pool_stepE)
  case (goroutine i f p)
  with assms(2,3) have "keeps I (Q i) (Atom f)" by metis
  with goroutine assms(2) have "keeps I (Q i) p \<and> I s'" by (metis fst_conv keeps_Atom snd_conv)
  with goroutine assms(3) show ?thesis by (simp add: nth_list_update)
next
  case environment
  with assms show ?thesis by auto
qed

theorem pool_keeps:
  assumes "pool_steps R (ps, s) (ps', s')" and "I s"
    and "\<forall>i < length ps. keeps I (Q i) (ps ! i)" and "\<And>s s'. R s s' \<Longrightarrow> I s \<Longrightarrow> I s'"
  shows "length ps' = length ps \<and> I s' \<and> (\<forall>i < length ps'. keeps I (Q i) (ps' ! i))"
  using assms(1)
proof (induction rule: rtranclp_induct2)
  case refl
  with assms show ?case by simp
next
  case (step ps1 s1 ps2 s2)
  then show ?case using pool_step_keeps [OF step.hyps(2)] assms(4) by (metis (full_types))
qed

lemma pool_outcome:
  assumes "pool_steps R (ps, s) (ps', s')" and "I s" and "outcome ps' = Some rs"
    and "\<forall>i < length ps. keeps I (Q i) (ps ! i)" and "\<And>s s'. R s s' \<Longrightarrow> I s \<Longrightarrow> I s'"
  shows "length rs = length ps \<and> I s' \<and> (\<forall>i < length ps. Q i (rs ! i))"
  using pool_keeps [OF assms(1,2,4,5)] assms(3) by (auto simp: outcome_Some)

text \<open>
  Progress: a wait group that is not finished can take a step. Termination: no schedule of
  the goroutines themselves is infinite.
\<close>

lemma pool_progress:
  assumes "outcome ps = None"
  shows "\<exists>c. pool_step (\<lambda>_ _. False) (ps, s) c"
proof -
  have "\<exists>i < length ps. \<exists>f. ps ! i = Atom f"
  proof (rule ccontr)
    assume no: "\<not> ?thesis"
    have "\<exists>a. ps ! i = Ret a" if "i < length ps" for i
      using no that by (cases "ps ! i") auto
    then obtain g where "\<forall>i < length ps. ps ! i = Ret (g i)" by metis
    then have "ps = map Ret (map g [0..<length ps])" by (intro nth_equalityI) auto
    then have "outcome ps = Some (map g [0..<length ps])" by (simp only: outcome_Some)
    with assms show False by simp
  qed
  then obtain i f where "i < length ps" "ps ! i = Atom f" by blast
  moreover obtain p s' where "f s = (p, s')" by fastforce
  ultimately show ?thesis by (blast intro: pool_step.goroutine)
qed

definition sub_proc :: "(('a, 's) proc \<times> ('a, 's) proc) set" where
  "sub_proc = {(q, p). \<exists>f s. p = Atom f \<and> q = fst (f s)}"

lemma wf_sub_proc: "wf sub_proc"
proof (rule wfUNIVI)
  fix P :: "('a, 's) proc \<Rightarrow> bool" and p
  assume ih: "\<forall>x. (\<forall>y. (y, x) \<in> sub_proc \<longrightarrow> P y) \<longrightarrow> P x"
  show "P p"
  proof (induction p rule: proc_induct)
    case (Ret a)
    show ?case using ih by (auto simp: sub_proc_def)
  next
    case (Atom f)
    have "\<forall>y. (y, Atom f) \<in> sub_proc \<longrightarrow> P y" using Atom by (auto simp: sub_proc_def)
    then show ?case using ih by blast
  qed
qed

lemma sub_listrel:
  assumes "i < length ps" and "ps ! i = Atom f" and "f s = (p, s')"
  shows "(ps[i := p], ps) \<in> listrel1 sub_proc"
proof -
  have "(p, ps ! i) \<in> sub_proc" using assms by (force simp: sub_proc_def intro: exI [of _ s])
  moreover have "(ps[i := p])[i := ps ! i] = ps" by simp
  ultimately show ?thesis
    using assms by (auto simp: listrel1_iff_update intro!: exI [of _ "Atom f"] exI [of _ i])
qed

theorem pool_terminates:
  "wf {(c', c). pool_step (\<lambda>_ _. False) c c'}"
proof (rule wf_subset)
  show "wf (inv_image (listrel1 sub_proc) fst)" by (simp add: wf_sub_proc)
next
  show "{(c', c). pool_step (\<lambda>_ _. False) c c'} \<subseteq> inv_image (listrel1 sub_proc) fst"
  proof (clarsimp)
    fix ps s ps' s'
    assume "pool_step (\<lambda>_ _. False) (ps, s) (ps', s')"
    then show "(ps', ps) \<in> listrel1 sub_proc"
      by (cases rule: pool_stepE) (auto simp: sub_listrel)
  qed
qed

text \<open>
  A fair run: it goes on forever, the environment included, and a goroutine that has not
  returned gets its turn again. Then every goroutine returns.
\<close>

definition fair_run :: "('s \<Rightarrow> 's \<Rightarrow> bool) \<Rightarrow> (nat \<Rightarrow> ('a, 's) proc list \<times> 's) \<Rightarrow> bool" where
  "fair_run R c \<longleftrightarrow>
     (\<forall>n. pool_step R (c n) (c (Suc n)))
     \<and> (\<forall>n i f. i < length (fst (c n)) \<longrightarrow> fst (c n) ! i = Atom f \<longrightarrow> (\<exists>m > n. fst (c m) ! i \<noteq> Atom f))"

lemma pool_step_sub:
  "pool_step R (ps, s) (ps', s') \<Longrightarrow> ps' = ps \<or> (ps', ps) \<in> listrel1 sub_proc"
  by (erule pool_stepE) (auto simp: sub_listrel)

lemma wf_eventually_constant:
  assumes "wf r" and "\<And>n. x (Suc n) = x n \<or> (x (Suc n), x n) \<in> r"
  shows "\<exists>N. \<forall>n \<ge> N. x n = x N"
proof -
  obtain N where low: "\<And>y. (y, x N) \<in> r\<^sup>+ \<Longrightarrow> y \<notin> range x"
    using wfE_min [OF wf_trancl [OF assms(1)], of "x 0" "range x"] by blast
  have "x n = x N" if "N \<le> n" for n
    using that
  proof (induction n rule: dec_induct)
    case base
    show ?case by simp
  next
    case (step n)
    show ?case
    proof (cases "x (Suc n) = x n")
      case False
      with assms(2) [of n] step.IH have "(x (Suc n), x N) \<in> r\<^sup>+" by auto
      from low [OF this] show ?thesis by blast
    qed (simp add: step.IH)
  qed
  then show ?thesis by blast
qed

lemma fair_run_finishes:
  assumes "fair_run R c"
  shows "\<exists>n rs. c n = (map Ret rs, snd (c n))"
proof -
  have step: "pool_step R (c n) (c (Suc n))" for n using assms by (simp add: fair_run_def)
  then have "fst (c (Suc n)) = fst (c n) \<or> (fst (c (Suc n)), fst (c n)) \<in> listrel1 sub_proc" for n
    using pool_step_sub [of R "fst (c n)" "snd (c n)" "fst (c (Suc n))" "snd (c (Suc n))"] by simp
  from wf_eventually_constant [OF wf_listrel1_iff [THEN iffD2, OF wf_sub_proc], of "\<lambda>n. fst (c n)", OF this]
  obtain N where same: "\<And>n. N \<le> n \<Longrightarrow> fst (c n) = fst (c N)" by blast
  have "outcome (fst (c N)) \<noteq> None"
  proof
    assume "outcome (fst (c N)) = None"
    then obtain i where i: "i < length (fst (c N))" "returned (fst (c N) ! i) = None"
      by (metis (no_types, lifting) outcome_def those_None in_set_conv_nth length_map nth_map)
    then obtain f where f: "fst (c N) ! i = Atom f" by (cases "fst (c N) ! i") auto
    with i assms obtain m where "m > N" "fst (c m) ! i \<noteq> Atom f" unfolding fair_run_def by blast
    with same [of m] f show False by simp
  qed
  then obtain rs where "fst (c N) = map Ret rs" by (auto simp: outcome_Some)
  then show ?thesis by (intro exI [of _ N] exI [of _ rs]) (simp add: prod_eq_iff)
qed

lemma fair_run_reaches: "fair_run R c \<Longrightarrow> pool_steps R (c 0) (c n)"
  by (induction n) (auto simp: fair_run_def intro: rtranclp.rtrancl_into_rtrancl)

lemma fair_run_exists:
  assumes "pool_steps R (ps, s) (map Ret rs, s')" and "\<And>s. R s s"
  shows "\<exists>c. fair_run R c \<and> c 0 = (ps, s)"
proof -
  obtain N where "(pool_step R ^^ N) (ps, s) (map Ret rs, s')"
    using assms(1) by (meson rtranclp_imp_relpowp)
  then obtain f where f: "f 0 = (ps, s)" "f N = (map Ret rs, s')" "\<And>i. i < N \<Longrightarrow> pool_step R (f i) (f (Suc i))"
    by (auto simp: relpowp_fun_conv)
  let ?c = "\<lambda>n. f (min n N)"
  have "pool_step R (?c n) (?c (Suc n))" for n
    using f(3) [of n] pool_step.environment [of R "snd (f N)" "snd (f N)" "fst (f N)"] assms(2)
    by (cases "n < N") (simp_all add: min_def)
  moreover have "\<exists>m > n. fst (?c m) ! i \<noteq> Atom g" if "i < length (fst (?c n))" for n i g
  proof -
    have len: "length (fst (f k)) = length (fst (f 0))" if "k \<le> N" for k
      using that
    proof (induction k)
      case (Suc k)
      then have "pool_step R (fst (f k), snd (f k)) (fst (f (Suc k)), snd (f (Suc k)))" using f(3) by simp
      then show ?case using Suc by (cases rule: pool_stepE) auto
    qed simp
    have "i < length rs" using that len [of "min n N"] len [of N] f(2) by simp
    then show ?thesis using f(2) by (intro exI [of _ "Suc (n + N)"]) simp
  qed
  ultimately have "fair_run R ?c" by (simp add: fair_run_def)
  then show ?thesis using f(1) by (intro exI [of _ ?c]) simp
qed

text \<open>Running the goroutines one after the other is one of the schedules.\<close>

fun run_all :: "('a, 's) proc list \<Rightarrow> 's \<Rightarrow> 'a list \<times> 's" where
  "run_all [] s = ([], s)"
| "run_all (p # ps) s =
     (case run p s of (a, s1) \<Rightarrow> case run_all ps s1 of (as, s2) \<Rightarrow> (a # as, s2))"

lemma pool_run_one:
  "i < length ps \<Longrightarrow> ps ! i = p \<Longrightarrow> run p s = (a, s') \<Longrightarrow>
   pool_steps R (ps, s) (ps[i := Ret a], s')"
proof (induction p arbitrary: ps s rule: proc_induct)
  case (Ret x)
  then have "ps[i := Ret a] = ps" by (metis list_update_id prod.inject run.simps(1))
  with Ret show ?case by simp
next
  case (Atom f)
  obtain q s1 where fs: "f s = (q, s1)" by (cases "f s")
  have step: "pool_step R (ps, s) (ps[i := q], s1)"
    using Atom.prems fs by (blast intro: pool_step.goroutine)
  have "pool_steps R (ps[i := q], s1) ((ps[i := q])[i := Ret a], s')"
    using Atom.IH [of "ps[i := fst (f s)]" s "snd (f s)"] Atom.prems fs by (simp add: run_Atom)
  with step show ?case by (simp add: converse_rtranclp_into_rtranclp)
qed

lemma pool_run_all_from:
  "run_all ps s = (as, s') \<Longrightarrow>
   pool_steps R (map Ret ds @ ps, s) (map Ret (ds @ as), s')"
proof (induction ps arbitrary: s as ds)
  case Nil
  then show ?case by simp
next
  case (Cons p ps)
  obtain a s1 where r: "run p s = (a, s1)" by (cases "run p s")
  obtain bs where ra: "run_all ps s1 = (bs, s')" and as: "as = a # bs"
    using Cons.prems r by (auto split: prod.splits)
  have "pool_steps R (map Ret ds @ p # ps, s)
          ((map Ret ds @ p # ps)[length ds := Ret a], s1)"
    by (rule pool_run_one [OF _ _ r]) (simp_all add: nth_append)
  then have "pool_steps R (map Ret ds @ p # ps, s) (map Ret (ds @ [a]) @ ps, s1)"
    by (simp add: list_update_append)
  moreover have "pool_steps R (map Ret (ds @ [a]) @ ps, s1) (map Ret ((ds @ [a]) @ bs), s')"
    by (rule Cons.IH [OF ra])
  ultimately show ?case using as by simp
qed

lemma pool_run_all: "run_all ps s = (as, s') \<Longrightarrow> pool_steps R (ps, s) (map Ret as, s')"
  using pool_run_all_from [of ps s as s' R "[]"] by simp

section \<open>Fan-out handlers\<close>

text \<open>
  The shape of the tools that fan out: a first computation either answers at once or yields
  one target per goroutine; when all have returned, their results are put together in order.
\<close>

inductive fan_out ::
  "('s \<Rightarrow> 's \<Rightarrow> bool) \<Rightarrow> ('r + 't list, 's) proc \<Rightarrow> ('t \<Rightarrow> ('a, 's) proc) \<Rightarrow> ('a list \<Rightarrow> 'r)
    \<Rightarrow> 's \<Rightarrow> 'r \<Rightarrow> 's \<Rightarrow> bool"
  for R first worker finish s where
  early: "pool_steps R ([first], s) ([Ret (Inl r)], s1) \<Longrightarrow>
     fan_out R first worker finish s r s1"
| fan: "pool_steps R ([first], s) ([Ret (Inr ts)], s1) \<Longrightarrow>
     pool_steps R (map worker ts, s1) (ps, s2) \<Longrightarrow> outcome ps = Some rs \<Longrightarrow>
     fan_out R first worker finish s (finish rs) s2"

text \<open>The schedule without overlap.\<close>

definition fan_out_run ::
  "('r + 't list, 's) proc \<Rightarrow> ('t \<Rightarrow> ('a, 's) proc) \<Rightarrow> ('a list \<Rightarrow> 'r) \<Rightarrow> 's \<Rightarrow> 'r \<times> 's" where
  "fan_out_run first worker finish s =
     (case run first s of
        (Inl r, s1) \<Rightarrow> (r, s1)
      | (Inr ts, s1) \<Rightarrow> (case run_all (map worker ts) s1 of (rs, s2) \<Rightarrow> (finish rs, s2)))"

lemma fan_out_run_is_schedule:
  assumes "fan_out_run first worker finish s = (r, s')"
  shows "fan_out R first worker finish s r s'"
proof -
  obtain x s1 where f: "run first s = (x, s1)" by (cases "run first s")
  have st: "pool_steps R ([first], s) ([Ret x], s1)"
    using pool_run_one [of 0 "[first]" first s x s1 R] f by simp
  show ?thesis
  proof (cases x)
    case (Inl y)
    with assms f st show ?thesis by (auto simp: fan_out_run_def intro: fan_out.early)
  next
    case (Inr ts)
    obtain rs s2 where ra: "run_all (map worker ts) s1 = (rs, s2)"
      by (cases "run_all (map worker ts) s1")
    have "fan_out R first worker finish s (finish rs) s2"
      by (rule fan_out.fan [OF st [unfolded Inr] pool_run_all [OF ra]]) (simp add: outcome_Some)
    with assms f Inr ra show ?thesis by (simp add: fan_out_run_def)
  qed
qed

text \<open>
  The rule for handlers: what the first computation and each worker keep, in any schedule,
  gives a statement about the answer.
\<close>

lemma fan_out_rule:
  assumes "fan_out R first worker finish s r s'" and "I s"
    and "keeps I F first" and "\<And>t ts. F (Inr ts) \<Longrightarrow> t \<in> set ts \<Longrightarrow> keeps I (Q t) (worker t)"
    and "\<And>s s'. R s s' \<Longrightarrow> I s \<Longrightarrow> I s'"
  shows "I s' \<and> (F (Inl r) \<or> (\<exists>ts rs. F (Inr ts) \<and> r = finish rs \<and> list_all2 Q ts rs))"
  using assms(1)
proof cases
  case early
  have "I s' \<and> (\<forall>i < length [Ret (Inl r)]. keeps I F ([Ret (Inl r)] ! i))"
    using pool_keeps [OF early, of I "\<lambda>_. F"] assms(2,3,5) by auto
  then show ?thesis by simp
next
  case (fan ts s1 ps rs)
  have "I s1 \<and> (\<forall>i < length [Ret (Inr ts)]. keeps I F ([Ret (Inr ts)] ! i))"
    using pool_keeps [OF fan(2), of I "\<lambda>_. F"] assms(2,3,5) by auto
  then have s1: "I s1" and ts: "F (Inr ts)" by auto
  have "\<forall>i < length (map worker ts). keeps I (Q (ts ! i)) (map worker ts ! i)"
    using assms(4) [OF ts] by simp
  from pool_outcome [OF fan(3) s1 fan(4) this assms(5)]
  have "length rs = length ts \<and> I s' \<and> (\<forall>i < length ts. Q (ts ! i) (rs ! i))" by simp
  then have "I s'" and "list_all2 Q ts rs" by (auto simp: list_all2_conv_all_nth)
  with ts fan(1) show ?thesis by blast
qed

end
