(* ===== verification/Cache.thy ===== *)
theory Cache
  imports GoBase
begin

text \<open>
  \<open>internal/cache/cache.go\<close>: the generic TTL cache with lazy expiry on read.

  The model follows the code: a store of entries with an absolute expiry, no sweep. Every
  method locks the cache's mutex for its whole body, so each is one atomic action; the instant
  it reads from \<open>now()\<close> is its first argument. The interface its clients rely on is the
  locale \<open>ttl_store\<close>: what is visible at an instant, and how the operations change it. The
  abstract specification is a log of operations: a read returns the last write that is at most
  \<open>ttl\<close> old.
\<close>

section \<open>The cache\<close>

record 'v cache_entry =
  entry_value :: 'v
  expiresAt :: int

record ('k, 'v) TTLCache =
  cache_ttl :: duration
  cache_store :: "'k \<rightharpoonup> 'v cache_entry"

definition New :: "duration \<Rightarrow> ('k, 'v) TTLCache" where
  "New ttl = \<lparr>cache_ttl = ttl, cache_store = Map.empty\<rparr>"

definition Get :: "int \<Rightarrow> 'k \<Rightarrow> ('k, 'v) TTLCache \<Rightarrow> 'v option \<times> ('k, 'v) TTLCache" where
  "Get now key c =
     (case cache_store c key of
        None \<Rightarrow> (None, c)
      | Some e \<Rightarrow>
          if now > expiresAt e
          then (None, c\<lparr>cache_store := (cache_store c)(key := None)\<rparr>)
          else (Some (entry_value e), c))"

definition Set :: "int \<Rightarrow> 'k \<Rightarrow> 'v \<Rightarrow> ('k, 'v) TTLCache \<Rightarrow> ('k, 'v) TTLCache" where
  "Set now key v c =
     c\<lparr>cache_store :=
        (cache_store c)(key \<mapsto> \<lparr>entry_value = v, expiresAt = now + sint (cache_ttl c)\<rparr>)\<rparr>"

definition Delete :: "'k \<Rightarrow> ('k, 'v) TTLCache \<Rightarrow> ('k, 'v) TTLCache" where
  "Delete key c = c\<lparr>cache_store := (cache_store c)(key := None)\<rparr>"

definition Clear :: "('k, 'v) TTLCache \<Rightarrow> ('k, 'v) TTLCache" where
  "Clear c = c\<lparr>cache_store := Map.empty\<rparr>"

text \<open>What a read at \<open>now\<close> sees, and how long an entry lives.\<close>

definition visible :: "int \<Rightarrow> ('k, 'v) TTLCache \<Rightarrow> 'k \<Rightarrow> 'v option" where
  "visible now c key =
     (case cache_store c key of
        None \<Rightarrow> None
      | Some e \<Rightarrow> if now > expiresAt e then None else Some (entry_value e))"

definition lifetime :: "('k, 'v) TTLCache \<Rightarrow> int" where
  "lifetime c = sint (cache_ttl c)"

lemmas cache_ops = New_def Get_def Set_def Delete_def Clear_def visible_def lifetime_def

section \<open>The interface\<close>

text \<open>Timed operations, and what the log of them (latest first) says a read returns.\<close>

datatype ('k, 'v) cache_op = OpGet 'k | OpSet 'k 'v | OpDelete 'k | OpClear

fun spec_get :: "int \<Rightarrow> (int \<times> ('k, 'v) cache_op) list \<Rightarrow> int \<Rightarrow> 'k \<Rightarrow> 'v option" where
  "spec_get life [] now k = None"
| "spec_get life ((t, OpSet k' v) # ops) now k =
     (if k' = k then (if now \<le> t + life then Some v else None) else spec_get life ops now k)"
| "spec_get life ((t, OpDelete k') # ops) now k =
     (if k' = k then None else spec_get life ops now k)"
| "spec_get life ((t, OpClear) # ops) now k = None"
| "spec_get life ((t, OpGet k') # ops) now k = spec_get life ops now k"

fun timely :: "int \<Rightarrow> (int \<times> 'o) list \<Rightarrow> bool" where
  "timely now [] = True"
| "timely now ((t, op) # ops) = (t \<le> now \<and> timely t ops)"

lemma timely_later: "timely t ops \<Longrightarrow> t \<le> t' \<Longrightarrow> timely t' ops"
  by (cases ops) auto

locale ttl_store =
  fixes new :: "duration \<Rightarrow> 'c"
    and get :: "int \<Rightarrow> 'k \<Rightarrow> 'c \<Rightarrow> 'v option \<times> 'c"
    and set :: "int \<Rightarrow> 'k \<Rightarrow> 'v \<Rightarrow> 'c \<Rightarrow> 'c"
    and del :: "'k \<Rightarrow> 'c \<Rightarrow> 'c"
    and clr :: "'c \<Rightarrow> 'c"
    and vis :: "int \<Rightarrow> 'c \<Rightarrow> 'k \<Rightarrow> 'v option"
    and life :: "'c \<Rightarrow> int"
  assumes vis_new: "vis t (new d) k = None"
    and get_result: "fst (get t k c) = vis t c k"
    and vis_get: "t \<le> t' \<Longrightarrow> vis t' (snd (get t k c)) k' = vis t' c k'"
    and vis_get_shrinks: "vis t' (snd (get t k c)) k' = Some v \<Longrightarrow> vis t' c k' = Some v"
    and vis_set: "vis t' (set t k v c) k' =
      (if k' = k then (if t' \<le> t + life c then Some v else None) else vis t' c k')"
    and vis_del: "vis t' (del k c) k' = (if k' = k then None else vis t' c k')"
    and vis_clr: "vis t' (clr c) k' = None"
    and vis_later: "t \<le> t' \<Longrightarrow> vis t' c k = Some v \<Longrightarrow> vis t c k = Some v"
    and life_new: "life (new d) = sint d"
    and life_get: "life (snd (get t k c)) = life c"
    and life_set: "life (set t k v c) = life c"
    and life_del: "life (del k c) = life c"
    and life_clr: "life (clr c) = life c"
begin

lemmas observe = vis_new vis_get vis_set vis_del vis_clr
  and lifetimes = life_new life_get life_set life_del life_clr

abbreviation step :: "int \<times> ('k, 'v) cache_op \<Rightarrow> 'c \<Rightarrow> 'c" where
  "step \<equiv> \<lambda>(t, op) c. (case op of
      OpGet k \<Rightarrow> snd (get t k c) | OpSet k v \<Rightarrow> set t k v c
    | OpDelete k \<Rightarrow> del k c | OpClear \<Rightarrow> clr c)"

lemma life_log: "life (foldr step ops (new d)) = sint d"
  by (induction ops) (auto simp: lifetimes split: cache_op.split)

lemma vis_log:
  "timely now ops \<Longrightarrow> vis now (foldr step ops (new d)) k = spec_get (sint d) ops now k"
proof (induction ops)
  case Nil
  show ?case by (simp add: vis_new)
next
  case (Cons x ops)
  obtain t op where x: "x = (t, op)" by (cases x)
  with Cons.prems have "t \<le> now" and "timely now ops" by (auto intro: timely_later)
  with Cons.IH x show ?case by (cases op) (simp_all add: observe life_log)
qed

lemma get_log:
  "timely now ops \<Longrightarrow>
   fst (get now k (foldr step ops (new d))) = spec_get (sint d) ops now k"
  by (simp add: get_result vis_log)

text \<open>A property of the entries, and of what a read returns.\<close>

abbreviation holds :: "('k \<Rightarrow> 'v \<Rightarrow> bool) \<Rightarrow> 'c \<Rightarrow> bool" where
  "holds P c \<equiv> \<forall>t k v. vis t c k = Some v \<longrightarrow> P k v"

lemma holds_new: "holds P (new d)"
  by (simp add: vis_new)

lemma holds_get: "holds P c \<Longrightarrow> holds P (snd (get t k c))"
  by (auto dest: vis_get_shrinks)

lemma get_holds: "holds P c \<Longrightarrow> fst (get t k c) = Some v \<Longrightarrow> P k v"
  by (simp add: get_result)

lemma holds_set: "holds P c \<Longrightarrow> P k v \<Longrightarrow> holds P (set t k v c)"
  by (auto simp: vis_set split: if_splits)

text \<open>Look up, else compute and store: what a reader then sees.\<close>

lemma vis_fill:
  assumes "t \<le> t'" and "fst (get t k c) = None"
  shows "vis t' (set t' k v (snd (get t k c))) k = (if 0 \<le> life c then Some v else None)"
  by (simp add: vis_set life_get)

end

section \<open>The cache provides it\<close>

interpretation ttl: ttl_store New Get Set Delete Clear visible lifetime
  by unfold_locales (auto simp: cache_ops split: option.splits if_splits)

text \<open>The log of operations, latest first, run on the code's cache.\<close>

definition cache_step :: "int \<times> ('k, 'v) cache_op \<Rightarrow> ('k, 'v) TTLCache \<Rightarrow> ('k, 'v) TTLCache" where
  "cache_step = (\<lambda>(t, op) c. (case op of
      OpGet k \<Rightarrow> snd (Get t k c) | OpSet k v \<Rightarrow> Set t k v c
    | OpDelete k \<Rightarrow> Delete k c | OpClear \<Rightarrow> Clear c))"

text \<open>
  C19. The cache refines its abstract specification: after any sequence of operations at
  non-decreasing instants, a read returns exactly what the log says, the value of the last
  write of that key that is at most the cache's TTL old and was not deleted or cleared since;
  lazy deletion on read is never observable.
\<close>

theorem cache_refines_log:
  assumes "timely now ops"
  shows "fst (Get now k (foldr cache_step ops (New d))) = spec_get (sint d) ops now k"
  unfolding cache_step_def by (rule ttl.get_log [OF assms])

theorem cache_refines_log_witness:
  "fst (Get 14 ''k'' (foldr cache_step
      [(12, OpGet ''j''), (4, OpSet ''k'' (2::nat)), (3, OpSet ''k'' 1)] (New 10))) = Some 2
   \<and> fst (Get 15 ''k'' (foldr cache_step
      [(12, OpGet ''j''), (4, OpSet ''k'' (2::nat)), (3, OpSet ''k'' 1)] (New 10))) = None"
  using cache_refines_log
      [of 14 "[(12, OpGet ''j''), (4, OpSet ''k'' (2::nat)), (3, OpSet ''k'' 1)]" "''k''" 10]
    cache_refines_log
      [of 15 "[(12, OpGet ''j''), (4, OpSet ''k'' (2::nat)), (3, OpSet ''k'' 1)]" "''k''" 10]
  by simp

end
