(* ===== verification/Targets.thy ===== *)
theory Targets
  imports Procs
begin

text \<open>
  \<open>internal/capi/target.go\<close>, \<open>target_pattern.go\<close> and \<open>resolve_patterns.go\<close>: the composite
  target strings \<open>kubeconfig/context/namespace/name\<close>, the partial patterns over them, and the
  one routine that turns the patterns of a tool call into a list of exact targets.
  \<open>CAPICluster\<close> is the struct of \<open>clusters.go\<close>; its custom fields are a map listed in some
  order.

  The lemmas: formatting and parsing are inverse exactly where no field holds a slash; a
  pattern matches the clusters whose path it is a prefix of; resolution lists, without
  duplicates, what the patterns select, and looks the known clusters up at most once.
\<close>

section \<open>Clusters and exact targets\<close>

record CAPICluster =
  cKubeconfigName :: string
  cContext :: string
  cNamespace :: string
  cName :: string
  cCustomFields :: "(string \<times> string) list"

definition slash :: char where
  "slash = CHR ''/''"

definition FormatTarget :: "CAPICluster \<Rightarrow> string" where
  "FormatTarget c = Join [slash] [cKubeconfigName c, cContext c, cNamespace c, cName c]"

definition ParseTarget :: "string \<Rightarrow> error + string \<times> string \<times> string \<times> string" where
  "ParseTarget target =
     (case Split slash target of
        [k, c, n, m] \<Rightarrow> Inr (k, c, n, m)
      | _ \<Rightarrow> Inl (Errorf [Txt ''capi: invalid target '', Qtd target,
                Txt '': want \"kubeconfig/context/namespace/name\"'']))"

section \<open>Patterns\<close>

record TargetPattern =
  pKubeconfigName :: string
  pContext :: string
  pNamespace :: string
  pName :: string

definition IsExact :: "TargetPattern \<Rightarrow> bool" where
  "IsExact p = (pContext p \<noteq> [] \<and> pNamespace p \<noteq> [] \<and> pName p \<noteq> [])"

definition pattern_of_parts :: "string list \<Rightarrow> TargetPattern" where
  "pattern_of_parts parts =
     (let p0 = \<lparr>pKubeconfigName = parts ! 0, pContext = [], pNamespace = [], pName = []\<rparr>;
          p1 = (if length parts > 1 then p0\<lparr>pContext := parts ! 1\<rparr> else p0);
          p2 = (if length parts > 2 then p1\<lparr>pNamespace := parts ! 2\<rparr> else p1)
      in if length parts > 3 then p2\<lparr>pName := parts ! 3\<rparr> else p2)"

definition ParseTargetPattern :: "string \<Rightarrow> error + TargetPattern" where
  "ParseTargetPattern target =
     (if target = [] then
        Inl (Errorf [Txt ''capi: invalid target '', Qtd target, Txt '': must not be empty''])
      else let parts = Split slash target in
        if length parts > 4 then
          Inl (Errorf [Txt ''capi: invalid target '', Qtd target,
            Txt '': want 1 to 4 slash-separated segments (kubeconfig[/context[/namespace[/name]]])''])
        else if [] \<in> set parts then
          Inl (Errorf [Txt ''capi: invalid target '', Qtd target, Txt '': empty segment''])
        else Inr (pattern_of_parts parts))"

definition Matches :: "TargetPattern \<Rightarrow> CAPICluster \<Rightarrow> bool" where
  "Matches p c =
     (if cKubeconfigName c \<noteq> pKubeconfigName p then False
      else if pContext p \<noteq> [] \<and> cContext c \<noteq> pContext p then False
      else if pNamespace p \<noteq> [] \<and> cNamespace c \<noteq> pNamespace p then False
      else if pName p \<noteq> [] \<and> cName c \<noteq> pName p then False
      else True)"

fun ExpandTargetPattern :: "TargetPattern \<Rightarrow> CAPICluster list \<Rightarrow> string list" where
  "ExpandTargetPattern p [] = []"
| "ExpandTargetPattern p (c # cs) =
     (if Matches p c then FormatTarget c # ExpandTargetPattern p cs
      else ExpandTargetPattern p cs)"

section \<open>Resolution\<close>

definition dedupePreserveOrder :: "string list \<Rightarrow> string list" where
  "dedupePreserveOrder xs = dedup_into [] xs"

fun check_strict :: "string list \<Rightarrow> error + unit" where
  "check_strict [] = Inr ()"
| "check_strict (p # ps) =
     (case ParseTarget p of
        Inl e \<Rightarrow> Inl (Errorf [Txt ''cluster entry '', Qtd p,
          Txt '' must be a full kubeconfig/context/namespace/name path: '', Wrp e])
      | Inr _ \<Rightarrow> check_strict ps)"

fun parse_patterns :: "string list \<Rightarrow> error + TargetPattern list" where
  "parse_patterns [] = Inr []"
| "parse_patterns (p # ps) =
     (case ParseTargetPattern p of
        Inl e \<Rightarrow> Inl e
      | Inr q \<Rightarrow> (case parse_patterns ps of Inl e \<Rightarrow> Inl e | Inr qs \<Rightarrow> Inr (q # qs)))"

definition cluster_of_pattern :: "TargetPattern \<Rightarrow> CAPICluster" where
  "cluster_of_pattern p =
     \<lparr>cKubeconfigName = pKubeconfigName p, cContext = pContext p,
      cNamespace = pNamespace p, cName = pName p, cCustomFields = []\<rparr>"

fun collect_matches :: "CAPICluster list \<Rightarrow> string list \<Rightarrow> TargetPattern list \<Rightarrow> string list" where
  "collect_matches known out [] = out"
| "collect_matches known out (p # ps) =
     collect_matches known
       (dedup_into out
         (if IsExact p then [FormatTarget (cluster_of_pattern p)]
          else ExpandTargetPattern p known)) ps"

text \<open>
  \<open>listKnown\<close> is a computation: it may fail and it may change the shared state.
\<close>

definition ResolveClusterPatterns ::
  "string list \<Rightarrow> (error + CAPICluster list, 's) proc \<Rightarrow> bool \<Rightarrow> (error + string list, 's) proc"
where
  "ResolveClusterPatterns patterns listKnown strict =
     (if strict then
        (case check_strict patterns of
           Inl e \<Rightarrow> Ret (Inl e)
         | Inr _ \<Rightarrow> Ret (Inr (dedupePreserveOrder patterns)))
      else
        (case parse_patterns patterns of
           Inl e \<Rightarrow> Ret (Inl e)
         | Inr parsed \<Rightarrow>
             if list_ex (\<lambda>p. \<not> IsExact p) parsed then
               try_proc listKnown (\<lambda>known. Ret (Inr (collect_matches known [] parsed)))
             else Ret (Inr (collect_matches [] [] parsed))))"

section \<open>Paths\<close>

text \<open>The four fields of a cluster, and the fields of a pattern that are set.\<close>

definition path :: "CAPICluster \<Rightarrow> string list" where
  "path c = [cKubeconfigName c, cContext c, cNamespace c, cName c]"

definition slash_free :: "CAPICluster \<Rightarrow> bool" where
  "slash_free c = (\<forall>f\<in>set (path c). slash \<notin> set f)"

lemma FormatTarget_Join: "FormatTarget c = Join [slash] (path c)"
  by (simp add: FormatTarget_def path_def)

lemma count_list_Join [go_string]:
  "ps \<noteq> [] \<Longrightarrow> count_list (Join [c] ps) c + 1 = length ps + sum_list (map (\<lambda>p. count_list p c) ps)"
  by (induction "[c]" ps rule: Join.induct) auto

lemma count_slashes_Format:
  "count_list (FormatTarget c) slash = 3 + sum_list (map (\<lambda>f. count_list f slash) (path c))"
  using count_list_Join [of "path c" slash] by (simp add: FormatTarget_Join path_def)

lemma slash_free_count:
  "slash_free c \<longleftrightarrow> sum_list (map (\<lambda>f. count_list f slash) (path c)) = 0"
  by (auto simp: slash_free_def count_list_0_iff)

lemma ParseTarget_length: "(\<exists>r. ParseTarget t = Inr r) \<longleftrightarrow> length (Split slash t) = 4"
  by (auto simp: ParseTarget_def length_Suc_conv numeral_eq_Suc split: list.splits)

lemma ParseTarget_Inr:
  "ParseTarget t = Inr (k, c, n, m) \<longleftrightarrow> Split slash t = [k, c, n, m]"
  by (auto simp: ParseTarget_def split: list.splits)

lemma ParseTarget_Inl:
  "ParseTarget t = Inl e \<longleftrightarrow> length (Split slash t) \<noteq> 4 \<and>
     e = Errorf [Txt ''capi: invalid target '', Qtd t,
           Txt '': want \"kubeconfig/context/namespace/name\"'']"
  by (auto simp: ParseTarget_def split: list.splits)

lemma ParseTarget_slash_count: "(\<exists>r. ParseTarget t = Inr r) \<longleftrightarrow> count_list t slash = 3"
  unfolding ParseTarget_length length_Split by simp

lemma Split_Format: "slash_free c \<Longrightarrow> Split slash (FormatTarget c) = path c"
  by (simp add: FormatTarget_def slash_free_def path_def Split_append_sep Split_free)

lemma ParseTarget_path: "ParseTarget t = Inr (k, c, n, m) \<Longrightarrow> t = Join [slash] [k, c, n, m]"
  by (metis Join_Split ParseTarget_Inr)

section \<open>Exact targets: format and parse\<close>

text \<open>
  A formatted target parses back to exactly the cluster's four fields when no field holds
  a slash, and is rejected, never misread as another cluster, when some field does.
\<close>

theorem ParseTarget_FormatTarget:
  "ParseTarget (FormatTarget c) =
     (if slash_free c then Inr (cKubeconfigName c, cContext c, cNamespace c, cName c)
      else Inl (Errorf [Txt ''capi: invalid target '', Qtd (FormatTarget c),
                  Txt '': want \"kubeconfig/context/namespace/name\"'']))"
proof (cases "slash_free c")
  case True
  then show ?thesis by (simp add: ParseTarget_Inr Split_Format path_def)
next
  case False
  then have "length (Split slash (FormatTarget c)) \<noteq> 4"
    by (simp add: length_Split count_slashes_Format slash_free_count)
  with False show ?thesis by (simp add: ParseTarget_Inl)
qed

lemma FormatTarget_inject:
  assumes "slash_free c" and "FormatTarget c = FormatTarget d"
  shows "path c = path d"
proof -
  have "slash_free d" using assms by (metis add_left_imp_eq count_slashes_Format slash_free_count)
  with assms show ?thesis by (metis Split_Format)
qed

section \<open>Patterns match by prefix\<close>

text \<open>The well-formed patterns: one to four segments, none empty.\<close>

definition valid_pattern :: "string \<Rightarrow> bool" where
  "valid_pattern s = (length (Split slash s) \<le> 4 \<and> [] \<notin> set (Split slash s))"

definition exact_path :: "string \<Rightarrow> bool" where
  "exact_path s = (length (Split slash s) = 4)"

lemma ParseTargetPattern_Inr:
  "ParseTargetPattern s = Inr p \<longleftrightarrow> valid_pattern s \<and> p = pattern_of_parts (Split slash s)"
  by (auto simp: ParseTargetPattern_def valid_pattern_def Let_def)

lemma ParseTargetPattern_Inl: "(\<exists>e. ParseTargetPattern s = Inl e) \<longleftrightarrow> \<not> valid_pattern s"
  by (auto simp: ParseTargetPattern_def valid_pattern_def Let_def)

lemma parts_cases:
  assumes "length ps \<le> 4" and "ps \<noteq> []"
  obtains k where "ps = [k]" | k c where "ps = [k, c]" | k c n where "ps = [k, c, n]"
    | k c n m where "ps = [k, c, n, m]"
  using assms by (auto simp: le_Suc_eq length_Suc_conv numeral_eq_Suc)

lemma IsExact_parts:
  assumes "valid_pattern s"
  shows "IsExact (pattern_of_parts (Split slash s)) \<longleftrightarrow> exact_path s"
  using assms unfolding valid_pattern_def exact_path_def
  by (elim conjE parts_cases [OF _ Split_not_Nil])
    (auto simp: IsExact_def pattern_of_parts_def Let_def)

lemma Matches_parts:
  assumes "valid_pattern s"
  shows "Matches (pattern_of_parts (Split slash s)) c \<longleftrightarrow> prefix (Split slash s) (path c)"
  using assms unfolding valid_pattern_def
  by (elim conjE parts_cases [OF _ Split_not_Nil])
    (auto simp: Matches_def pattern_of_parts_def path_def Let_def)

lemma Format_exact_parts:
  assumes "valid_pattern s" and "exact_path s"
  shows "FormatTarget (cluster_of_pattern (pattern_of_parts (Split slash s))) = s"
proof -
  from assms have "length (Split slash s) = 4" by (simp add: exact_path_def)
  then obtain k c n m where sp: "Split slash s = [k, c, n, m]"
    by (auto simp: length_Suc_conv numeral_eq_Suc)
  have "Join [slash] (Split slash s) = s" by (rule Join_Split)
  with sp show ?thesis
    by (simp add: FormatTarget_def cluster_of_pattern_def pattern_of_parts_def Let_def)
qed

text \<open>
  A pattern string is accepted exactly when it has one to four segments, none of them
  empty; the parsed pattern then matches a cluster exactly when its segments are a prefix of
  the cluster's path, and it is exact exactly when it has all four.
\<close>

theorem ParseTargetPattern_matches_prefix:
  "(case ParseTargetPattern s of
      Inl e \<Rightarrow> length (Split slash s) > 4 \<or> [] \<in> set (Split slash s)
    | Inr p \<Rightarrow> length (Split slash s) \<le> 4 \<and> [] \<notin> set (Split slash s)
        \<and> Matches p c = prefix (Split slash s) (path c)
        \<and> IsExact p = (length (Split slash s) = 4))"
proof (cases "ParseTargetPattern s")
  case (Inl e)
  then have "\<not> valid_pattern s" using ParseTargetPattern_Inl by blast
  with Inl show ?thesis by (auto simp: valid_pattern_def)
next
  case (Inr p)
  then have v: "valid_pattern s" and p: "p = pattern_of_parts (Split slash s)"
    by (simp_all add: ParseTargetPattern_Inr)
  show ?thesis using Inr v
    by (simp add: p Matches_parts IsExact_parts) (simp add: valid_pattern_def exact_path_def)
qed

section \<open>What resolution yields\<close>

text \<open>The targets one pattern stands for, in the order of the known clusters.\<close>

definition selected :: "CAPICluster list \<Rightarrow> string \<Rightarrow> string list" where
  "selected known s =
     (if exact_path s then [s]
      else map FormatTarget (filter (\<lambda>c. prefix (Split slash s) (path c)) known))"

lemma ExpandTargetPattern_filter:
  "ExpandTargetPattern p known = map FormatTarget (filter (Matches p) known)"
  by (induction known) auto

lemma parse_patterns_Inr:
  "parse_patterns ps = Inr qs \<longleftrightarrow>
     (\<forall>p\<in>set ps. valid_pattern p) \<and> qs = map (pattern_of_parts \<circ> Split slash) ps"
proof (induction ps arbitrary: qs)
  case Nil
  then show ?case by auto
next
  case (Cons p ps)
  show ?case
  proof (cases "parse_patterns ps")
    case (Inl e)
    with Cons.IH [of "map (pattern_of_parts \<circ> Split slash) ps"]
    have "\<not> (\<forall>q\<in>set ps. valid_pattern q)" by simp
    with Inl show ?thesis by (auto split: sum.splits)
  next
    case (Inr qs')
    with Cons.IH [of qs'] have "(\<forall>q\<in>set ps. valid_pattern q) \<and> qs' = map (pattern_of_parts \<circ> Split slash) ps"
      by simp
    with Inr show ?thesis
      using ParseTargetPattern_Inl [of p] by (auto simp: ParseTargetPattern_Inr split: sum.splits)
  qed
qed

lemma parse_patterns_Inl:
  "\<not> (\<forall>p\<in>set ps. valid_pattern p) \<Longrightarrow> \<exists>e. parse_patterns ps = Inl e"
  using parse_patterns_Inr [of ps] by (cases "parse_patterns ps") auto

lemma collect_matches_concat:
  "\<forall>p\<in>set ps. valid_pattern p \<Longrightarrow>
   collect_matches known out (map (pattern_of_parts \<circ> Split slash) ps) =
     dedup_into out (concat (map (selected known) ps))"
proof (induction ps arbitrary: out)
  case Nil
  then show ?case by simp
next
  case (Cons p ps)
  then have v: "valid_pattern p" by simp
  have "(if IsExact (pattern_of_parts (Split slash p))
          then [FormatTarget (cluster_of_pattern (pattern_of_parts (Split slash p)))]
          else ExpandTargetPattern (pattern_of_parts (Split slash p)) known) = selected known p"
    by (simp add: IsExact_parts [OF v] Format_exact_parts [OF v] selected_def
          ExpandTargetPattern_filter Matches_parts [OF v] cong: filter_cong)
  with Cons show ?case by (simp add: dedup_into_append)
qed

lemma check_strict_find:
  "check_strict ps = (case find (\<lambda>p. \<not> exact_path p) ps of
     None \<Rightarrow> Inr ()
   | Some p \<Rightarrow> Inl (Errorf [Txt ''cluster entry '', Qtd p,
       Txt '' must be a full kubeconfig/context/namespace/name path: '',
       Wrp (Errorf [Txt ''capi: invalid target '', Qtd p,
              Txt '': want \"kubeconfig/context/namespace/name\"''])]))"
proof (induction ps)
  case Nil
  then show ?case by simp
next
  case (Cons p ps)
  show ?case
  proof (cases "exact_path p")
    case True
    then obtain r where "ParseTarget p = Inr r" by (metis ParseTarget_length exact_path_def)
    with True Cons show ?thesis by simp
  next
    case False
    then have "ParseTarget p = Inl (Errorf [Txt ''capi: invalid target '', Qtd p,
        Txt '': want \"kubeconfig/context/namespace/name\"''])"
      by (simp add: ParseTarget_Inl exact_path_def)
    with False show ?thesis by simp
  qed
qed

lemma concat_selected_exact:
  "\<forall>p\<in>set ps. exact_path p \<Longrightarrow> concat (map (selected known) ps) = ps"
  by (induction ps) (auto simp: selected_def)

lemma resolve_strict:
  "ResolveClusterPatterns ps lk True =
     Ret (case check_strict ps of Inl e \<Rightarrow> Inl e | Inr _ \<Rightarrow> Inr (first_seen ps))"
  by (simp add: ResolveClusterPatterns_def dedupePreserveOrder_def dedup_into_first_seen split: sum.split)

lemma set_selected: "set (selected known p) \<subseteq> insert p (FormatTarget ` set known)"
  by (auto simp: selected_def)

lemma FormatTarget_selected:
  assumes "slash_free c" and "c \<in> set known"
  shows "FormatTarget c \<in> set (selected known p) \<longleftrightarrow> prefix (Split slash p) (path c)"
proof (cases "exact_path p")
  case True
  have "FormatTarget c = p \<longleftrightarrow> path c = Split slash p"
    using Split_Format [OF assms(1)] Join_Split [of slash p] by (metis FormatTarget_Join)
  moreover have "prefix (Split slash p) (path c) \<longleftrightarrow> Split slash p = path c"
  proof
    assume pre: "prefix (Split slash p) (path c)"
    have "length (path c) = length (Split slash p)" using True by (simp add: exact_path_def path_def)
    with pre show "Split slash p = path c" by (metis append_eq_append_conv append.right_neutral prefix_def)
  qed simp
  ultimately show ?thesis using True by (auto simp: selected_def)
next
  case False
  have same: "path d = path c" if "FormatTarget d = FormatTarget c" for d
    using FormatTarget_inject [OF assms(1)] that by metis
  have "FormatTarget c \<in> set (selected known p)
      \<longleftrightarrow> (\<exists>d \<in> set known. prefix (Split slash p) (path d) \<and> FormatTarget d = FormatTarget c)"
    using False by (auto simp: selected_def image_iff)
  also have "\<dots> \<longleftrightarrow> prefix (Split slash p) (path c)" using same assms(2) by metis
  finally show ?thesis .
qed

text \<open>
  Whatever the lookup does meanwhile: the answer has no duplicates, and every target of it is
  one of the patterns or that of a known cluster.
\<close>

lemma keeps_resolve:
  assumes "keeps I (okQ K) listKnown"
  shows "keeps I (okQ (\<lambda>ts. distinct ts \<and> (ps = [] \<longrightarrow> ts = [])
      \<and> (\<exists>known. (known = [] \<or> K known) \<and> set ts \<subseteq> set ps \<union> FormatTarget ` set known)))
    (ResolveClusterPatterns ps listKnown strict)"
proof (cases strict)
  case True
  then show ?thesis
    by (auto simp: resolve_strict first_seen_def split: sum.split intro!: exI [of _ "[]"])
next
  case False
  show ?thesis
  proof (cases "\<forall>p\<in>set ps. valid_pattern p")
    case bad: False
    then obtain e where "parse_patterns ps = Inl e" using parse_patterns_Inl by blast
    with False show ?thesis by (simp add: ResolveClusterPatterns_def)
  next
    case valid: True
    then have parsed: "parse_patterns ps = Inr (map (pattern_of_parts \<circ> Split slash) ps)"
      by (simp add: parse_patterns_Inr)
    have members: "distinct (collect_matches known [] (map (pattern_of_parts \<circ> Split slash) ps))
        \<and> set (collect_matches known [] (map (pattern_of_parts \<circ> Split slash) ps))
            \<subseteq> set ps \<union> FormatTarget ` set known" for known
      using set_selected [of known]
      by (auto simp: collect_matches_concat [OF valid] distinct_dedup_into)
    have "keeps I (okQ (\<lambda>ts. distinct ts \<and> (ps = [] \<longrightarrow> ts = [])
        \<and> (\<exists>known. (known = [] \<or> K known) \<and> set ts \<subseteq> set ps \<union> FormatTarget ` set known)))
      (try_proc listKnown (\<lambda>known. Ret (Inr (collect_matches known [] (map (pattern_of_parts \<circ> Split slash) ps)))))"
      by (rule keeps_try [OF assms]) (use members in auto)
    moreover have "okQ (\<lambda>ts. distinct ts \<and> (ps = [] \<longrightarrow> ts = [])
        \<and> (\<exists>known. (known = [] \<or> K known) \<and> set ts \<subseteq> set ps \<union> FormatTarget ` set known))
      (Inr (collect_matches [] [] (map (pattern_of_parts \<circ> Split slash) ps)))"
      using members [of "[]"] by auto
    ultimately show ?thesis using False parsed by (simp add: ResolveClusterPatterns_def)
  qed
qed

text \<open>
  C14. Strict resolution never looks anything up and never widens a call: it answers, in
  first-seen order and without duplicates, exactly the strings it was given, when each has
  exactly four segments, and otherwise the error that names the first one that has not.
\<close>

theorem ResolveClusterPatterns_strict:
  "ResolveClusterPatterns patterns listKnown True =
     Ret (case find (\<lambda>p. length (Split slash p) \<noteq> 4) patterns of
       None \<Rightarrow> Inr (first_seen patterns)
     | Some p \<Rightarrow> Inl (Errorf [Txt ''cluster entry '', Qtd p,
         Txt '' must be a full kubeconfig/context/namespace/name path: '',
         Wrp (Errorf [Txt ''capi: invalid target '', Qtd p,
                Txt '': want \"kubeconfig/context/namespace/name\"''])]))"
  by (simp add: ResolveClusterPatterns_def check_strict_find exact_path_def
        dedupePreserveOrder_def dedup_into_first_seen split: option.split)

lemma resolve_expand:
  assumes "\<forall>p\<in>set patterns. valid_pattern p"
  shows "run (ResolveClusterPatterns patterns listKnown False) s =
     (if \<forall>p\<in>set patterns. exact_path p then (Inr (first_seen patterns), s)
      else case run listKnown s of
          (Inl e, s') \<Rightarrow> (Inl e, s')
        | (Inr known, s') \<Rightarrow> (Inr (first_seen (concat (map (selected known) patterns))), s'))"
proof -
  have parsed: "parse_patterns patterns = Inr (map (pattern_of_parts \<circ> Split slash) patterns)"
    using assms by (simp add: parse_patterns_Inr)
  have exact: "list_ex (\<lambda>p. \<not> IsExact p) (map (pattern_of_parts \<circ> Split slash) patterns)
      \<longleftrightarrow> \<not> (\<forall>p\<in>set patterns. exact_path p)"
    using assms by (auto simp: list_ex_iff IsExact_parts)
  show ?thesis
    unfolding ResolveClusterPatterns_def parsed
    by (simp add: exact collect_matches_concat [OF assms] dedup_into_first_seen
          concat_selected_exact split: prod.split sum.split)
qed

lemma resolve_exact:
  assumes "valid_pattern t" and "exact_path t"
  shows "ResolveClusterPatterns [t] listKnown False = Ret (Inr [t])"
proof -
  have valid: "\<forall>p\<in>set [t]. valid_pattern p" using assms(1) by simp
  have parsed: "parse_patterns [t] = Inr (map (pattern_of_parts \<circ> Split slash) [t])"
    using valid by (simp only: parse_patterns_Inr)
  have "collect_matches [] [] (map (pattern_of_parts \<circ> Split slash) [t]) = [t]"
    using collect_matches_concat [OF valid, of "[]" "[]"] assms(2)
    by (simp add: selected_def dedup_into_first_seen first_seen_def)
  with assms show ?thesis
    unfolding ResolveClusterPatterns_def parsed by (simp add: IsExact_parts)
qed

text \<open>
  C13. Resolution of well-formed patterns, in full: the clusters are listed only if some
  pattern is partial, then once; the answer is, in first-seen order and without duplicates,
  each exact pattern itself and the target of every known cluster that a partial pattern is a
  path prefix of.
\<close>

theorem ResolveClusterPatterns_expand:
  assumes "\<forall>p\<in>set patterns. valid_pattern p"
  shows "run (ResolveClusterPatterns patterns listKnown False) s =
     (if \<forall>p\<in>set patterns. exact_path p then (Inr (first_seen patterns), s)
      else case run listKnown s of
          (Inl e, s') \<Rightarrow> (Inl e, s')
        | (Inr known, s') \<Rightarrow> (Inr (first_seen (concat (map (selected known) patterns))), s'))"
  by (rule resolve_expand [OF assms])

theorem ResolveClusterPatterns_expand_witness:
  defines "known \<equiv> [\<lparr>cKubeconfigName = ''p'', cContext = ''a'', cNamespace = ''n'', cName = ''x'',
              cCustomFields = []\<rparr>,
            \<lparr>cKubeconfigName = ''q'', cContext = ''a'', cNamespace = ''n'', cName = ''y'',
              cCustomFields = []\<rparr>]"
  shows "fst (run (ResolveClusterPatterns [''z/a/n/w'', ''p'', ''p/a'']
            (act (\<lambda>n::nat. (Inr known, Suc n))) False) 0) = Inr [''z/a/n/w'', ''p/a/n/x'']
     \<and> snd (run (ResolveClusterPatterns [''z/a/n/w'', ''p'', ''p/a'']
            (act (\<lambda>n::nat. (Inr known, Suc n))) False) 0) = 1"
proof -
  have v: "\<forall>p\<in>set [''z/a/n/w'', ''p'', ''p/a'']. valid_pattern p"
    by (simp add: valid_pattern_def slash_def)
  show ?thesis
    unfolding ResolveClusterPatterns_expand [OF v] known_def
    by (simp add: exact_path_def selected_def slash_def path_def FormatTarget_def first_seen_def)
qed

text \<open>
  An ill-formed pattern anywhere fails the whole non-strict call before any lookup, and
  otherwise the known clusters are looked up at most once: resolution is either a value or one
  run of the lookup followed by a pure function of its answer.
\<close>

theorem ResolveClusterPatterns_lookup_at_most_once:
  "(if list_all valid_pattern patterns then
      list_all exact_path patterns
        \<and> ResolveClusterPatterns patterns listKnown False = Ret (Inr (first_seen patterns))
      \<or> (\<exists>f. ResolveClusterPatterns patterns listKnown False
            = try_proc listKnown (\<lambda>known. Ret (Inr (f known))))
    else (\<exists>e. ResolveClusterPatterns patterns listKnown False = Ret (Inl e)))"
proof (cases "\<forall>p\<in>set patterns. valid_pattern p")
  case True
  then have parsed: "parse_patterns patterns = Inr (map (pattern_of_parts \<circ> Split slash) patterns)"
    by (simp add: parse_patterns_Inr)
  have exact: "list_ex (\<lambda>p. \<not> IsExact p) (map (pattern_of_parts \<circ> Split slash) patterns)
      \<longleftrightarrow> \<not> (\<forall>p\<in>set patterns. exact_path p)"
    using True by (auto simp: list_ex_iff IsExact_parts)
  show ?thesis
    using True unfolding ResolveClusterPatterns_def parsed
    by (auto simp: list_all_iff exact collect_matches_concat [OF True] dedup_into_first_seen concat_selected_exact)
next
  case False
  then obtain e where "parse_patterns patterns = Inl e" using parse_patterns_Inl by blast
  with False show ?thesis by (auto simp: list_all_iff ResolveClusterPatterns_def)
qed

text \<open>
  The two modes differ on empty segments. Strict resolution checks the number of segments
  only: a four-segment path with an empty segment, which names no single cluster and which
  non-strict resolution rejects, is accepted as it is.
\<close>

theorem strict_accepts_empty_segment:
  assumes "slash_free c" and "[] \<in> set (path c)"
  shows "ResolveClusterPatterns [FormatTarget c] listKnown True = Ret (Inr [FormatTarget c])
     \<and> (\<exists>e. ResolveClusterPatterns [FormatTarget c] listKnown False = Ret (Inl e))"
proof
  have sp: "Split slash (FormatTarget c) = path c" by (rule Split_Format [OF assms(1)])
  show "ResolveClusterPatterns [FormatTarget c] listKnown True = Ret (Inr [FormatTarget c])"
    by (simp add: ResolveClusterPatterns_def check_strict_find exact_path_def sp
          dedupePreserveOrder_def dedup_into_first_seen first_seen_def) (simp add: path_def)
  have "\<not> valid_pattern (FormatTarget c)" using assms(2) by (simp add: valid_pattern_def sp)
  then obtain e where "ParseTargetPattern (FormatTarget c) = Inl e"
    using ParseTargetPattern_Inl by blast
  then show "\<exists>e. ResolveClusterPatterns [FormatTarget c] listKnown False = Ret (Inl e)"
    by (simp add: ResolveClusterPatterns_def)
qed

theorem strict_accepts_empty_segment_witness:
  "ResolveClusterPatterns [''prod//ns/c1''] (Ret (Inr []) :: (_, unit) proc) True
     = Ret (Inr [''prod//ns/c1''])"
  using strict_accepts_empty_segment
    [of "\<lparr>cKubeconfigName = ''prod'', cContext = [], cNamespace = ''ns'', cName = ''c1'',
          cCustomFields = []\<rparr>" "Ret (Inr []) :: (_, unit) proc"]
  by (simp add: slash_free_def path_def slash_def FormatTarget_def)

end
