(* ===== verification/PatternOrder.thy ===== *)
theory PatternOrder
  imports Targets
begin

text \<open>
  How the patterns of \<open>capi/target_pattern.go\<close> compare: \<open>TargetPattern\<close> as an instance of the
  class \<open>order\<close>, a pattern below another when each of its fields is the other's or the other's is a
  wildcard. The order is the inclusion of what the patterns select, on the written patterns it is
  the prefix order of their paths turned around, and the exact patterns are its minimal elements.
\<close>

section \<open>The order\<close>

definition within_field :: "string \<Rightarrow> string \<Rightarrow> bool" where
  "within_field f g = (g = [] \<or> f = g)"

instantiation TargetPattern_ext :: (order) order
begin

definition less_eq_TargetPattern_ext :: "'a TargetPattern_scheme \<Rightarrow> 'a TargetPattern_scheme \<Rightarrow> bool" where
  "less_eq_TargetPattern_ext p q =
     (pKubeconfigName p = pKubeconfigName q \<and> within_field (pContext p) (pContext q)
      \<and> within_field (pNamespace p) (pNamespace q) \<and> within_field (pName p) (pName q)
      \<and> TargetPattern.more p \<le> TargetPattern.more q)"

definition less_TargetPattern_ext :: "'a TargetPattern_scheme \<Rightarrow> 'a TargetPattern_scheme \<Rightarrow> bool" where
  "less_TargetPattern_ext p q = (p \<le> q \<and> \<not> q \<le> p)"

instance
  by standard (auto simp: less_eq_TargetPattern_ext_def less_TargetPattern_ext_def within_field_def)

end

lemma pattern_le:
  fixes p q :: TargetPattern
  shows "p \<le> q \<longleftrightarrow> pKubeconfigName p = pKubeconfigName q \<and> within_field (pContext p) (pContext q)
    \<and> within_field (pNamespace p) (pNamespace q) \<and> within_field (pName p) (pName q)"
  by (simp add: less_eq_TargetPattern_ext_def)

section \<open>What it decides\<close>

lemma Matches_fields:
  "Matches p c \<longleftrightarrow> cKubeconfigName c = pKubeconfigName p \<and> within_field (cContext c) (pContext p)
    \<and> within_field (cNamespace c) (pNamespace p) \<and> within_field (cName c) (pName p)"
  by (simp add: Matches_def within_field_def)

lemma within_field_trans: "within_field f g \<Longrightarrow> within_field g h \<Longrightarrow> within_field f h"
  by (auto simp: within_field_def)

text \<open>A value of a field that a pattern admits, and another only if it is as wide there.\<close>

definition probe :: "string \<Rightarrow> string \<Rightarrow> string" where
  "probe f g = (if f = [] then CHR ''x'' # g else f)"

lemma probe_within: "within_field (probe f g) f" "within_field (probe f g) g \<longleftrightarrow> within_field f g"
  by (auto simp: probe_def within_field_def)

lemma order_is_inclusion:
  fixes p q :: TargetPattern
  shows "p \<le> q \<longleftrightarrow> (\<forall>c. Matches p c \<longrightarrow> Matches q c)"
proof
  assume "p \<le> q"
  then show "\<forall>c. Matches p c \<longrightarrow> Matches q c"
    by (auto simp: pattern_le Matches_fields intro: within_field_trans)
next
  assume all: "\<forall>c. Matches p c \<longrightarrow> Matches q c"
  let ?c = "\<lparr>cKubeconfigName = pKubeconfigName p, cContext = probe (pContext p) (pContext q),
    cNamespace = probe (pNamespace p) (pNamespace q), cName = probe (pName p) (pName q), cCustomFields = []\<rparr>"
  have "Matches p ?c" by (simp add: Matches_fields probe_within)
  with all have "Matches q ?c" by blast
  then show "p \<le> q" by (simp add: Matches_fields pattern_le probe_within)
qed

lemma order_is_expansion:
  fixes p q :: TargetPattern
  shows "p \<le> q \<longleftrightarrow> (\<forall>known. subseq (ExpandTargetPattern p known) (ExpandTargetPattern q known))"
proof
  assume "p \<le> q"
  then have "filter (Matches p) known = filter (Matches p) (filter (Matches q) known)" for known
    unfolding order_is_inclusion by (auto intro: filter_cong)
  then show "\<forall>known. subseq (ExpandTargetPattern p known) (ExpandTargetPattern q known)"
    unfolding ExpandTargetPattern_filter by (metis subseq_filter_left subseq_map)
next
  assume sub: "\<forall>known. subseq (ExpandTargetPattern p known) (ExpandTargetPattern q known)"
  have "Matches q c" if "Matches p c" for c
    using sub [rule_format, of "[c]"] that by (auto split: if_splits)
  then show "p \<le> q" by (simp add: order_is_inclusion)
qed

lemma exact_is_minimal:
  fixes p :: TargetPattern
  shows "IsExact p \<longleftrightarrow> (\<forall>r. r \<le> p \<longrightarrow> r = p)"
proof
  assume "IsExact p"
  then show "\<forall>r. r \<le> p \<longrightarrow> r = p"
    by (auto simp: IsExact_def pattern_le within_field_def)
next
  assume min: "\<forall>r. r \<le> p \<longrightarrow> r = p"
  let ?r = "p\<lparr>pContext := probe (pContext p) [], pNamespace := probe (pNamespace p) [], pName := probe (pName p) []\<rparr>"
  have "?r \<le> p" by (simp add: pattern_le probe_within)
  with min have r: "?r = p" by blast
  have "pContext ?r \<noteq> [] \<and> pNamespace ?r \<noteq> [] \<and> pName ?r \<noteq> []" by (simp add: probe_def)
  then show "IsExact p" unfolding r IsExact_def by simp
qed

lemma parts_order:
  assumes "length ps \<le> 4" "ps \<noteq> []" "[] \<notin> set ps" and "length qs \<le> 4" "qs \<noteq> []" "[] \<notin> set qs"
  shows "pattern_of_parts ps \<le> pattern_of_parts qs \<longleftrightarrow> prefix qs ps"
  by (rule parts_cases [OF assms(1,2)]; rule parts_cases [OF assms(4,5)])
    (use assms(3,6) in \<open>auto simp: pattern_of_parts_def pattern_le within_field_def\<close>)

lemma parsed_order:
  assumes "valid_pattern s" and "valid_pattern t"
  shows "pattern_of_parts (Split slash s) \<le> pattern_of_parts (Split slash t)
    \<longleftrightarrow> prefix (Split slash t) (Split slash s)"
  using parts_order [of "Split slash s" "Split slash t"] assms
  by (simp add: valid_pattern_def Split_not_Nil)

text \<open>
  C32. The patterns of a call form an order that has three readings. One accepted pattern is below
  another exactly when the segments of the other are a prefix of its own; exactly when, whatever
  clusters are known, its expansion is contained in the other's, in the same order; and the exact
  patterns are the minimal ones. So writing fewer segments never loses a target, and two patterns
  select the same only if they are the same.
\<close>

theorem pattern_order:
  assumes "ParseTargetPattern s = Inr p" and "ParseTargetPattern t = Inr q"
  shows "(p \<le> q \<longleftrightarrow> prefix (Split slash t) (Split slash s))
    \<and> (p \<le> q \<longleftrightarrow> (\<forall>known. subseq (ExpandTargetPattern p known) (ExpandTargetPattern q known)))
    \<and> (IsExact p \<longleftrightarrow> (\<forall>r. r \<le> p \<longrightarrow> r = p))
    \<and> ((\<forall>known. ExpandTargetPattern p known = ExpandTargetPattern q known) \<longrightarrow> s = t)"
proof -
  have s: "valid_pattern s" "p = pattern_of_parts (Split slash s)"
    and t: "valid_pattern t" "q = pattern_of_parts (Split slash t)"
    using assms by (simp_all add: ParseTargetPattern_Inr)
  have le: "p \<le> q \<longleftrightarrow> prefix (Split slash t) (Split slash s)"
    and ge: "q \<le> p \<longleftrightarrow> prefix (Split slash s) (Split slash t)"
    using parsed_order s t by simp_all
  have "s = t" if same: "\<forall>known. ExpandTargetPattern p known = ExpandTargetPattern q known"
  proof -
    have "p \<le> q" "q \<le> p" using same by (simp_all add: order_is_expansion)
    with le ge have "Split slash s = Split slash t" by (simp add: prefix_order.antisym)
    then show ?thesis by (metis Join_Split)
  qed
  with le order_is_expansion [of p q] exact_is_minimal [of p] show ?thesis by blast
qed

theorem pattern_order_witness:
  "\<exists>p q. ParseTargetPattern ''prod/x'' = Inr p \<and> ParseTargetPattern ''prod'' = Inr q \<and> p \<le> q
    \<and> (\<forall>known. subseq (ExpandTargetPattern p known) (ExpandTargetPattern q known)) \<and> \<not> IsExact p"
proof -
  let ?p = "pattern_of_parts [''prod'', ''x'']" and ?q = "pattern_of_parts [''prod'']"
  have parse: "ParseTargetPattern ''prod/x'' = Inr ?p" "ParseTargetPattern ''prod'' = Inr ?q"
    by (simp_all add: ParseTargetPattern_def slash_def)
  moreover from pattern_order [OF this] have "?p \<le> ?q"
    and "\<forall>known. subseq (ExpandTargetPattern ?p known) (ExpandTargetPattern ?q known)"
    by (auto simp: slash_def)
  moreover have "\<not> IsExact ?p" by (simp add: IsExact_def pattern_of_parts_def)
  ultimately show ?thesis by blast
qed

end
