(* ===== verification/GoTime.thy ===== *)
theory GoTime
  imports GoBase "HOL-Library.Signed_Division"
begin

text \<open>
  \<open>time.Duration\<close>: 64-bit counts of nanoseconds, \<open>time.Duration(n) * time.Second\<close> with its
  wrap-around, and \<open>int(d.Seconds())\<close>, which goes through a \<open>float64\<close>. Finite floats are
  rationals; \<open>fl\<close> rounds to 53 significant bits, half to even, as every float operation does
  (no duration comes near the exponent limits).

  The lemmas: within 292 years either way the product is exact and the conversion to seconds
  undoes it.
\<close>

section \<open>Floats\<close>

definition trunc :: "rat \<Rightarrow> int" where
  "trunc q = (if q < 0 then \<lceil>q\<rceil> else \<lfloor>q\<rfloor>)"

definition round_half_even :: "rat \<Rightarrow> int" where
  "round_half_even x =
     (let f = \<lfloor>x\<rfloor>; d = x - of_int f in
      if d < 1/2 then f else if d > 1/2 then f + 1 else if even f then f else f + 1)"

text \<open>The power of two a positive rational starts with: \<open>2^e \<le> q < 2^(e+1)\<close>.\<close>

function expo_up :: "rat \<Rightarrow> nat" where
  "expo_up q = (if q < 2 then 0 else Suc (expo_up (q / 2)))"
  by pat_completeness auto
termination
proof (relation "measure (\<lambda>q. nat \<lfloor>q\<rfloor>)", simp)
  fix q :: rat assume "\<not> q < 2"
  then have "\<lfloor>q / 2\<rfloor> < \<lfloor>q\<rfloor>" and "0 < \<lfloor>q\<rfloor>" by linarith+
  then show "(q / 2, q) \<in> measure (\<lambda>q. nat \<lfloor>q\<rfloor>)" by simp
qed

function expo_down :: "rat \<Rightarrow> nat" where
  "expo_down q = (if 1 \<le> q \<or> q \<le> 0 then 0 else Suc (expo_down (2 * q)))"
  by pat_completeness auto
termination
proof (relation "measure (\<lambda>q. nat \<lfloor>1 / q\<rfloor>)", simp)
  fix q :: rat assume q: "\<not> (1 \<le> q \<or> q \<le> 0)"
  define r where "r = 1 / q"
  have "1 < r" using q by (simp add: r_def)
  then have pos: "1 \<le> \<lfloor>r\<rfloor>" by simp
  have "\<lfloor>r / 2\<rfloor> < \<lfloor>r\<rfloor>"
  proof (rule ccontr)
    assume "\<not> ?thesis"
    then have "of_int \<lfloor>r\<rfloor> \<le> r / 2" by linarith
    with pos show False by linarith
  qed
  with pos have "nat \<lfloor>r / 2\<rfloor> < nat \<lfloor>r\<rfloor>" by simp
  moreover have "1 / (2 * q) = r / 2" by (simp add: r_def)
  ultimately have "nat \<lfloor>1 / (2 * q)\<rfloor> < nat \<lfloor>1 / q\<rfloor>" by (simp only: r_def)
  then show "(2 * q, q) \<in> measure (\<lambda>q. nat \<lfloor>1 / q\<rfloor>)" by (simp only: in_measure)
qed

declare expo_up.simps [simp del] expo_down.simps [simp del]

definition ulp :: "rat \<Rightarrow> rat" where
  "ulp q = (if 1 \<le> q then 2 ^ expo_up q else 1 / 2 ^ expo_down q) / 2 ^ 52"

definition fl :: "rat \<Rightarrow> rat" where
  "fl q = (if q = 0 then 0 else of_int (round_half_even (q / ulp \<bar>q\<bar>)) * ulp \<bar>q\<bar>)"

lemma round_half_even_of_int [simp]: "round_half_even (of_int i) = i"
  by (simp add: round_half_even_def)

lemma trunc_of_int [simp]: "trunc (of_int i) = i"
  by (simp add: trunc_def)

lemma expo_up_bound: "1 \<le> q \<Longrightarrow> 2 ^ expo_up q \<le> q"
proof (induction q rule: expo_up.induct)
  case (1 q)
  show ?case
  proof (cases "q < 2")
    case True
    with 1 show ?thesis by (simp add: expo_up.simps [of q])
  next
    case False
    with 1 have "2 ^ expo_up (q / 2) \<le> q / 2" by simp
    with False show ?thesis by (simp add: expo_up.simps [of q])
  qed
qed

lemma fl_of_int:
  assumes "\<bar>i\<bar> < 2 ^ 53"
  shows "fl (of_int i) = of_int i"
proof (cases "i = 0")
  case False
  define e where "e = expo_up \<bar>of_int i\<bar>"
  have i1: "(1::rat) \<le> \<bar>of_int i\<bar>" using False by (simp flip: of_int_abs)
  have "(2::rat) ^ e \<le> \<bar>of_int i\<bar>" unfolding e_def by (rule expo_up_bound [OF i1])
  also have "\<dots> < 2 ^ 53"
    using assms by (metis (mono_tags) of_int_abs of_int_less_iff of_int_numeral of_int_power)
  finally have "e < 53" by (rule power_less_imp_less_exp [rotated]) simp
  then obtain k where "52 = e + k" by (auto simp: less_Suc_eq_le numeral_eq_Suc le_iff_add)
  then have two: "(2::rat) ^ 52 = 2 ^ e * 2 ^ k" by (simp only: power_add)
  have u: "ulp \<bar>of_int i\<bar> = 1 / 2 ^ k"
    using i1 by (simp only: ulp_def if_True two flip: e_def) simp
  have q: "of_int i / ulp \<bar>of_int i\<bar> = of_int (i * 2 ^ k)" by (simp add: u)
  have "fl (of_int i) = of_int (i * 2 ^ k) * ulp \<bar>of_int i\<bar>"
    using False by (simp only: fl_def q round_half_even_of_int) simp
  also have "\<dots> = of_int i" by (simp add: u)
  finally show ?thesis .
qed (simp add: fl_def)

section \<open>Durations\<close>

definition Seconds :: "duration \<Rightarrow> rat" where
  "Seconds d =
     fl (fl (of_int (sint d sdiv 1000000000))
         + fl (fl (of_int (sint d smod 1000000000)) / 1000000000))"

text \<open>\<open>int(d.Seconds())\<close>.\<close>

definition IntSeconds :: "duration \<Rightarrow> int64" where
  "IntSeconds d = word_of_int (trunc (Seconds d))"

lemma sint_seconds:
  assumes "\<bar>sint n\<bar> \<le> 9223372036"
  shows "sint (seconds n) = sint n * 1000000000"
proof -
  have "sint (seconds n) = signed_take_bit 63 (sint n * 1000000000)"
    by (simp add: seconds_def Second_def sint_word_ariths)
  also have "\<dots> = sint n * 1000000000"
    using assms by (intro signed_take_bit_int_eq_self) auto
  finally show ?thesis .
qed

lemma IntSeconds_seconds:
  assumes "\<bar>sint n\<bar> \<le> 9223372036"
  shows "IntSeconds (seconds n) = n"
proof -
  have d: "sint n * 1000000000 sdiv 1000000000 = sint n"
    by (cases "sint n" "0 :: int" rule: linorder_cases)
      (simp_all add: signed_divide_int_def sgn_mult abs_mult)
  have m: "sint n * 1000000000 smod 1000000000 = 0"
    by (simp add: signed_modulo_int_def d)
  have "fl (of_int (sint n)) = of_int (sint n)"
    using assms by (intro fl_of_int) simp
  then have "Seconds (seconds n) = of_int (sint n)"
    by (simp add: Seconds_def sint_seconds [OF assms] d m) (simp add: fl_def)
  then have "trunc (Seconds (seconds n)) = sint n" by (simp only: trunc_of_int)
  then show ?thesis by (simp add: IntSeconds_def)
qed

end
