(* ===== verification/Config.thy ===== *)
theory Config
  imports GoTime
begin

text \<open>
  \<open>internal/config/config.go\<close>: reading the YAML configuration.

  \<open>gopkg.in/yaml.v3\<close> is not in the repository: what it decodes a document to is the type
  \<open>yaml\<close>, and the decoder, the file system, the environment and the home directory are
  arguments. A Go map is the list of its entries in the order a \<open>range\<close> visits them. On a
  float that does not fit, Go leaves \<open>int(f)\<close> to the platform: the argument \<open>arch\<close>.

  The lemmas: environment references are expanded once, left to right, as the regular
  expression reads them; loading succeeds exactly for a readable document whose kubeconfigs
  all have the required shape, and yields the same configuration in every map order.
\<close>

section \<open>Data\<close>

datatype float64 = Finite rat | NaN | Infinite bool

datatype yaml =
    YNull | YBool bool | YInt int64 | YInt64 int64 | YFloat float64 | YString string
  | YList "yaml list" | YMap "(string \<times> yaml) list" | YOther

record KubeconfigTransforms =
  tClusters :: string
  tContexts :: string
  tUsers :: string

record KubeconfigSource =
  srcName :: string
  srcPath :: string
  srcContexts :: "string list"
  srcSshuttleHost :: string

record CacheConfig =
  ClusterListTTLSeconds :: int64
  KubeconfigTTLSeconds :: int64

record AppConfig =
  Kubeconfigs :: "(string \<times> KubeconfigSource) list"
  Transforms :: "KubeconfigTransforms option"
  CustomFields :: "(string \<times> string) list"
  cfgSshuttleHost :: string
  CacheCfg :: CacheConfig

definition defaultClusterListTTLSeconds :: int64 where
  "defaultClusterListTTLSeconds = 300"

definition defaultKubeconfigTTLSeconds :: int64 where
  "defaultKubeconfigTTLSeconds = 3600"

section \<open>Environment references\<close>

text \<open>
  The matches of \<open>\$\{([^}]+)\}|\$([A-Za-z_][A-Za-z0-9_]*)\<close> after the dollar sign: the name
  and what follows the match.
\<close>

definition name_start :: "char \<Rightarrow> bool" where
  "name_start c = (CHR ''A'' \<le> c \<and> c \<le> CHR ''Z'' \<or> CHR ''a'' \<le> c \<and> c \<le> CHR ''z'' \<or> c = CHR ''_'')"

definition name_char :: "char \<Rightarrow> bool" where
  "name_char c = (name_start c \<or> CHR ''0'' \<le> c \<and> c \<le> CHR ''9'')"

definition not_brace :: "char \<Rightarrow> bool" where
  "not_brace c = (c \<noteq> CHR ''}'')"

fun envVarMatch :: "string \<Rightarrow> (string \<times> string) option" where
  "envVarMatch [] = None"
| "envVarMatch (c # s) =
     (if c = CHR ''{'' \<and> takeWhile not_brace s \<noteq> [] \<and> dropWhile not_brace s \<noteq> []
      then Some (takeWhile not_brace s, tl (dropWhile not_brace s))
      else if name_start c then Some (c # takeWhile name_char s, dropWhile name_char s)
      else None)"

lemma envVarMatch_shorter:
  assumes "envVarMatch s = Some (name, rest)"
  shows "length rest < length s"
proof (cases s)
  case (Cons c t)
  have "length (tl (dropWhile not_brace t)) \<le> length t"
    using length_dropWhile_le [of not_brace t] by simp
  then show ?thesis
    using assms Cons length_dropWhile_le [of name_char t] by (auto split: if_splits)
qed (use assms in simp)

function expandEnv :: "(string \<Rightarrow> string) \<Rightarrow> string \<Rightarrow> string" where
  "expandEnv getenv [] = []"
| "expandEnv getenv (c # s) =
     (if c = CHR ''$'' then
        (case envVarMatch s of
           Some (name, rest) \<Rightarrow> getenv name @ expandEnv getenv rest
         | None \<Rightarrow> c # expandEnv getenv s)
      else c # expandEnv getenv s)"
  by pat_completeness auto
termination
  by (relation "measure (\<lambda>(_, s). length s)") (auto dest: envVarMatch_shorter)

section \<open>Reading values\<close>

text \<open>\<open>m[k]\<close> on a map with dynamic values, and the type assertions.\<close>

definition ylookup :: "(string \<times> yaml) list \<Rightarrow> string \<Rightarrow> yaml" where
  "ylookup m k = (case map_of m k of None \<Rightarrow> YNull | Some v \<Rightarrow> v)"

fun as_map :: "yaml \<Rightarrow> (string \<times> yaml) list option" where
  "as_map (YMap m) = Some m"
| "as_map _ = None"

fun as_string :: "yaml \<Rightarrow> string option" where
  "as_string (YString s) = Some s"
| "as_string _ = None"

definition float_to_int :: "(float64 \<Rightarrow> int64) \<Rightarrow> float64 \<Rightarrow> int64" where
  "float_to_int arch f =
     (case f of
        Finite q \<Rightarrow>
          if - (2 ^ 63) \<le> trunc q \<and> trunc q < 2 ^ 63 then word_of_int (trunc q) else arch f
      | _ \<Rightarrow> arch f)"

fun toInt :: "(float64 \<Rightarrow> int64) \<Rightarrow> yaml \<Rightarrow> int64 option" where
  "toInt arch (YInt n) = Some n"
| "toInt arch (YInt64 n) = Some n"
| "toInt arch (YFloat f) = Some (float_to_int arch f)"
| "toInt arch _ = None"

definition parseTransforms :: "yaml \<Rightarrow> KubeconfigTransforms option" where
  "parseTransforms raw =
     (case as_map raw of
        None \<Rightarrow> None
      | Some obj \<Rightarrow>
          let r0 = \<lparr>tClusters = [], tContexts = [], tUsers = []\<rparr>;
              (r1, f1) = (case as_string (ylookup obj ''clusters'') of
                 Some s \<Rightarrow> (r0\<lparr>tClusters := s\<rparr>, True) | None \<Rightarrow> (r0, False));
              (r2, f2) = (case as_string (ylookup obj ''contexts'') of
                 Some s \<Rightarrow> (r1\<lparr>tContexts := s\<rparr>, True) | None \<Rightarrow> (r1, f1));
              (r3, f3) = (case as_string (ylookup obj ''users'') of
                 Some s \<Rightarrow> (r2\<lparr>tUsers := s\<rparr>, True) | None \<Rightarrow> (r2, f2))
          in if \<not> f3 then None else Some r3)"

fun strings_of :: "yaml list \<Rightarrow> string list" where
  "strings_of [] = []"
| "strings_of (v # vs) =
     (case as_string v of Some s \<Rightarrow> s # strings_of vs | None \<Rightarrow> strings_of vs)"

fun parseContexts :: "yaml \<Rightarrow> string list" where
  "parseContexts (YList xs) = strings_of xs"
| "parseContexts _ = []"

fun string_entries :: "(string \<times> yaml) list \<Rightarrow> (string \<times> string) list" where
  "string_entries [] = []"
| "string_entries ((k, v) # m) =
     (case as_string v of Some s \<Rightarrow> (k, s) # string_entries m | None \<Rightarrow> string_entries m)"

definition parseCustomFields :: "yaml \<Rightarrow> (string \<times> string) list" where
  "parseCustomFields raw = (case as_map raw of None \<Rightarrow> [] | Some obj \<Rightarrow> string_entries obj)"

definition readSshuttleHost :: "(string \<Rightarrow> string) \<Rightarrow> (string \<times> yaml) list \<Rightarrow> string" where
  "readSshuttleHost getenv raw =
     (case as_map (ylookup raw ''plugins'') of None \<Rightarrow> [] | Some plugins \<Rightarrow>
      (case as_map (ylookup plugins ''api-endpoint-proxy'') of None \<Rightarrow> [] | Some proxyPlugin \<Rightarrow>
       (case as_map (ylookup proxyPlugin ''sshuttle'') of None \<Rightarrow> [] | Some sshuttle \<Rightarrow>
        (case as_string (ylookup sshuttle ''host'') of None \<Rightarrow> [] | Some host \<Rightarrow>
           expandEnv getenv host))))"

section \<open>Loading\<close>

fun load_kubeconfigs ::
  "(string \<Rightarrow> string) \<Rightarrow> (string \<times> KubeconfigSource) list \<Rightarrow> (string \<times> yaml) list
    \<Rightarrow> error + (string \<times> KubeconfigSource) list" where
  "load_kubeconfigs getenv acc [] = Inr acc"
| "load_kubeconfigs getenv acc ((name, v) # rest) =
     (case as_map v of
        None \<Rightarrow> Inl (Errorf [Txt (''config: kubeconfigs.'' @ name @ '' must be an object'')])
      | Some entry \<Rightarrow>
        (case as_string (ylookup entry ''path'') of
           None \<Rightarrow> Inl (Errorf [Txt (''config: kubeconfigs.'' @ name @ ''.path must be a string'')])
         | Some path \<Rightarrow>
             load_kubeconfigs getenv
               (AList.update name
                  \<lparr>srcName = name, srcPath = expandEnv getenv path,
                   srcContexts = parseContexts (ylookup entry ''contexts''),
                   srcSshuttleHost = readSshuttleHost getenv entry\<rparr> acc)
               rest))"

definition load_cache :: "(float64 \<Rightarrow> int64) \<Rightarrow> (string \<times> yaml) list \<Rightarrow> CacheConfig" where
  "load_cache arch raw =
     (let c0 = \<lparr>ClusterListTTLSeconds = defaultClusterListTTLSeconds,
                KubeconfigTTLSeconds = defaultKubeconfigTTLSeconds\<rparr>
      in case as_map (ylookup raw ''cache'') of
           None \<Rightarrow> c0
         | Some rawCache \<Rightarrow>
           let c1 = (case toInt arch (ylookup rawCache ''cluster_list_ttl'') of
                 Some v \<Rightarrow> c0\<lparr>ClusterListTTLSeconds := v\<rparr> | None \<Rightarrow> c0)
           in (case toInt arch (ylookup rawCache ''kubeconfig_ttl'') of
                 Some v \<Rightarrow> c1\<lparr>KubeconfigTTLSeconds := v\<rparr> | None \<Rightarrow> c1))"

definition LoadConfig ::
  "(string \<Rightarrow> string) \<Rightarrow> (float64 \<Rightarrow> int64) \<Rightarrow> (string \<Rightarrow> error + string)
    \<Rightarrow> (string \<Rightarrow> error + (string \<times> yaml) list) \<Rightarrow> string \<Rightarrow> error + AppConfig" where
  "LoadConfig getenv arch readFile unmarshal path =
     (case readFile path of
        Inl e \<Rightarrow> Inl (Errorf [Txt (''config: reading '' @ path @ '': ''), Wrp e])
      | Inr data \<Rightarrow>
        (case unmarshal data of
           Inl e \<Rightarrow> Inl (Errorf [Txt (''config: parsing '' @ path @ '': ''), Wrp e])
         | Inr raw \<Rightarrow>
           (case as_map (ylookup raw ''kubeconfigs'') of
              None \<Rightarrow>
                Inl (Errorf [Txt ''config: kubeconfigs must be a non-empty map of name to config''])
            | Some rawKubeconfigs \<Rightarrow>
                if rawKubeconfigs = [] then
                  Inl (Errorf [Txt ''config: kubeconfigs must be a non-empty map of name to config''])
                else
                  (case load_kubeconfigs getenv [] rawKubeconfigs of
                     Inl e \<Rightarrow> Inl e
                   | Inr kubeconfigs \<Rightarrow> Inr
                       \<lparr>Kubeconfigs = kubeconfigs,
                        Transforms = parseTransforms (ylookup raw ''transforms''),
                        CustomFields = parseCustomFields (ylookup raw ''custom_fields''),
                        cfgSshuttleHost = readSshuttleHost getenv raw,
                        CacheCfg = load_cache arch raw\<rparr>))))"

definition configPath :: "(string \<Rightarrow> string) \<Rightarrow> error + string \<Rightarrow> error + string" where
  "configPath getenv userHomeDir =
     (if getenv ''CAPI_SHELL_MCP_CONFIG'' \<noteq> [] then Inr (getenv ''CAPI_SHELL_MCP_CONFIG'')
      else case userHomeDir of
          Inl e \<Rightarrow> Inl (Errorf [Txt ''config: resolving home directory: '', Wrp e])
        | Inr home \<Rightarrow> Inr (filepath_Join [home, ''.config'', ''capi-shell'', ''config.yaml'']))"

definition Load ::
  "(string \<Rightarrow> string) \<Rightarrow> error + string \<Rightarrow> (float64 \<Rightarrow> int64) \<Rightarrow> (string \<Rightarrow> error + string)
    \<Rightarrow> (string \<Rightarrow> error + (string \<times> yaml) list) \<Rightarrow> error + AppConfig" where
  "Load getenv userHomeDir arch readFile unmarshal =
     (case configPath getenv userHomeDir of
        Inl e \<Rightarrow> Inl e
      | Inr path \<Rightarrow> LoadConfig getenv arch readFile unmarshal path)"

section \<open>Expansion of templates\<close>

text \<open>A string with references, taken apart, and when the pieces can be told apart again.\<close>

datatype piece = Plain string | Braced string | Bare string

fun print_piece :: "piece \<Rightarrow> string" where
  "print_piece (Plain s) = s"
| "print_piece (Braced n) = ''${'' @ n @ ''}''"
| "print_piece (Bare n) = ''$'' @ n"

fun piece_value :: "(string \<Rightarrow> string) \<Rightarrow> piece \<Rightarrow> string" where
  "piece_value getenv (Plain s) = s"
| "piece_value getenv (Braced n) = getenv n"
| "piece_value getenv (Bare n) = getenv n"

definition print_template :: "piece list \<Rightarrow> string" where
  "print_template ts = concat (map print_piece ts)"

fun is_name :: "string \<Rightarrow> bool" where
  "is_name [] = False"
| "is_name (c # s) = (name_start c \<and> list_all name_char s)"

fun well_formed :: "piece list \<Rightarrow> bool" where
  "well_formed [] = True"
| "well_formed (Plain s # ts) = (\<not> List.member s CHR ''$'' \<and> well_formed ts)"
| "well_formed (Braced n # ts) = (n \<noteq> [] \<and> list_all not_brace n \<and> well_formed ts)"
| "well_formed (Bare n # ts) =
     (is_name n \<and> (case print_template ts of [] \<Rightarrow> True | c # _ \<Rightarrow> \<not> name_char c)
       \<and> well_formed ts)"

lemma expandEnv_plain: "CHR ''$'' \<notin> set s \<Longrightarrow> expandEnv getenv (s @ t) = s @ expandEnv getenv t"
  by (induction s) auto

lemma envVarMatch_braced:
  "n \<noteq> [] \<Longrightarrow> list_all not_brace n \<Longrightarrow> envVarMatch (CHR ''{'' # n @ CHR ''}'' # r) = Some (n, r)"
  by (auto simp: list_all_iff takeWhile_append dropWhile_append not_brace_def)

lemma name_start_not_brace: "name_start c \<Longrightarrow> c \<noteq> CHR ''{''"
  by (auto simp: name_start_def)

lemma envVarMatch_bare:
  assumes "is_name n" and "case r of [] \<Rightarrow> True | c # _ \<Rightarrow> \<not> name_char c"
  shows "envVarMatch (n @ r) = Some (n, r)"
proof (cases n)
  case (Cons c s)
  with assms(1) have s: "name_start c" "\<forall>x\<in>set s. name_char x" by (auto simp: list_all_iff)
  have "takeWhile name_char (s @ r) = s" "dropWhile name_char (s @ r) = r"
    using s(2) assms(2) by (auto simp: takeWhile_append dropWhile_append split: list.splits)
  with Cons s(1) show ?thesis by (auto dest: name_start_not_brace)
qed (use assms in simp)

text \<open>
  C24. Environment expansion substitutes every reference of a template, braced or bare, by the
  variable's value, leaves everything else as it is, and never expands what it inserted.
\<close>

theorem expandEnv_template:
  assumes "well_formed ts"
  shows "expandEnv getenv (print_template ts) = concat (map (piece_value getenv) ts)"
  using assms
proof (induction ts rule: well_formed.induct)
  case 1
  then show ?case by (simp add: print_template_def)
next
  case (2 s ts)
  then show ?case by (simp add: print_template_def expandEnv_plain)
next
  case (3 n ts)
  then show ?case
    by (simp add: print_template_def envVarMatch_braced del: envVarMatch.simps)
next
  case (4 n ts)
  then have "envVarMatch (n @ print_template ts) = Some (n, print_template ts)"
    by (intro envVarMatch_bare) simp_all
  with 4 show ?case by (simp add: print_template_def)
qed

theorem expandEnv_template_witness:
  "expandEnv (\<lambda>n. if n = ''HOME'' then ''/h/$HOME'' else []) ''$HOME/${HOME}x'' = ''/h/$HOME//h/$HOMEx''"
  using expandEnv_template
    [of "[Bare ''HOME'', Plain ''/'', Braced ''HOME'', Plain ''x'']"
        "\<lambda>n. if n = ''HOME'' then ''/h/$HOME'' else []"]
  by (simp add: print_template_def name_start_def name_char_def not_brace_def)

section \<open>What loading yields\<close>

text \<open>The value at a path of nested maps, null where a segment is missing or not a map.\<close>

fun yaml_at :: "yaml \<Rightarrow> string list \<Rightarrow> yaml" where
  "yaml_at v [] = v"
| "yaml_at v (k # ks) =
     (case as_map v of None \<Rightarrow> YNull | Some m \<Rightarrow> yaml_at (ylookup m k) ks)"

lemma yaml_at_null: "as_map v = None \<Longrightarrow> yaml_at v (k # ks) = YNull"
  by simp

lemma readSshuttleHost_at:
  "readSshuttleHost getenv raw =
     (case as_string (yaml_at (YMap raw) [''plugins'', ''api-endpoint-proxy'', ''sshuttle'', ''host'']) of
        None \<Rightarrow> [] | Some host \<Rightarrow> expandEnv getenv host)"
  by (simp add: readSshuttleHost_def split: option.split)

lemma load_cache_at:
  "ClusterListTTLSeconds (load_cache arch raw) =
     (case toInt arch (yaml_at (YMap raw) [''cache'', ''cluster_list_ttl'']) of
        None \<Rightarrow> 300 | Some v \<Rightarrow> v)"
  "KubeconfigTTLSeconds (load_cache arch raw) =
     (case toInt arch (yaml_at (YMap raw) [''cache'', ''kubeconfig_ttl'']) of
        None \<Rightarrow> 3600 | Some v \<Rightarrow> v)"
  by (simp_all add: load_cache_def Let_def defaultClusterListTTLSeconds_def
        defaultKubeconfigTTLSeconds_def split: option.split)

definition entry_ok :: "yaml \<Rightarrow> bool" where
  "entry_ok v = (as_map v \<noteq> None \<and> as_string (yaml_at v [''path'']) \<noteq> None)"

definition source_of :: "(string \<Rightarrow> string) \<Rightarrow> string \<Rightarrow> yaml \<Rightarrow> KubeconfigSource" where
  "source_of getenv name v =
     \<lparr>srcName = name,
      srcPath = (case as_string (yaml_at v [''path'']) of None \<Rightarrow> [] | Some p \<Rightarrow> expandEnv getenv p),
      srcContexts = parseContexts (yaml_at v [''contexts'']),
      srcSshuttleHost = (case as_map v of None \<Rightarrow> [] | Some m \<Rightarrow> readSshuttleHost getenv m)\<rparr>"

text \<open>Names the rest of the program can tell apart in its joined keys: distinct, and without colons.\<close>

definition colon_free :: "string \<Rightarrow> bool" where
  "colon_free s = (CHR '':'' \<notin> set s)"

definition config_ok :: "AppConfig \<Rightarrow> bool" where
  "config_ok cfg =
     (distinct (map fst (Kubeconfigs cfg))
      \<and> list_all (\<lambda>(k, src). srcName src = k \<and> colon_free k) (Kubeconfigs cfg))"

lemma load_kubeconfigs_step:
  assumes "entry_ok v"
  shows "load_kubeconfigs getenv acc ((name, v) # rest) =
     load_kubeconfigs getenv (AList.update name (source_of getenv name v) acc) rest"
  using assms by (auto simp: entry_ok_def source_of_def)

lemma load_kubeconfigs_bad:
  "\<not> entry_ok v \<Longrightarrow> \<exists>e. load_kubeconfigs getenv acc ((name, v) # rest) = Inl e"
  by (auto simp: entry_ok_def split: option.split)

lemma load_kubeconfigs_Inr:
  assumes "list_all (entry_ok \<circ> snd) m" and "distinct (map fst m)" and "distinct (map fst acc)"
  shows "\<exists>ks. load_kubeconfigs getenv acc m = Inr ks \<and> distinct (map fst ks)
     \<and> (\<forall>n. map_of ks n =
         (case map_of m n of None \<Rightarrow> map_of acc n | Some v \<Rightarrow> Some (source_of getenv n v)))"
  using assms
proof (induction m arbitrary: acc)
  case Nil
  then show ?case by simp
next
  case (Cons x m)
  obtain name v where x: "x = (name, v)" by (cases x)
  define acc' where "acc' = AList.update name (source_of getenv name v) acc"
  have "distinct (map fst acc')" using Cons.prems by (simp add: acc'_def distinct_update)
  then obtain ks where ks: "load_kubeconfigs getenv acc' m = Inr ks" "distinct (map fst ks)"
    "\<forall>n. map_of ks n =
       (case map_of m n of None \<Rightarrow> map_of acc' n | Some v \<Rightarrow> Some (source_of getenv n v))"
    using Cons.IH [of acc'] Cons.prems by auto
  have "map_of m name = None" using Cons.prems x by (simp add: map_of_eq_None_iff)
  with ks Cons.prems x show ?case
    by (simp add: load_kubeconfigs_step acc'_def [symmetric] del: load_kubeconfigs.simps)
      (auto simp: acc'_def update_conv' split: option.split)
qed

lemma load_kubeconfigs_all:
  assumes "list_all (entry_ok \<circ> snd) m" and "distinct (map fst m)"
  shows "\<exists>ks. load_kubeconfigs getenv [] m = Inr ks \<and> distinct (map fst ks)
     \<and> (\<forall>n. map_of ks n = map_option (source_of getenv n) (map_of m n))"
proof -
  from load_kubeconfigs_Inr [OF assms, of "[]" getenv]
  obtain ks where "load_kubeconfigs getenv [] m = Inr ks" "distinct (map fst ks)"
    "\<forall>n. map_of ks n =
       (case map_of m n of None \<Rightarrow> map_of [] n | Some v \<Rightarrow> Some (source_of getenv n v))"
    by auto
  then show ?thesis by (intro exI [of _ ks]) (auto split: option.split)
qed

lemma load_kubeconfigs_Inl:
  "\<not> list_all (entry_ok \<circ> snd) m \<Longrightarrow> \<exists>e. load_kubeconfigs getenv acc m = Inl e"
proof (induction m arbitrary: acc)
  case Nil
  then show ?case by simp
next
  case (Cons x m)
  obtain name v where x: "x = (name, v)" by (cases x)
  show ?case
  proof (cases "entry_ok v")
    case True
    with Cons x show ?thesis by (simp add: load_kubeconfigs_step del: load_kubeconfigs.simps)
  next
    case False
    with x show ?thesis using load_kubeconfigs_bad by blast
  qed
qed

lemma loaded_names_ok:
  assumes "distinct (map fst ks)" and "\<forall>n. map_of ks n = map_option (source_of getenv n) (map_of m n)"
    and "distinct (map fst m)"
  shows "(distinct (map fst ks) \<and> list_all (\<lambda>(k, src). srcName src = k \<and> colon_free k) ks)
    \<longleftrightarrow> list_all (\<lambda>x. colon_free (fst x)) m"
proof -
  have ks: "(k, src) \<in> set ks \<longleftrightarrow> (\<exists>v. (k, v) \<in> set m \<and> src = source_of getenv k v)" for k src
    using assms map_of_eq_Some_iff [of ks k src] map_of_eq_Some_iff [of m k] by auto
  show ?thesis
    using assms(1) by (simp add: list_all_iff Ball_def split_paired_All ks) (auto simp: source_of_def)
qed

text \<open>
  C23. Loading a readable document succeeds exactly when its \<open>kubeconfigs\<close> is a non-empty map
  whose every entry is a map with a string path; each name then maps to the source its own
  entry describes, with the path expanded, whatever order the map was visited in. The names are
  as the document has them: the loaded configuration is one whose clusters the caches keep apart
  (\<open>config_ok\<close>) exactly when the document's names have no colon, which is not checked.
\<close>

theorem LoadConfig_kubeconfigs:
  assumes "readFile path = Inr data" and "unmarshal data = Inr raw"
    and "distinct (map fst m)" and "ylookup raw ''kubeconfigs'' = YMap m"
  shows "case LoadConfig getenv arch readFile unmarshal path of
      Inl e \<Rightarrow> m = [] \<or> list_ex (\<lambda>x. \<not> entry_ok (snd x)) m
    | Inr cfg \<Rightarrow> m \<noteq> [] \<and> list_all (\<lambda>x. entry_ok (snd x)) m
        \<and> distinct (map fst (Kubeconfigs cfg))
        \<and> (\<forall>name. map_of (Kubeconfigs cfg) name =
              map_option (source_of getenv name) (map_of m name))
        \<and> (config_ok cfg \<longleftrightarrow> list_all (\<lambda>x. colon_free (fst x)) m)"
proof (cases "m \<noteq> [] \<and> list_all (entry_ok \<circ> snd) m")
  case True
  then obtain ks where "load_kubeconfigs getenv [] m = Inr ks" "distinct (map fst ks)"
    "\<forall>n. map_of ks n = map_option (source_of getenv n) (map_of m n)"
    using load_kubeconfigs_all assms(3) by blast
  moreover from loaded_names_ok [OF this(2,3) assms(3)]
  have "config_ok cfg \<longleftrightarrow> list_all (\<lambda>x. colon_free (fst x)) m" if "Kubeconfigs cfg = ks" for cfg
    using that by (simp add: config_ok_def)
  ultimately show ?thesis using True assms by (simp add: LoadConfig_def comp_def)
next
  case False
  then consider "m = []" | e where "load_kubeconfigs getenv [] m = Inl e" "m \<noteq> []"
    using load_kubeconfigs_Inl by blast
  then show ?thesis using False assms
    by cases (auto simp: LoadConfig_def list_ex_iff list_all_iff)
qed

theorem LoadConfig_kubeconfigs_witness:
  "\<exists>cfg. LoadConfig (\<lambda>n. ''/x'') (\<lambda>_. 0) (\<lambda>p. Inr [])
      (\<lambda>d. Inr [(''kubeconfigs'', YMap [(''prod'', YMap [(''path'', YString ''$D/p'')])])]) ''c'' = Inr cfg
    \<and> map_of (Kubeconfigs cfg) ''prod'' =
        Some \<lparr>srcName = ''prod'', srcPath = ''/x/p'', srcContexts = [], srcSshuttleHost = []\<rparr>"
  using LoadConfig_kubeconfigs
    [of "\<lambda>p. Inr []" "''c''" "[]"
        "\<lambda>d. Inr [(''kubeconfigs'', YMap [(''prod'', YMap [(''path'', YString ''$D/p'')])])]"
        "[(''kubeconfigs'', YMap [(''prod'', YMap [(''path'', YString ''$D/p'')])])]"
        "[(''prod'', YMap [(''path'', YString ''$D/p'')])]" "\<lambda>n. ''/x''" "\<lambda>_. 0"]
  by (auto simp: ylookup_def entry_ok_def source_of_def readSshuttleHost_def
        name_start_def name_char_def split: sum.splits)

text \<open>
  Every optional setting is the value at its documented path: the two TTLs default to 300
  and 3600 seconds unless a number is given, and the sshuttle host is the expanded
  \<open>plugins.api-endpoint-proxy.sshuttle.host\<close>, empty when any segment is absent or ill-typed.
\<close>

theorem LoadConfig_settings:
  assumes "readFile path = Inr data" and "unmarshal data = Inr raw"
    and "LoadConfig getenv arch readFile unmarshal path = Inr cfg"
  shows "ClusterListTTLSeconds (CacheCfg cfg) =
       (case toInt arch (yaml_at (YMap raw) [''cache'', ''cluster_list_ttl'']) of
          None \<Rightarrow> 300 | Some v \<Rightarrow> v)
    \<and> KubeconfigTTLSeconds (CacheCfg cfg) =
       (case toInt arch (yaml_at (YMap raw) [''cache'', ''kubeconfig_ttl'']) of
          None \<Rightarrow> 3600 | Some v \<Rightarrow> v)
    \<and> cfgSshuttleHost cfg =
       (case as_string (yaml_at (YMap raw)
               [''plugins'', ''api-endpoint-proxy'', ''sshuttle'', ''host'']) of
          None \<Rightarrow> [] | Some host \<Rightarrow> expandEnv getenv host)"
proof -
  have "CacheCfg cfg = load_cache arch raw \<and> cfgSshuttleHost cfg = readSshuttleHost getenv raw"
    using assms by (auto simp: LoadConfig_def split: option.splits sum.splits if_splits)
  then show ?thesis by (simp only: load_cache_at readSshuttleHost_at simp_thms)
qed

theorem LoadConfig_settings_witness:
  "\<exists>cfg. LoadConfig (\<lambda>n. []) (\<lambda>_. 0) (\<lambda>p. Inr [])
      (\<lambda>d. Inr [(''cache'', YMap [(''kubeconfig_ttl'', YInt 60)]),
                (''kubeconfigs'', YMap [(''p'', YMap [(''path'', YString ''f'')])])]) ''c'' = Inr cfg
    \<and> ClusterListTTLSeconds (CacheCfg cfg) = 300 \<and> KubeconfigTTLSeconds (CacheCfg cfg) = 60"
proof -
  let ?raw = "[(''cache'', YMap [(''kubeconfig_ttl'', YInt 60)]),
                (''kubeconfigs'', YMap [(''p'', YMap [(''path'', YString ''f'')])])]"
  let ?load = "LoadConfig (\<lambda>n. []) (\<lambda>_. 0) (\<lambda>p. Inr []) (\<lambda>d. Inr ?raw) ''c''"
  obtain cfg where cfg: "?load = Inr cfg"
    by (simp add: LoadConfig_def ylookup_def)
  have "ClusterListTTLSeconds (CacheCfg cfg) = 300 \<and> KubeconfigTTLSeconds (CacheCfg cfg) = 60"
    using LoadConfig_settings [OF _ _ cfg, of "[]" ?raw] by (simp add: ylookup_def)
  with cfg show ?thesis by blast
qed

end
