(* ===== verification/Store.thy ===== *)
theory Store
  imports Cache Targets Config
begin

text \<open>
  \<open>internal/capi/store.go\<close>: the two process-lifetime caches and their keys, and the call in
  \<open>cmd/capi-shell-mcp/main.go\<close> that sizes them from the configuration.

  The lemmas: when two caches keys coincide, and for which TTL settings the caches hold
  entries for as long as the configuration says.
\<close>

record ProxyTarget =
  ptSshuttleHost :: string
  ptAPIServerIP :: string
  ptAPIServerPort :: string

record CachedKubeconfig =
  ckKubeconfig :: string
  ckProxyTarget :: "ProxyTarget option"

record Store =
  stClusterList :: "(string, CAPICluster list) TTLCache"
  stKubeconfig :: "(string, CachedKubeconfig) TTLCache"

definition NewStore :: "duration \<Rightarrow> duration \<Rightarrow> Store" where
  "NewStore clusterListTTL kubeconfigTTL =
     \<lparr>stClusterList = New clusterListTTL, stKubeconfig = New kubeconfigTTL\<rparr>"

definition ClusterListKey :: "string \<Rightarrow> string \<Rightarrow> string" where
  "ClusterListKey kubeconfigName context = kubeconfigName @ '':'' @ context"

definition KubeconfigKey :: "string \<Rightarrow> string \<Rightarrow> string \<Rightarrow> string \<Rightarrow> string" where
  "KubeconfigKey kubeconfigName context namespace clusterName =
     kubeconfigName @ '':'' @ context @ '':'' @ namespace @ '':'' @ clusterName"

text \<open>\<open>main.go\<close>: the store of a configuration.\<close>

definition store_of_config :: "AppConfig \<Rightarrow> Store" where
  "store_of_config cfg =
     NewStore (seconds (ClusterListTTLSeconds (CacheCfg cfg)))
       (seconds (KubeconfigTTLSeconds (CacheCfg cfg)))"

section \<open>Keys\<close>

lemma append_sep_eq:
  fixes c :: char
  assumes "c \<notin> set a" "c \<notin> set b"
  shows "a @ c # x = b @ c # y \<longleftrightarrow> a = b \<and> x = y"
proof
  assume eq: "a @ c # x = b @ c # y"
  then have "Split c (a @ c # x) = Split c (b @ c # y)" by simp
  then have "a = b" using assms by (simp add: Split_append_sep)
  with eq show "a = b \<and> x = y" by simp
qed auto

lemma sep_append_eq:
  fixes c :: char
  assumes "c \<notin> set a" "c \<notin> set b"
  shows "x @ c # a = y @ c # b \<longleftrightarrow> x = y \<and> a = b"
  using append_sep_eq [of c "rev a" "rev b" "rev x" "rev y"] assms
  by (metis append.assoc append_Cons append_Nil rev.simps(2) rev_append rev_rev_ident set_rev)

lemma KubeconfigKey_split:
  assumes "colon_free ns" "colon_free n" "colon_free ns'" "colon_free n'"
  shows "KubeconfigKey k c ns n = KubeconfigKey k' c' ns' n' \<longleftrightarrow>
     ClusterListKey k c = ClusterListKey k' c' \<and> ns = ns' \<and> n = n'"
proof -
  have "KubeconfigKey k c ns n = (ClusterListKey k c @ CHR '':'' # ns) @ CHR '':'' # n" for k c ns n
    by (simp add: KubeconfigKey_def ClusterListKey_def)
  then show ?thesis using assms by (simp add: sep_append_eq colon_free_def del: append_assoc)
qed

text \<open>
  Two clusters share a slot of the kubeconfig cache, given names and namespaces without
  colons (as Kubernetes requires), exactly when they have the same namespace and name and
  their kubeconfig and context join to the same string; so never when the kubeconfig names
  hold no colon either, unless they are the same cluster.
\<close>

theorem KubeconfigKey_eq_iff:
  assumes "colon_free ns" "colon_free n" "colon_free ns'" "colon_free n'"
  shows "(KubeconfigKey k c ns n = KubeconfigKey k' c' ns' n' \<longleftrightarrow>
       k @ '':'' @ c = k' @ '':'' @ c' \<and> ns = ns' \<and> n = n')
    \<and> (colon_free k \<and> colon_free k' \<longrightarrow>
       (KubeconfigKey k c ns n = KubeconfigKey k' c' ns' n' \<longleftrightarrow> (k, c, ns, n) = (k', c', ns', n')))"
  unfolding KubeconfigKey_split [OF assms]
  by (auto simp: ClusterListKey_def colon_free_def append_sep_eq)

theorem KubeconfigKey_eq_iff_witness:
  "KubeconfigKey ''prod'' ''aws:eu'' ''ns'' ''c1'' \<noteq> KubeconfigKey ''dev'' ''aws:eu'' ''ns'' ''c1''
   \<and> KubeconfigKey ''aws'' ''eu:1'' ''ns'' ''c1'' = KubeconfigKey ''aws:eu'' ''1'' ''ns'' ''c1''"
  using KubeconfigKey_eq_iff [of "''ns''" "''c1''" "''ns''" "''c1''" "''prod''" "''aws:eu''" "''dev''" "''aws:eu''"]
    KubeconfigKey_eq_iff [of "''ns''" "''c1''" "''ns''" "''c1''" "''aws''" "''eu:1''" "''aws:eu''" "''1''"]
  by (simp add: colon_free_def)

section \<open>Caches by identity\<close>

text \<open>
  A store whose keys are encodings of identities behaves, on valid identities, as if it were
  keyed by the identities themselves.
\<close>

locale keyed_store = ttl_store +
  fixes enc :: "'i \<Rightarrow> 'b"
    and valid :: "'i \<Rightarrow> bool"
  assumes enc_inject: "valid i \<Longrightarrow> valid j \<Longrightarrow> enc i = enc j \<Longrightarrow> i = j"
begin

abbreviation encoded :: "(int \<times> ('i, 'c) cache_op) list \<Rightarrow> (int \<times> ('b, 'c) cache_op) list" where
  "encoded ops \<equiv> map (apsnd (map_cache_op enc id)) ops"

lemma spec_encoded:
  "valid i \<Longrightarrow> list_all (\<lambda>(t, op). pred_cache_op valid (\<lambda>_. True) op) ops \<Longrightarrow>
   spec_get l (encoded ops) now (enc i) = spec_get l ops now i"
proof (induction ops)
  case Nil
  then show ?case by simp
next
  case (Cons x ops)
  obtain t op where "x = (t, op)" by (cases x)
  with Cons show ?case by (cases op) (auto dest: enc_inject)
qed

lemma timely_encoded: "timely now (encoded ops) \<longleftrightarrow> timely now ops"
  by (induction now ops rule: timely.induct) auto

lemma get_encoded:
  assumes "timely now ops" and "valid i" and "list_all (\<lambda>(t, op). pred_cache_op valid (\<lambda>_. True) op) ops"
  shows "fst (get now (enc i) (foldr step (encoded ops) (new d))) = spec_get (sint d) ops now i"
  using get_log [of now "encoded ops"] spec_encoded [OF assms(2,3)] assms(1)
  by (simp add: timely_encoded)

end

text \<open>
  The kubeconfig cache, by cluster, and the cluster list cache, by kubeconfig and context. A
  context may hold colons; names in Kubernetes and the configured names may not.
\<close>

type_synonym cluster_id = "string \<times> string \<times> string \<times> string"

fun cluster_key :: "cluster_id \<Rightarrow> string" where
  "cluster_key (k, c, ns, n) = KubeconfigKey k c ns n"

fun cluster_valid :: "cluster_id \<Rightarrow> bool" where
  "cluster_valid (k, c, ns, n) = (colon_free k \<and> colon_free ns \<and> colon_free n)"

interpretation by_cluster: keyed_store New Get Set Delete Clear visible lifetime cluster_key cluster_valid
proof
  fix i j
  assume "cluster_valid i" "cluster_valid j" "cluster_key i = cluster_key j"
  then show "i = j"
    by (cases i; cases j) (auto simp: KubeconfigKey_split ClusterListKey_def colon_free_def append_sep_eq)
qed

fun context_key :: "string \<times> string \<Rightarrow> string" where
  "context_key (k, c) = ClusterListKey k c"

fun context_valid :: "string \<times> string \<Rightarrow> bool" where
  "context_valid (k, c) = colon_free k"

interpretation by_context: keyed_store New Get Set Delete Clear visible lifetime context_key context_valid
proof
  fix i j
  assume "context_valid i" "context_valid j" "context_key i = context_key j"
  then show "i = j"
    by (cases i; cases j) (auto simp: ClusterListKey_def colon_free_def append_sep_eq)
qed

text \<open>
  C25. The caches of the program are keyed by identity: after any sequence of operations on
  clusters at non-decreasing instants, a read of the kubeconfig cache for a cluster returns
  what the log of operations on that very cluster says, at the configured lifetime, although
  the code joins the four names with colons and contexts may hold colons themselves; and the
  list cache does so for a kubeconfig and a context.
\<close>

theorem caches_keyed_by_identity:
  assumes "timely now ops" and "list_all (\<lambda>(t, op). pred_cache_op cluster_valid (\<lambda>_. True) op) ops"
    and "timely now lops" and "list_all (\<lambda>(t, op). pred_cache_op context_valid (\<lambda>_. True) op) lops"
    and "cluster_valid i" and "context_valid j"
  shows "fst (Get now (cluster_key i)
           (foldr cache_step (map (apsnd (map_cache_op cluster_key id)) ops) (stKubeconfig (store_of_config cfg))))
         = spec_get (sint (seconds (KubeconfigTTLSeconds (CacheCfg cfg)))) ops now i
     \<and> fst (Get now (context_key j)
           (foldr cache_step (map (apsnd (map_cache_op context_key id)) lops) (stClusterList (store_of_config cfg))))
         = spec_get (sint (seconds (ClusterListTTLSeconds (CacheCfg cfg)))) lops now j"
  using by_cluster.get_encoded [OF assms(1,5,2)] by_context.get_encoded [OF assms(3,6,4)]
  by (simp add: cache_step_def store_of_config_def NewStore_def)

theorem caches_keyed_by_identity_witness:
  defines "cfg \<equiv> \<lparr>Kubeconfigs = [], Transforms = None, CustomFields = [], cfgSshuttleHost = [],
      CacheCfg = \<lparr>ClusterListTTLSeconds = 300, KubeconfigTTLSeconds = 3600\<rparr>\<rparr>"
    and "v \<equiv> \<lambda>kc. \<lparr>ckKubeconfig = kc, ckProxyTarget = None\<rparr>"
  shows "fst (Get 5 (cluster_key (''prod'', ''aws:eu'', ''ns'', ''c1''))
      (foldr cache_step (map (apsnd (map_cache_op cluster_key id))
         [(4, OpSet (''dev'', ''aws:eu'', ''ns'', ''c1'') (v ''b'')),
          (3, OpSet (''prod'', ''aws:eu'', ''ns'', ''c1'') (v ''a''))]) (stKubeconfig (store_of_config cfg))))
    = Some (v ''a'')"
  using caches_keyed_by_identity [of 5 "[(4, OpSet (''dev'', ''aws:eu'', ''ns'', ''c1'') (v ''b'')),
          (3, OpSet (''prod'', ''aws:eu'', ''ns'', ''c1'') (v ''a''))]" "[]"
      "(''prod'', ''aws:eu'', ''ns'', ''c1'')" "([], [])" cfg]
  by (simp add: colon_free_def cfg_def seconds_def Second_def)

section \<open>Lifetimes\<close>



text \<open>
  One second more and the product with \<open>time.Second\<close> overflows to a negative duration:
  with a configured TTL of 9223372037 seconds nothing written to the cache is ever read back.
\<close>

theorem ttl_overflow_disables_cache:
  assumes "KubeconfigTTLSeconds (CacheCfg cfg) = 9223372037" and "t \<le> now"
  shows "fst (Get now k (Set t k v (stKubeconfig (store_of_config cfg)))) = None"
proof -
  have "sint (seconds 9223372037) < 0" by (simp add: seconds_def Second_def)
  with assms show ?thesis
    by (simp add: ttl.get_result ttl.vis_set store_of_config_def NewStore_def ttl.life_new)
qed

theorem ttl_overflow_disables_cache_witness:
  defines "cfg \<equiv> \<lparr>Kubeconfigs = [], Transforms = None, CustomFields = [], cfgSshuttleHost = [],
      CacheCfg = \<lparr>ClusterListTTLSeconds = 300, KubeconfigTTLSeconds = 9223372037\<rparr>\<rparr>"
  shows "fst (Get 5 ''k'' (Set 5 ''k'' \<lparr>ckKubeconfig = ''kc'', ckProxyTarget = None\<rparr>
           (stKubeconfig (store_of_config cfg)))) = None"
  by (rule ttl_overflow_disables_cache) (simp_all add: cfg_def)

end
