(* ===== verification/Shell.thy ===== *)
theory Shell
  imports Procs
begin

text \<open>
  \<open>internal/shell/shell.go\<close>: running a child process with a cap on its combined output.

  The child is an argument: the chunks it writes to its two streams, in the order the copying
  goroutines of \<open>os/exec\<close> receive them, and how it ends. The copiers call \<open>Write\<close> of the two
  writers that share one budget; a copier stops at its first failed write.

  The lemmas: with writes one after the other the captured output never exceeds the cap and
  every error \<open>ExecFile\<close> returns is an \<open>ExitError\<close> with a non-zero code, which is the
  contract (\<open>execer\<close>) its callers rely on; with the two copiers overlapping, the unprotected
  counter lets the output exceed the cap.
\<close>

section \<open>Types\<close>

record Options =
  optEnv :: "string list"
  optInput :: string
  optMaxOutputBytes :: int

record Output =
  outStdout :: string
  outStderr :: string

datatype stream = Stdout | Stderr

record sharedLimit =
  limWritten :: int
  bufStdout :: string
  bufStderr :: string

definition captured :: "sharedLimit \<Rightarrow> int" where
  "captured s = int (length (bufStdout s) + length (bufStderr s))"

text \<open>How a child ends: its exit code and the error \<open>os/exec\<close> makes of it.\<close>

datatype wait_status = Exited int error | WaitFailed error

record child =
  childStartError :: "error option"
  childWrites :: "(stream \<times> string) list"
  childEnd :: "bool \<Rightarrow> wait_status"

section \<open>Writing under the cap\<close>

definition buf_write :: "stream \<Rightarrow> string \<Rightarrow> sharedLimit \<Rightarrow> sharedLimit" where
  "buf_write st p s =
     (case st of
        Stdout \<Rightarrow> s\<lparr>bufStdout := bufStdout s @ p\<rparr>
      | Stderr \<Rightarrow> s\<lparr>bufStderr := bufStderr s @ p\<rparr>)"

definition Write :: "int \<Rightarrow> stream \<Rightarrow> string \<Rightarrow> sharedLimit \<Rightarrow> (error + nat) \<times> sharedLimit" where
  "Write cap st p s =
     (let s1 = s\<lparr>limWritten := limWritten s + int (length p)\<rparr> in
      if limWritten s1 > cap then
        (Inl (Errorf [Txt (''output exceeded maximum of '' @ Itoa cap @ '' bytes'')]), s1)
      else (Inr (length p), buf_write st p s1))"

text \<open>
  The copiers: chunks for a stream whose copier has failed are not read. The first failure is
  what \<open>Wait\<close> reports. \<open>None\<close> is no cap: the buffers themselves are the writers.
\<close>

fun copy_output ::
  "int option \<Rightarrow> stream list \<Rightarrow> error option \<Rightarrow> (stream \<times> string) list \<Rightarrow> sharedLimit
    \<Rightarrow> error option \<times> sharedLimit" where
  "copy_output capo dead err [] s = (err, s)"
| "copy_output capo dead err ((st, p) # ws) s =
     (if st \<in> set dead then copy_output capo dead err ws s
      else case capo of
          None \<Rightarrow> copy_output capo dead err ws (buf_write st p s)
        | Some cap \<Rightarrow>
            (case Write cap st p s of
               (Inr n, s') \<Rightarrow> copy_output capo dead err ws s'
             | (Inl e, s') \<Rightarrow>
                 copy_output capo (st # dead) (case err of None \<Rightarrow> Some e | Some _ \<Rightarrow> err) ws s'))"

section \<open>Running a command\<close>

definition run_child :: "int \<Rightarrow> child \<Rightarrow> error + Output" where
  "run_child cap c =
     (let s0 = \<lparr>limWritten = 0, bufStdout = [], bufStderr = []\<rparr>;
          capo = (if cap > 0 then Some cap else None)
      in case childStartError c of
           Some m \<Rightarrow> Inl (RunError [] [] 1 m)
         | None \<Rightarrow>
           (case copy_output capo [] None (childWrites c) s0 of
              (copyErr, s) \<Rightarrow>
                (case childEnd c (copyErr \<noteq> None) of
                   WaitFailed m \<Rightarrow> Inl (RunError (bufStdout s) (bufStderr s) 1 m)
                 | Exited code m \<Rightarrow>
                     if code \<noteq> 0 then Inl (RunError (bufStdout s) (bufStderr s) code m)
                     else (case copyErr of
                         Some e \<Rightarrow>
                           Inl (RunError (bufStdout s) (bufStderr s) 1 e)
                       | None \<Rightarrow> Inr \<lparr>outStdout = bufStdout s, outStderr = bufStderr s\<rparr>))))"

definition OSExecer_ExecFile ::
  "(string \<Rightarrow> string list \<Rightarrow> Options \<Rightarrow> 'w \<Rightarrow> child \<times> 'w)
    \<Rightarrow> string \<Rightarrow> string list \<Rightarrow> Options \<Rightarrow> 'w \<Rightarrow> (error + Output) \<times> 'w" where
  "OSExecer_ExecFile spawn file args opts w =
     (case spawn file args opts w of (c, w') \<Rightarrow> (run_child (optMaxOutputBytes opts) c, w'))"

section \<open>The cap\<close>

definition within_cap :: "int \<Rightarrow> sharedLimit \<Rightarrow> bool" where
  "within_cap cap s = (captured s \<le> limWritten s \<and> captured s \<le> cap)"

lemma captured_buf_write: "captured (buf_write st p s) = captured s + int (length p)"
  by (simp add: captured_def buf_write_def split: stream.split)

lemma limWritten_buf_write [simp]: "limWritten (buf_write st p s) = limWritten s"
  by (simp add: buf_write_def split: stream.split)

lemma captured_limWritten [simp]: "captured (s\<lparr>limWritten := n\<rparr>) = captured s"
  by (simp add: captured_def)

lemma Write_within_cap:
  assumes "within_cap cap s" and "Write cap st p s = (r, s')"
  shows "within_cap cap s'"
  using assms by (auto simp: Write_def Let_def within_cap_def captured_buf_write split: if_splits)

lemma copy_output_within_cap:
  "within_cap cap s \<Longrightarrow> copy_output (Some cap) dead err ws s = (e, s') \<Longrightarrow> within_cap cap s'"
proof (induction "Some cap" dead err ws s rule: copy_output.induct)
  case (1 dead err s)
  then show ?case by simp
next
  case (2 dead err st p ws s)
  then show ?case
    by (auto split: if_splits prod.splits sum.splits dest: Write_within_cap)
qed

text \<open>Once over the budget, no write on either stream succeeds any more.\<close>

lemma Write_over_budget:
  assumes "cap < limWritten s"
  shows "\<exists>e. fst (Write cap st p s) = Inl e \<and> cap < limWritten (snd (Write cap st p s))
     \<and> captured (snd (Write cap st p s)) = captured s"
  using assms by (simp add: Write_def Let_def)

section \<open>The contract of an execer\<close>

definition result_output :: "error + Output \<Rightarrow> string \<times> string" where
  "result_output r =
     (case r of
        Inr out \<Rightarrow> (outStdout out, outStderr out)
      | Inl (RunError so se c m) \<Rightarrow> (so, se)
      | Inl _ \<Rightarrow> ([], []))"

locale execer =
  fixes exec_file :: "string \<Rightarrow> string list \<Rightarrow> Options \<Rightarrow> 'w \<Rightarrow> (error + Output) \<times> 'w"
  assumes fails_with_code:
      "exec_file file args opts w = (Inl e, w') \<Longrightarrow> \<exists>so se c m. e = RunError so se c m \<and> c \<noteq> 0"
    and output_capped:
      "exec_file file args opts w = (r, w') \<Longrightarrow> 0 < optMaxOutputBytes opts \<Longrightarrow>
       int (length (fst (result_output r)) + length (snd (result_output r)))
         \<le> optMaxOutputBytes opts"

lemma run_child_fails_with_code:
  "run_child cap c = Inl e \<Longrightarrow> \<exists>so se code m. e = RunError so se code m \<and> code \<noteq> 0"
  by (auto simp: run_child_def Let_def
      split: option.splits prod.splits wait_status.splits if_splits)

lemma run_child_capped:
  assumes "0 < cap"
  shows "int (length (fst (result_output (run_child cap c)))
       + length (snd (result_output (run_child cap c)))) \<le> cap"
proof -
  obtain e s where co: "copy_output (Some cap) [] None (childWrites c)
      \<lparr>limWritten = 0, bufStdout = [], bufStderr = []\<rparr> = (e, s)"
    by fastforce
  have "within_cap cap \<lparr>limWritten = 0, bufStdout = [], bufStderr = []\<rparr>"
    using assms by (simp add: within_cap_def captured_def)
  then have "within_cap cap s" using co by (rule copy_output_within_cap)
  then have "int (length (bufStdout s) + length (bufStderr s)) \<le> cap"
    by (simp add: within_cap_def captured_def)
  with assms co show ?thesis
    by (auto simp: run_child_def result_output_def Let_def
        split: option.split wait_status.split)
qed

interpretation os: execer "OSExecer_ExecFile spawn" for spawn
proof
  fix f args opts and w w' :: 'a and e
  assume "OSExecer_ExecFile spawn f args opts w = (Inl e, w')"
  then obtain c where "run_child (optMaxOutputBytes opts) c = Inl e"
    by (auto simp: OSExecer_ExecFile_def split: prod.splits)
  then show "\<exists>so se c m. e = RunError so se c m \<and> c \<noteq> 0"
    by (rule run_child_fails_with_code)
next
  fix f args opts and w w' :: 'a and r
  assume "OSExecer_ExecFile spawn f args opts w = (r, w')" and lim: "0 < optMaxOutputBytes opts"
  then obtain c where "r = run_child (optMaxOutputBytes opts) c"
    by (auto simp: OSExecer_ExecFile_def split: prod.splits)
  with lim show "int (length (fst (result_output r)) + length (snd (result_output r)))
      \<le> optMaxOutputBytes opts"
    by (simp only: run_child_capped)
qed

text \<open>
  C22. Every error of the production execer is an \<open>ExitError\<close> with a non-zero exit code, and
  with a cap set, what it returns of stdout and stderr together, on success and in the error,
  is at most the cap, as long as the copiers' writes do not overlap.
\<close>

theorem OSExecer_contract:
  assumes "OSExecer_ExecFile spawn file args opts w = (r, w')" and "0 < optMaxOutputBytes opts"
  shows "(case r of
      Inl e \<Rightarrow> (\<exists>so se c m. e = RunError so se c m \<and> c \<noteq> 0
          \<and> int (length so + length se) \<le> optMaxOutputBytes opts)
    | Inr out \<Rightarrow> int (length (outStdout out) + length (outStderr out)) \<le> optMaxOutputBytes opts)"
proof -
  have cap: "int (length (fst (result_output r)) + length (snd (result_output r)))
      \<le> optMaxOutputBytes opts"
    by (rule os.output_capped [OF assms])
  show ?thesis
  proof (cases r)
    case (Inl e)
    from os.fails_with_code [OF assms(1) [unfolded Inl]]
    obtain so se c m where e: "e = RunError so se c m" and "c \<noteq> 0" by auto
    moreover from cap have "int (length so + length se) \<le> optMaxOutputBytes opts"
      unfolding Inl e result_output_def by simp
    ultimately show ?thesis unfolding Inl by auto
  next
    case (Inr out)
    with cap show ?thesis by (simp add: result_output_def)
  qed
qed

theorem OSExecer_contract_witness:
  defines "spawn \<equiv> (\<lambda>file args opts w. (\<lparr>childStartError = None,
      childWrites = [(Stdout, ''abc''), (Stderr, ''def''), (Stdout, ''g'')],
      childEnd = (\<lambda>cut. Exited 0 (ExtError []))\<rparr>, Suc w))"
    and "opts \<equiv> \<lparr>optEnv = [], optInput = [], optMaxOutputBytes = 4\<rparr>"
  shows "OSExecer_ExecFile spawn ''ls'' [] opts 0 =
      (Inl (RunError ''abc'' [] 1 (Errorf [Txt ''output exceeded maximum of 4 bytes''])), Suc 0)
    \<and> int (length ''abc'' + length ([] :: string)) \<le> 4"
proof -
  have four: "Itoa 4 = ''4''" by (simp add: Itoa_def nat_digits.simps [of 4] digit_def)
  have run: "OSExecer_ExecFile spawn ''ls'' [] opts 0 =
      (Inl (RunError ''abc'' [] 1 (Errorf [Txt ''output exceeded maximum of 4 bytes''])), Suc 0)"
    by (simp add: OSExecer_ExecFile_def spawn_def opts_def run_child_def Write_def buf_write_def four)
  show ?thesis using run OSExecer_contract [OF run] by (simp add: opts_def)
qed

section \<open>Overlapping copiers\<close>

text \<open>
  Stdout and stderr are different writers, so \<open>os/exec\<close> copies them in two goroutines, and
  \<open>w.limit.written += len(p)\<close> is a load and a store with no lock around them. These are the
  steps of \<open>Write\<close> in each goroutine: load, store, compare.
\<close>

datatype copier = Reading | Adding int string | Checking string | Stopped

inductive race_step ::
  "int \<Rightarrow> sharedLimit \<times> (stream \<Rightarrow> copier) \<Rightarrow> sharedLimit \<times> (stream \<Rightarrow> copier) \<Rightarrow> bool"
  for cap where
  load: "pc st = Reading \<Longrightarrow>
     race_step cap (s, pc) (s, pc(st := Adding (limWritten s) p))"
| store: "pc st = Adding n p \<Longrightarrow>
     race_step cap (s, pc) (s\<lparr>limWritten := n + int (length p)\<rparr>, pc(st := Checking p))"
| refuse: "pc st = Checking p \<Longrightarrow> limWritten s > cap \<Longrightarrow>
     race_step cap (s, pc) (s, pc(st := Stopped))"
| accept: "pc st = Checking p \<Longrightarrow> \<not> limWritten s > cap \<Longrightarrow>
     race_step cap (s, pc) (buf_write st p s, pc(st := Reading))"

definition race_start :: "sharedLimit \<times> (stream \<Rightarrow> copier)" where
  "race_start = (\<lparr>limWritten = 0, bufStdout = [], bufStderr = []\<rparr>, \<lambda>_. Reading)"

text \<open>The steps of one copier in a row are one \<open>Write\<close>.\<close>

lemma race_steps_Write:
  assumes "pc st = Reading"
  shows "(race_step cap)\<^sup>*\<^sup>* (s, pc)
     (snd (Write cap st p s),
      pc(st := (if isl (fst (Write cap st p s)) then Stopped else Reading)))"
proof -
  let ?s1 = "s\<lparr>limWritten := limWritten s + int (length p)\<rparr>"
  let ?pc1 = "pc(st := Adding (limWritten s) p)" and ?pc2 = "pc(st := Checking p)"
  have "race_step cap (s, pc) (s, ?pc1)" by (rule race_step.load) (rule assms)
  moreover have "race_step cap (s, ?pc1) (?s1, ?pc2)"
    using race_step.store [of ?pc1 st "limWritten s" p cap s] by simp
  moreover have "race_step cap (?s1, ?pc2) (snd (Write cap st p s),
      pc(st := (if isl (fst (Write cap st p s)) then Stopped else Reading)))"
  proof (cases "limWritten ?s1 > cap")
    case True
    then show ?thesis using race_step.refuse [of ?pc2 st p cap ?s1] by (simp add: Write_def)
  next
    case False
    then show ?thesis using race_step.accept [of ?pc2 st p cap ?s1] by (simp add: Write_def)
  qed
  ultimately show ?thesis by (meson rtranclp.rtrancl_refl rtranclp.rtrancl_into_rtrancl)
qed

text \<open>
  C40. The two copiers can overlap so that one of the two updates of the counter is lost: a child
  that writes as many bytes as the cap to each of its streams gets all of them captured, twice
  the cap, and no write reports an error.
\<close>

theorem overlapping_copiers_exceed_cap:
  assumes "0 \<le> cap"
  shows "\<exists>s. (race_step cap)\<^sup>*\<^sup>* race_start (s, \<lambda>_. Reading)
     \<and> captured s = 2 * cap \<and> limWritten s \<le> cap"
proof -
  define p where "p = replicate (nat cap) CHR ''x''"
  define s0 where "s0 = \<lparr>limWritten = 0, bufStdout = [], bufStderr = []\<rparr>"
  let ?R = "\<lambda>_::stream. Reading" and ?s1 = "s0\<lparr>limWritten := cap\<rparr>"
  have len: "int (length p) = cap" using assms by (simp add: p_def)
  let ?a = "?R(Stdout := Adding 0 p)" and ?c = "?R(Stdout := Checking p)"
  have "race_step cap (s0, ?R) (s0, ?a)"
    using race_step.load [of ?R Stdout cap s0 p] by (simp add: s0_def)
  moreover have "race_step cap (s0, ?a) (s0, ?a(Stderr := Adding 0 p))"
    using race_step.load [of ?a Stderr cap s0 p] by (simp add: s0_def)
  moreover have "race_step cap (s0, ?a(Stderr := Adding 0 p)) (?s1, ?c(Stderr := Adding 0 p))"
    using race_step.store [of "?a(Stderr := Adding 0 p)" Stdout 0 p cap s0]
    by (simp add: len fun_upd_twist)
  moreover have "race_step cap (?s1, ?c(Stderr := Adding 0 p)) (?s1, ?c(Stderr := Checking p))"
    using race_step.store [of "?c(Stderr := Adding 0 p)" Stderr 0 p cap ?s1] by (simp add: len)
  moreover have "race_step cap (?s1, ?c(Stderr := Checking p))
      (buf_write Stdout p ?s1, ?R(Stderr := Checking p))"
    using race_step.accept [of "?c(Stderr := Checking p)" Stdout p cap ?s1]
    by (simp add: fun_upd_twist) (metis fun_upd_idem_iff fun_upd_upd)
  moreover have "race_step cap (buf_write Stdout p ?s1, ?R(Stderr := Checking p))
      (buf_write Stderr p (buf_write Stdout p ?s1), ?R)"
    using race_step.accept [of "?R(Stderr := Checking p)" Stderr p cap "buf_write Stdout p ?s1"]
    by (simp add: fun_upd_idem)
  ultimately have "(race_step cap)\<^sup>*\<^sup>* (s0, ?R) (buf_write Stderr p (buf_write Stdout p ?s1), ?R)"
    by (meson rtranclp.rtrancl_refl rtranclp.rtrancl_into_rtrancl)
  moreover have "captured (buf_write Stderr p (buf_write Stdout p ?s1)) = 2 * cap"
    by (simp add: captured_buf_write len) (simp add: captured_def s0_def)
  ultimately show ?thesis
    by (intro exI [of _ "buf_write Stderr p (buf_write Stdout p ?s1)"])
      (simp add: race_start_def s0_def)
qed

theorem overlapping_copiers_exceed_cap_witness:
  "\<exists>s. (race_step 4)\<^sup>*\<^sup>* race_start (s, \<lambda>_. Reading) \<and> captured s = 8"
  using overlapping_copiers_exceed_cap [of 4] by auto

end
