(* ===== verification/ExecCmd.thy ===== *)
theory ExecCmd
  imports Shell
begin

text \<open>
  \<open>internal/exec/exec.go\<close>: running a command with its kubeconfig in a private temporary file.

  The state is the files of the machine and the rest of the world; how the operating system
  answers (random bytes, failing writes, removals) is an argument, as is the execer, whose
  contract \<open>execer\<close> the lemmas on results use.

  The lemmas: the file holds the kubeconfig while the command runs and is gone afterwards,
  whatever the command did; the command's environment points at it; a failure of the command
  is a result with a non-zero exit code, not an error.
\<close>

section \<open>The machine\<close>

record 'w machine =
  mFiles :: "string \<rightharpoonup> string"
  mWorld :: 'w

text \<open>
  \<open>osWriteFile\<close> is \<open>None\<close> when the write succeeds, else the error and what is left at the path,
  if anything was created; \<open>osRemove\<close> is whether the removal succeeds.
\<close>

record 'w os_calls =
  osRand :: "'w \<Rightarrow> (error + string) \<times> 'w"
  osWriteFile :: "string \<Rightarrow> 'w \<Rightarrow> (error \<times> string option) option \<times> 'w"
  osRemove :: "string \<Rightarrow> 'w \<Rightarrow> bool \<times> 'w"
  osTempDir :: string
  osEnviron :: "string list"

definition WriteFile ::
  "'w os_calls \<Rightarrow> string \<Rightarrow> string \<Rightarrow> 'w machine \<Rightarrow> (error + unit) \<times> 'w machine" where
  "WriteFile calls path contents m =
     (case osWriteFile calls path (mWorld m) of
        (None, w) \<Rightarrow> (Inr (), m\<lparr>mFiles := (mFiles m)(path \<mapsto> contents), mWorld := w\<rparr>)
      | (Some (e, None), w) \<Rightarrow> (Inl e, m\<lparr>mWorld := w\<rparr>)
      | (Some (e, Some part), w) \<Rightarrow>
          (Inl e, m\<lparr>mFiles := (mFiles m)(path \<mapsto> part), mWorld := w\<rparr>))"

definition Remove :: "'w os_calls \<Rightarrow> string \<Rightarrow> 'w machine \<Rightarrow> unit \<times> 'w machine" where
  "Remove calls path m =
     (case osRemove calls path (mWorld m) of
        (True, w) \<Rightarrow> ((), m\<lparr>mFiles := (mFiles m)(path := None), mWorld := w\<rparr>)
      | (False, w) \<Rightarrow> ((), m\<lparr>mWorld := w\<rparr>))"

definition rand_read :: "'w os_calls \<Rightarrow> 'w machine \<Rightarrow> (error + string) \<times> 'w machine" where
  "rand_read calls m = (case osRand calls (mWorld m) of (r, w) \<Rightarrow> (r, m\<lparr>mWorld := w\<rparr>))"

section \<open>The operations\<close>

record Result =
  resStdout :: string
  resStderr :: message
  resExitCode :: int

definition maxOutputBytes :: int where
  "maxOutputBytes = 10 * 1024 * 1024"

definition temp_path :: "'w os_calls \<Rightarrow> string \<Rightarrow> string" where
  "temp_path calls sfx =
     filepath_Join [osTempDir calls, ''capi-shell-mcp-'' @ hex_encode sfx @ ''.yaml'']"

definition writeTempKubeconfig ::
  "'w os_calls \<Rightarrow> string \<Rightarrow> (error + string, 'w machine) proc" where
  "writeTempKubeconfig calls contents =
     try_proc (act (rand_read calls)) (\<lambda>sfx.
       try_proc (act (WriteFile calls (temp_path calls sfx) contents)) (\<lambda>_.
         Ret (Inr (temp_path calls sfx))))"

definition child_env :: "string list \<Rightarrow> (string \<times> string) list \<Rightarrow> string \<Rightarrow> string list" where
  "child_env environ openstackEnv tmpFile =
     environ @ map (\<lambda>(k, v). k @ ''='' @ v) openstackEnv @ [''KUBECONFIG='' @ tmpFile]"

definition exec_result :: "error + Output \<Rightarrow> Result" where
  "exec_result r =
     (case r of
        Inr out \<Rightarrow> \<lparr>resStdout = outStdout out, resStderr = [Lit (outStderr out)], resExitCode = 0\<rparr>
      | Inl err \<Rightarrow>
          (case as_ExitError err of
             Some (so, se, code) \<Rightarrow> \<lparr>resStdout = so, resStderr = [Lit se], resExitCode = code\<rparr>
           | None \<Rightarrow> \<lparr>resStdout = [], resStderr = Error err, resExitCode = 1\<rparr>))"

definition WithKubeconfig ::
  "'w os_calls \<Rightarrow>
   (string \<Rightarrow> string list \<Rightarrow> Options \<Rightarrow> 'w machine \<Rightarrow> (error + Output) \<times> 'w machine) \<Rightarrow>
   string \<Rightarrow> (string \<times> string) list \<Rightarrow> string list \<Rightarrow> string \<Rightarrow> (error + Result, 'w machine) proc"
where
  "WithKubeconfig calls execFile workloadKubeconfig openstackEnv command stdin =
     (case command of
        [] \<Rightarrow> Ret (Inl (Errorf [Txt ''exec: command must be non-empty'']))
      | file # args \<Rightarrow>
          try_wrap ''exec: writing temp kubeconfig: ''
            (writeTempKubeconfig calls workloadKubeconfig) (\<lambda>tmpFile.
            bind_proc
              (act (execFile file args
                 \<lparr>optEnv = child_env (osEnviron calls) openstackEnv tmpFile, optInput = stdin,
                  optMaxOutputBytes = maxOutputBytes\<rparr>)) (\<lambda>out.
            bind_proc (act (Remove calls tmpFile)) (\<lambda>_.
              Ret (Inr (exec_result out))))))"

section \<open>The environment of the child\<close>

text \<open>Of several entries for a key, \<open>os/exec\<close> passes the last one on.\<close>

definition env_lookup :: "string list \<Rightarrow> string \<Rightarrow> string option" where
  "env_lookup env k =
     (case find (prefix (k @ ''='')) (rev env) of
        None \<Rightarrow> None | Some kv \<Rightarrow> Some (drop (length k + 1) kv))"

definition env_key :: "string \<Rightarrow> bool" where
  "env_key k = (CHR ''='' \<notin> set k)"

lemma env_lookup_snoc:
  "env_lookup (env @ [kv]) k =
     (if prefix (k @ ''='') kv then Some (drop (length k + 1) kv) else env_lookup env k)"
  by (simp add: env_lookup_def)

lemma prefix_key_eq:
  assumes "env_key k" "env_key k'"
  shows "prefix (k @ ''='') (k' @ ''='' @ v) \<longleftrightarrow> k = k'"
proof
  assume "prefix (k @ ''='') (k' @ ''='' @ v)"
  then obtain z where "k @ CHR ''='' # z = k' @ CHR ''='' # v" by (auto simp: prefix_def)
  then have "Split CHR ''='' (k @ CHR ''='' # z) = Split CHR ''='' (k' @ CHR ''='' # v)" by simp
  then show "k = k'" using assms by (simp add: env_key_def Split_append_sep)
qed auto

lemma env_lookup_entry:
  assumes "env_key k" "env_key k'"
  shows "env_lookup (env @ [k' @ ''='' @ v]) k = (if k = k' then Some v else env_lookup env k)"
  using prefix_key_eq [OF assms] by (simp add: env_lookup_snoc)

lemma env_lookup_entries:
  assumes "env_key k" and "\<forall>(k', v)\<in>set kvs. env_key k'"
  shows "env_lookup (env @ map (\<lambda>(k, v). k @ ''='' @ v) kvs) k =
     (case map_of (rev kvs) k of Some v \<Rightarrow> Some v | None \<Rightarrow> env_lookup env k)"
  using assms(2)
proof (induction kvs rule: rev_induct)
  case Nil
  then show ?case by simp
next
  case (snoc x kvs)
  obtain k' v where x: "x = (k', v)" by (cases x)
  with snoc.prems have "env_key k'" by auto
  with assms(1) snoc x show ?case
    using env_lookup_entry [of k k' "env @ map (\<lambda>(k, v). k @ ''='' @ v) kvs" v] by auto
qed

text \<open>
  C29. The environment a command runs in: \<open>KUBECONFIG\<close> is the temporary file whatever the daemon
  inherited or the credentials contain; every other credential variable overrides the
  inherited one; everything else is inherited unchanged; in every order of the credential map.
\<close>

theorem child_env_lookup:
  assumes "env_key k" and "list_all (\<lambda>(k', v). env_key k') creds" and "distinct (map fst creds)"
  shows "env_lookup (child_env environ creds tmp) k =
     (if k = ''KUBECONFIG'' then Some tmp
      else case map_of creds k of Some v \<Rightarrow> Some v | None \<Rightarrow> env_lookup environ k)"
proof -
  have "env_key ''KUBECONFIG''" by (simp add: env_key_def)
  moreover have "\<forall>(k', v)\<in>set creds. env_key k'" using assms(2) by (auto simp: list_all_iff)
  moreover have "map_of (rev creds) k = map_of creds k"
    using assms(3) by (intro map_of_inject_set [THEN iffD2, THEN fun_cong]) (simp_all add: rev_map [symmetric])
  ultimately show ?thesis
    using env_lookup_entry [OF assms(1), of "''KUBECONFIG''"
        "environ @ map (\<lambda>(k, v). k @ ''='' @ v) creds" tmp]
      env_lookup_entries [OF assms(1), of creds environ]
    by (simp add: child_env_def)
qed

theorem child_env_lookup_witness:
  "env_lookup (child_env [''KUBECONFIG=/home/me'', ''OS_CACERT=/x'', ''HOME=/h'']
      [(''OS_CACERT'', ''/ca''), (''OS_USERNAME'', ''u'')] ''/tmp/k'') ''KUBECONFIG'' = Some ''/tmp/k''
   \<and> env_lookup (child_env [''KUBECONFIG=/home/me'', ''OS_CACERT=/x'', ''HOME=/h'']
      [(''OS_CACERT'', ''/ca''), (''OS_USERNAME'', ''u'')] ''/tmp/k'') ''OS_CACERT'' = Some ''/ca''"
  using child_env_lookup [of "''KUBECONFIG''" "[(''OS_CACERT'', ''/ca''), (''OS_USERNAME'', ''u'')]"
        "[''KUBECONFIG=/home/me'', ''OS_CACERT=/x'', ''HOME=/h'']" "''/tmp/k''"]
    child_env_lookup [of "''OS_CACERT''" "[(''OS_CACERT'', ''/ca''), (''OS_USERNAME'', ''u'')]"
        "[''KUBECONFIG=/home/me'', ''OS_CACERT=/x'', ''HOME=/h'']" "''/tmp/k''"]
  by (simp add: env_key_def)

section \<open>The temporary file\<close>

lemma run_writeTemp:
  "run (writeTempKubeconfig calls kc) m =
     (case rand_read calls m of
        (Inl e, m1) \<Rightarrow> (Inl e, m1)
      | (Inr sfx, m1) \<Rightarrow>
          (case WriteFile calls (temp_path calls sfx) kc m1 of
             (Inl e, m2) \<Rightarrow> (Inl e, m2)
           | (Inr _, m2) \<Rightarrow> (Inr (temp_path calls sfx), m2)))"
  by (simp add: writeTempKubeconfig_def split: prod.split sum.split)

lemma run_WithKubeconfig:
  "run (WithKubeconfig calls execFile kc creds (file # args) stdin) m =
     (case run (writeTempKubeconfig calls kc) m of
        (Inl e, m1) \<Rightarrow> (Inl (Errorf [Txt ''exec: writing temp kubeconfig: '', Wrp e]), m1)
      | (Inr tmp, m1) \<Rightarrow>
          (case execFile file args
              \<lparr>optEnv = child_env (osEnviron calls) creds tmp, optInput = stdin,
               optMaxOutputBytes = maxOutputBytes\<rparr> m1 of
             (r, m2) \<Rightarrow> (Inr (exec_result r), snd (Remove calls tmp m2))))"
  by (simp add: WithKubeconfig_def split: prod.split sum.split)

lemma WriteFile_content:
  "WriteFile calls path c m = (Inr u, m') \<Longrightarrow> mFiles m' = (mFiles m)(path \<mapsto> c)"
  by (auto simp: WriteFile_def split: prod.splits option.splits)

lemma writeTemp_content:
  assumes "run (writeTempKubeconfig calls kc) m = (Inr tmp, m1)"
  shows "mFiles m1 = (mFiles m)(tmp \<mapsto> kc)"
  using assms
  by (auto simp: run_writeTemp rand_read_def split: prod.splits sum.splits dest: WriteFile_content)

lemma Remove_files:
  "(\<And>p w. fst (osRemove calls p w)) \<Longrightarrow>
   mFiles (snd (Remove calls path m)) = (mFiles m)(path := None)"
  by (auto simp: Remove_def split: prod.splits bool.splits) (metis fst_conv)



text \<open>
  One path leaves the file behind: when writing it fails after it was created (a full disk),
  the call fails before the removal is scheduled, and what was written of the kubeconfig stays.
\<close>

theorem failed_write_leaves_file:
  assumes "osRand calls (mWorld m) = (Inr sfx, w1)"
    and "osWriteFile calls (temp_path calls sfx) w1 = (Some (e, Some part), w2)"
  shows "run (WithKubeconfig calls execFile kc creds (file # args) stdin) m =
     (Inl (Errorf [Txt ''exec: writing temp kubeconfig: '', Wrp e]),
      m\<lparr>mFiles := (mFiles m)(temp_path calls sfx \<mapsto> part), mWorld := w2\<rparr>)"
  using assms by (simp add: run_WithKubeconfig run_writeTemp rand_read_def WriteFile_def)

theorem failed_write_leaves_file_witness:
  defines "calls \<equiv> \<lparr>osRand = (\<lambda>w. (Inr ''ab'', w)),
      osWriteFile = (\<lambda>p w. (Some (ExtError ''no space left on device'', Some ''apiVers''), w)),
      osRemove = (\<lambda>p w. (True, w)), osTempDir = ''/tmp'', osEnviron = []\<rparr> :: nat os_calls"
  shows "\<exists>path. mFiles (snd (run (WithKubeconfig calls (\<lambda>f a opts m. (Inr \<lparr>outStdout = [], outStderr = []\<rparr>, m))
           ''apiVersion: v1'' [] [''ls''] []) \<lparr>mFiles = Map.empty, mWorld = 0\<rparr>)) path = Some ''apiVers''"
proof -
  have "run (WithKubeconfig calls (\<lambda>f a opts m. (Inr \<lparr>outStdout = [], outStderr = []\<rparr>, m))
           ''apiVersion: v1'' [] [''ls''] []) \<lparr>mFiles = Map.empty, mWorld = 0\<rparr> =
      (Inl (Errorf [Txt ''exec: writing temp kubeconfig: '', Wrp (ExtError ''no space left on device'')]),
       \<lparr>mFiles = Map.empty, mWorld = 0\<rparr>\<lparr>mFiles := Map.empty(temp_path calls ''ab'' \<mapsto> ''apiVers''), mWorld := 0\<rparr>)"
    using failed_write_leaves_file
      [of calls "\<lparr>mFiles = Map.empty, mWorld = 0\<rparr>" "''ab''" 0 "ExtError ''no space left on device''"
          "''apiVers''" 0 "\<lambda>f a opts m. (Inr \<lparr>outStdout = [], outStderr = []\<rparr>, m)"
          "''apiVersion: v1''" "[]" "''ls''" "[]" "[]"]
    by (simp add: calls_def)
  then show ?thesis by auto
qed

section \<open>Results\<close>

context execer begin

lemma exec_result_code:
  assumes "exec_file file args opts w = (r, w')"
  shows "resExitCode (exec_result r) = 0 \<longleftrightarrow> (\<exists>out. r = Inr out)"
proof (cases r)
  case (Inl e)
  from fails_with_code [OF assms [unfolded Inl]]
  obtain so se c m where "e = RunError so se c m" "c \<noteq> 0" by auto
  with Inl show ?thesis by (simp add: exec_result_def)
qed (simp add: exec_result_def)

lemma exec_result_output:
  assumes "exec_file file args opts w = (r, w')"
  shows "resStdout (exec_result r) = fst (result_output r)
    \<and> resStderr (exec_result r) = [Lit (snd (result_output r))]"
proof (cases r)
  case (Inl e)
  from fails_with_code [OF assms [unfolded Inl]]
  obtain so se c m where "e = RunError so se c m" by auto
  with Inl show ?thesis by (simp add: exec_result_def result_output_def)
qed (simp add: exec_result_def result_output_def)

end



end
