(* ===== verification/Kube.thy ===== *)
theory Kube
  imports Targets Config
begin

text \<open>
  The reads of \<open>internal/capi\<close>: \<open>clusters.go\<close>, \<open>kubeconfig.go\<close>, \<open>kubeconfig_fetch.go\<close>,
  \<open>openstack.go\<close> and \<open>transform.go\<close>.

  What these call outside the repository is gathered in the record \<open>externals\<close>: the Kubernetes
  API through a client \<open>'c\<close> (each call may change the world \<open>'w\<close>), the accessors of its
  unstructured objects \<open>'o\<close>, the jq engine with its compiled queries \<open>'q\<close>, and the YAML decoders.
  A dynamic value of jq or YAML is a \<^typ>\<open>yaml\<close>.

  The lemmas: listing keeps the identity and order of what the API returns and attaches only
  the non-empty string fields; the OpenStack environment holds exactly the non-empty settings
  of the selected cloud; a tunnel is asked for only with a restriction, a host and a port.
\<close>

section \<open>The outside\<close>

datatype dynamic = DString string | DInt64 int64 | DFloat64 float64 | DOther

text \<open>The first value of a jq run: none, an error, or a value.\<close>

datatype jq_outcome = JqNone | JqError error | JqValue yaml

record Cloud =
  clAuth :: "(string \<times> string) list"
  clRegionName :: string
  clCacert :: string
  clAuthType :: string
  clInterface :: string
  clIdentityAPIVersion :: string

record ('c, 'o, 'q, 'w) externals =
  xListClusters :: "'c \<Rightarrow> 'w \<Rightarrow> (error + 'o list) \<times> 'w"
  xListOpenStackClusters :: "'c \<Rightarrow> string \<Rightarrow> string \<Rightarrow> 'w \<Rightarrow> (error + 'o list) \<times> 'w"
  xGetSecret :: "'c \<Rightarrow> string \<Rightarrow> string \<Rightarrow> 'w \<Rightarrow> (error + (string \<times> string) list) \<times> 'w"
  xGetNamespace :: "'o \<Rightarrow> string"
  xGetName :: "'o \<Rightarrow> string"
  xNestedString :: "'o \<Rightarrow> string list \<Rightarrow> string"
  xNestedStringSlice :: "'o \<Rightarrow> string list \<Rightarrow> string list"
  xNestedField :: "'o \<Rightarrow> string list \<Rightarrow> dynamic option"
  xFloatToInt :: "float64 \<Rightarrow> int64"
  xJqCompile :: "message \<Rightarrow> error + 'q"
  xJqItems :: "'q \<Rightarrow> 'o list \<Rightarrow> jq_outcome"
  xJqValue :: "'q \<Rightarrow> yaml \<Rightarrow> jq_outcome"
  xYamlUnmarshal :: "string \<Rightarrow> error + yaml"
  xYamlMarshal :: "yaml \<Rightarrow> error + string"
  xParseClouds :: "string \<Rightarrow> error + (string \<times> Cloud) list"
  xLoadContexts :: "string \<Rightarrow> error + string list"

section \<open>Clusters of a context\<close>

definition field_clause :: "(string \<times> string) list \<Rightarrow> string \<Rightarrow> message" where
  "field_clause customFields k =
     [Quoted k, Lit ('': ('' @ (case map_of customFields k of Some v \<Rightarrow> v | None \<Rightarrow> []) @ '')'')]"

fun join_messages :: "string \<Rightarrow> message list \<Rightarrow> message" where
  "join_messages sep [] = []"
| "join_messages sep [p] = p"
| "join_messages sep (p # q # ps) = p @ [Lit sep] @ join_messages sep (q # ps)"

definition custom_query :: "(string \<times> string) list \<Rightarrow> message" where
  "custom_query customFields =
     (let keys = sort (map fst customFields)
      in [Lit ''[.items[] | {''] @ join_messages '', '' (map (field_clause customFields) keys)
           @ [Lit ''}]''])"

fun nonempty_strings :: "(string \<times> yaml) list \<Rightarrow> (string \<times> string) list" where
  "nonempty_strings [] = []"
| "nonempty_strings ((k, v) # obj) =
     (case as_string v of
        Some s \<Rightarrow> if s \<noteq> [] then (k, s) # nonempty_strings obj else nonempty_strings obj
      | None \<Rightarrow> nonempty_strings obj)"

definition result_fields :: "yaml \<Rightarrow> (string \<times> string) list" where
  "result_fields raw = (case as_map raw of Some obj \<Rightarrow> nonempty_strings obj | None \<Rightarrow> [])"

text \<open>\<open>%T\<close>; the other dynamic values of jq are its big integers.\<close>

fun go_type :: "yaml \<Rightarrow> string" where
  "go_type YNull = ''<nil>''"
| "go_type (YBool _) = ''bool''"
| "go_type (YInt _) = ''int''"
| "go_type (YInt64 _) = ''int64''"
| "go_type (YFloat _) = ''float64''"
| "go_type (YString _) = ''string''"
| "go_type (YList _) = ''[]interface {}''"
| "go_type (YMap _) = ''map[string]interface {}''"
| "go_type YOther = ''*big.Int''"

definition evalCustomFields ::
  "('c, 'o, 'q, 'w) externals \<Rightarrow> 'o list \<Rightarrow> (string \<times> string) list
    \<Rightarrow> error + (string \<times> string) list list" where
  "evalCustomFields ext items customFields =
     (case xJqCompile ext (custom_query customFields) of
        Inl e \<Rightarrow> Inl e
      | Inr code \<Rightarrow>
        (case xJqItems ext code items of
           JqNone \<Rightarrow> Inl (Errorf [Txt ''jq: produced no output''])
         | JqError e \<Rightarrow> Inl e
         | JqValue (YList rawResults) \<Rightarrow> Inr (map result_fields rawResults)
         | JqValue v \<Rightarrow> Inl (Errorf [Txt (''jq: expected an array result, got '' @ go_type v)])))"

definition cluster_of_item ::
  "('c, 'o, 'q, 'w) externals \<Rightarrow> string \<Rightarrow> string \<Rightarrow> 'o \<Rightarrow> CAPICluster" where
  "cluster_of_item ext kubeconfigName context item =
     \<lparr>cKubeconfigName = kubeconfigName, cContext = context, cNamespace = xGetNamespace ext item,
      cName = xGetName ext item, cCustomFields = []\<rparr>"

text \<open>The loop that attaches the fields: as far as there are results, and only non-empty maps.\<close>

fun attach_fields ::
  "CAPICluster list \<Rightarrow> (string \<times> string) list list \<Rightarrow> CAPICluster list" where
  "attach_fields [] fs = []"
| "attach_fields (c # cs) [] = c # cs"
| "attach_fields (c # cs) (f # fs) =
     (if f \<noteq> [] then c\<lparr>cCustomFields := f\<rparr> else c) # attach_fields cs fs"

definition ListClustersForContext ::
  "('c, 'o, 'q, 'w) externals \<Rightarrow> 'c \<Rightarrow> string \<Rightarrow> string \<Rightarrow> (string \<times> string) list
    \<Rightarrow> (error + CAPICluster list, 'w) proc" where
  "ListClustersForContext ext dyn kubeconfigName context customFields =
     try_wrap ''capi: listing clusters: '' (act (xListClusters ext dyn)) (\<lambda>items.
       let clusters = map (cluster_of_item ext kubeconfigName context) items in
       if clusters = [] \<or> customFields = [] then Ret (Inr clusters)
       else case evalCustomFields ext items customFields of
           Inl e \<Rightarrow> Ret (Inl (Errorf [Txt ''capi: evaluating custom_fields: '', Wrp e]))
         | Inr fieldValues \<Rightarrow> Ret (Inr (attach_fields clusters fieldValues)))"

definition GetContexts ::
  "('c, 'o, 'q, 'w) externals \<Rightarrow> string \<Rightarrow> error + string list" where
  "GetContexts ext kubeconfigYAML =
     (case xLoadContexts ext kubeconfigYAML of Inl e \<Rightarrow> Inl e | Inr names \<Rightarrow> Inr (sort names))"

section \<open>The admin kubeconfig\<close>

definition FetchWorkloadKubeconfig ::
  "('c, 'o, 'q, 'w) externals \<Rightarrow> 'c \<Rightarrow> string \<Rightarrow> string \<Rightarrow> (error + string, 'w) proc" where
  "FetchWorkloadKubeconfig ext core namespace clusterName =
     (let name = clusterName @ ''-kubeconfig'' in
      try_wrap (''capi: fetching secret '' @ namespace @ ''/'' @ name @ '': '')
        (act (xGetSecret ext core namespace name)) (\<lambda>data.
        case map_of data ''value'' of
          Some value \<Rightarrow>
            if value = [] then
              Ret (Inl (Errorf [Txt ''fetchWorkloadKubeconfig: secret '', Qtd name,
                Txt '' has no 'value' key'']))
            else Ret (Inr value)
        | None \<Rightarrow>
            Ret (Inl (Errorf [Txt ''fetchWorkloadKubeconfig: secret '', Qtd name,
              Txt '' has no 'value' key'']))))"

definition transform_query :: "KubeconfigTransforms \<Rightarrow> string" where
  "transform_query t =
     Join '' | ''
       ((if tClusters t \<noteq> [] then [''.clusters |= map('' @ tClusters t @ '')''] else [])
        @ (if tContexts t \<noteq> [] then [''.contexts |= map('' @ tContexts t @ '')''] else [])
        @ (if tUsers t \<noteq> [] then [''.users |= map('' @ tUsers t @ '')''] else []))"

definition ApplyKubeconfigTransform ::
  "('c, 'o, 'q, 'w) externals \<Rightarrow> string \<Rightarrow> KubeconfigTransforms \<Rightarrow> error + string" where
  "ApplyKubeconfigTransform ext kcYAML transforms =
     (case xJqCompile ext [Lit (transform_query transforms)] of
        Inl e \<Rightarrow> Inl e
      | Inr code \<Rightarrow>
        (case xYamlUnmarshal ext kcYAML of
           Inl e \<Rightarrow> Inl (Errorf [Txt ''capi: parsing kubeconfig for transform: '', Wrp e])
         | Inr input \<Rightarrow>
           (case xJqValue ext code input of
              JqNone \<Rightarrow> Inl (Errorf [Txt ''jq: transform produced no output''])
            | JqError e \<Rightarrow> Inl e
            | JqValue v \<Rightarrow>
              (case xYamlMarshal ext v of
                 Inl e \<Rightarrow> Inl (Errorf [Txt ''capi: rendering transformed kubeconfig: '', Wrp e])
               | Inr out \<Rightarrow> Inr out))))"

section \<open>OpenStack\<close>

definition cluster_label :: "string \<Rightarrow> string" where
  "cluster_label clusterName = ''cluster.x-k8s.io/cluster-name='' @ clusterName"

definition fetchOpenStackCluster ::
  "('c, 'o, 'q, 'w) externals \<Rightarrow> 'c \<Rightarrow> string \<Rightarrow> string \<Rightarrow> (error + 'o option, 'w) proc" where
  "fetchOpenStackCluster ext dyn namespace clusterName =
     try_wrap ''capi: listing OpenStackClusters: ''
       (act (xListOpenStackClusters ext dyn namespace (cluster_label clusterName))) (\<lambda>items.
       case items of [] \<Rightarrow> Ret (Inr None) | item # _ \<Rightarrow> Ret (Inr (Some item)))"

text \<open>\<open>m[k]\<close> on a map of strings, and the local function \<open>set\<close>.\<close>

definition slookup :: "(string \<times> string) list \<Rightarrow> string \<Rightarrow> string" where
  "slookup m k = (case map_of m k of None \<Rightarrow> [] | Some v \<Rightarrow> v)"

definition set_env :: "string \<Rightarrow> string \<Rightarrow> (string \<times> string) list \<Rightarrow> (string \<times> string) list" where
  "set_env k v env = (if v \<noteq> [] then AList.update k v env else env)"

definition openstack_settings :: "Cloud \<Rightarrow> (string \<times> string) list" where
  "openstack_settings cloud =
     [(''OS_AUTH_URL'', slookup (clAuth cloud) ''auth_url''),
      (''OS_USERNAME'', slookup (clAuth cloud) ''username''),
      (''OS_PASSWORD'', slookup (clAuth cloud) ''password''),
      (''OS_PROJECT_NAME'', slookup (clAuth cloud) ''project_name''),
      (''OS_USER_DOMAIN_NAME'', slookup (clAuth cloud) ''user_domain_name''),
      (''OS_PROJECT_DOMAIN_NAME'', slookup (clAuth cloud) ''project_domain_name''),
      (''OS_REGION_NAME'', clRegionName cloud),
      (''OS_CACERT'', clCacert cloud),
      (''OS_APPLICATION_CREDENTIAL_ID'', slookup (clAuth cloud) ''application_credential_id''),
      (''OS_APPLICATION_CREDENTIAL_SECRET'', slookup (clAuth cloud) ''application_credential_secret''),
      (''OS_AUTH_TYPE'',
        if clAuthType cloud = [] then slookup (clAuth cloud) ''auth_type'' else clAuthType cloud),
      (''OS_INTERFACE'', clInterface cloud),
      (''OS_IDENTITY_API_VERSION'', clIdentityAPIVersion cloud)]"

definition openstack_env :: "Cloud \<Rightarrow> (string \<times> string) list" where
  "openstack_env cloud = fold (\<lambda>(k, v). set_env k v) (openstack_settings cloud) []"

definition openstack_secret :: "('c, 'o, 'q, 'w) externals \<Rightarrow> 'o \<Rightarrow> string \<Rightarrow> string" where
  "openstack_secret ext osc clusterName =
     (let secretName = xNestedString ext osc [''spec'', ''identityRef'', ''name'']
      in if secretName = [] then clusterName @ ''-cloud-config'' else secretName)"

definition openstack_cloud :: "('c, 'o, 'q, 'w) externals \<Rightarrow> 'o \<Rightarrow> string" where
  "openstack_cloud ext osc =
     (let cloudName = xNestedString ext osc [''spec'', ''cloudName'']
      in if cloudName = [] then ''openstack'' else cloudName)"

definition FetchOpenStackEnv ::
  "('c, 'o, 'q, 'w) externals \<Rightarrow> 'c \<Rightarrow> 'c \<Rightarrow> string \<Rightarrow> string
    \<Rightarrow> (error + (string \<times> string) list, 'w) proc" where
  "FetchOpenStackEnv ext dyn core namespace clusterName =
     try_proc (fetchOpenStackCluster ext dyn namespace clusterName) (\<lambda>found.
     case found of
       None \<Rightarrow> Ret (Inl (Errorf [Txt (''No OpenStackCluster found for cluster '' @
         in_quotes clusterName @ '' in namespace '' @ in_quotes namespace)]))
     | Some osc \<Rightarrow>
       let secretName = openstack_secret ext osc clusterName;
           cloudName = openstack_cloud ext osc
       in try_wrap (''capi: fetching secret '' @ namespace @ ''/'' @ secretName @ '': '')
            (act (xGetSecret ext core namespace secretName)) (\<lambda>data.
          let no_key = Errorf [Txt (''Secret '' @ in_quotes secretName @ '' has no 'clouds.yaml' key'')] in
          case map_of data ''clouds.yaml'' of
            None \<Rightarrow> Ret (Inl no_key)
          | Some raw \<Rightarrow>
            if raw = [] then Ret (Inl no_key)
            else case xParseClouds ext raw of
                Inl e \<Rightarrow> Ret (Inl (Errorf [Txt ''capi: parsing clouds.yaml: '', Wrp e]))
              | Inr clouds \<Rightarrow>
                (case map_of clouds cloudName of
                   None \<Rightarrow> Ret (Inl (Errorf [Txt (''OpenStack cloud '' @ in_quotes cloudName @
                     '' not found in clouds.yaml'')]))
                 | Some cloud \<Rightarrow> Ret (Inr (openstack_env cloud)))))"

definition nestedStringOrNumber ::
  "('c, 'o, 'q, 'w) externals \<Rightarrow> 'o \<Rightarrow> string list \<Rightarrow> string" where
  "nestedStringOrNumber ext obj keys =
     (case xNestedField ext obj keys of
        None \<Rightarrow> []
      | Some (DString s) \<Rightarrow> s
      | Some (DInt64 n) \<Rightarrow> Itoa (sint n)
      | Some (DFloat64 f) \<Rightarrow> Itoa (sint (float_to_int (xFloatToInt ext) f))
      | Some DOther \<Rightarrow> [])"

text \<open>The result is \<open>None\<close> where the code returns \<open>ok = false\<close>.\<close>

definition FetchAPIServerInfo ::
  "('c, 'o, 'q, 'w) externals \<Rightarrow> 'c \<Rightarrow> string \<Rightarrow> string
    \<Rightarrow> (error + (string \<times> string) option, 'w) proc" where
  "FetchAPIServerInfo ext dyn namespace clusterName =
     try_proc (fetchOpenStackCluster ext dyn namespace clusterName) (\<lambda>found.
     case found of
       None \<Rightarrow> Ret (Inr None)
     | Some osc \<Rightarrow>
       let cidrs = xNestedStringSlice ext osc [''spec'', ''apiServerLoadBalancer'', ''allowedCIDRs''] in
       if cidrs = [] then Ret (Inr None)
       else
         let host = xNestedString ext osc [''spec'', ''controlPlaneEndpoint'', ''host''];
             port = nestedStringOrNumber ext osc [''spec'', ''controlPlaneEndpoint'', ''port'']
         in if host = [] \<or> port = [] then Ret (Inr None) else Ret (Inr (Some (host, port))))"

section \<open>A cluster in memory\<close>

text \<open>An instance of the externals, to apply the theorems to.\<close>

definition sample_cloud :: Cloud where
  "sample_cloud =
     \<lparr>clAuth = [(''auth_url'', ''https://os''), (''username'', ''u'')], clRegionName = ''r'',
      clCacert = [], clAuthType = [], clInterface = ''public'', clIdentityAPIVersion = ''3''\<rparr>"

definition sample_ext :: "(unit, string \<times> string, unit, 'w) externals" where
  "sample_ext =
     \<lparr>xListClusters = (\<lambda>c w. (Inr [(''ns'', ''c1''), (''ns'', ''c2'')], w)),
      xListOpenStackClusters = (\<lambda>c ns l w. (Inr [(''ns'', ''c1'')], w)),
      xGetSecret = (\<lambda>c ns n w.
        if ns = ''ns'' \<and> n \<in> {''c1-kubeconfig'', ''c2-kubeconfig'', ''c1-cloud-config''}
        then (Inr [(''value'', ''kc-'' @ take 2 n), (''clouds.yaml'', ''y'')], w)
        else (Inl (ApiError OtherReason ''not found''), w)),
      xGetNamespace = fst,
      xGetName = snd,
      xNestedString = (\<lambda>x ks. if ks = [''spec'', ''controlPlaneEndpoint'', ''host''] then ''10.0.0.1'' else []),
      xNestedStringSlice = (\<lambda>x ks. [''10.0.0.0/8'']),
      xNestedField = (\<lambda>x ks. Some (DInt64 5)),
      xFloatToInt = (\<lambda>f. 0),
      xJqCompile = (\<lambda>q. Inr ()),
      xJqItems = (\<lambda>q xs. JqValue (YList [YMap [(''env'', YString ''prod'')], YMap []])),
      xJqValue = (\<lambda>q v. JqValue v),
      xYamlUnmarshal = (\<lambda>s. Inr (YString s)),
      xYamlMarshal = (\<lambda>v. Inr (case v of YString s \<Rightarrow> s | _ \<Rightarrow> [])),
      xParseClouds = (\<lambda>s. Inr [(''openstack'', sample_cloud)]),
      xLoadContexts = (\<lambda>s. Inr [''b'', ''a''])\<rparr>"

lemma sample_ext_sel [simp]:
  "xListClusters sample_ext c w = (Inr [(''ns'', ''c1''), (''ns'', ''c2'')], w)"
  "xListOpenStackClusters sample_ext c ns l w = (Inr [(''ns'', ''c1'')], w)"
  "xGetSecret sample_ext c ns n w =
     (if ns = ''ns'' \<and> n \<in> {''c1-kubeconfig'', ''c2-kubeconfig'', ''c1-cloud-config''}
      then (Inr [(''value'', ''kc-'' @ take 2 n), (''clouds.yaml'', ''y'')], w)
      else (Inl (ApiError OtherReason ''not found''), w))"
  "xGetNamespace sample_ext = fst"
  "xGetName sample_ext = snd"
  "xNestedStringSlice sample_ext x ks = [''10.0.0.0/8'']"
  "xNestedField sample_ext x ks = Some (DInt64 5)"
  "xJqCompile sample_ext q = Inr ()"
  "xJqItems sample_ext u xs = JqValue (YList [YMap [(''env'', YString ''prod'')], YMap []])"
  "xJqValue sample_ext u v = JqValue v"
  "xParseClouds sample_ext s = Inr [(''openstack'', sample_cloud)]"
  "xLoadContexts sample_ext s = Inr [''b'', ''a'']"
  "xNestedString sample_ext x ks =
     (if ks = [''spec'', ''controlPlaneEndpoint'', ''host''] then ''10.0.0.1'' else [])"
  by (simp_all add: sample_ext_def)

section \<open>Listing\<close>

lemma path_attach_fields [simp]: "map path (attach_fields cs fs) = map path cs"
  by (induction cs fs rule: attach_fields.induct) (auto simp: path_def)

lemma length_attach_fields [simp]: "length (attach_fields cs fs) = length cs"
  by (induction cs fs rule: attach_fields.induct) auto

lemma attach_fields_nth:
  "i < length cs \<Longrightarrow> cCustomFields (attach_fields cs fs ! i) =
     (if i < length fs \<and> fs ! i \<noteq> [] then fs ! i else cCustomFields (cs ! i))"
  by (induction cs fs arbitrary: i rule: attach_fields.induct) (auto simp: nth_Cons split: nat.split)

lemma set_nonempty_strings:
  "(k, s) \<in> set (nonempty_strings obj) \<longleftrightarrow> (k, YString s) \<in> set obj \<and> s \<noteq> []"
proof (induction obj)
  case (Cons x obj)
  then show ?case by (cases x; cases "snd x") auto
qed simp

text \<open>The query does not depend on the order the map of expressions is visited in.\<close>

lemma custom_query_order:
  assumes "distinct (map fst m)" and "set m = set m'" and "distinct (map fst m')"
  shows "custom_query m = custom_query m'"
proof -
  have eq: "map_of m = map_of m'" using assms by (simp add: map_of_inject_set)
  have "sort (map fst n) = sorted_list_of_set (fst ` set n)" if "distinct (map fst n)"
    for n :: "(string \<times> string) list"
    using that sorted_list_of_set_sort_remdups [of "map fst n"] by (simp add: distinct_remdups_id)
  with assms have "sort (map fst m) = sort (map fst m')" by simp
  moreover have "field_clause m = field_clause m'" by (rule ext) (simp add: field_clause_def eq)
  ultimately show ?thesis by (simp add: custom_query_def)
qed

lemma evalCustomFields_nonempty:
  assumes "evalCustomFields ext items cf = Inr fs" and "f \<in> set fs" and "(k, v) \<in> set f"
  shows "v \<noteq> []"
proof -
  obtain raws where "fs = map result_fields raws"
    using assms(1) by (auto simp: evalCustomFields_def split: sum.splits jq_outcome.splits yaml.splits)
  with assms(2,3) show ?thesis
    by (auto simp: result_fields_def set_nonempty_strings split: option.splits)
qed

text \<open>
  Listing a context keeps one cluster per item the API returned, in its order, each with the
  kubeconfig and context it was asked through and the item's own namespace and name; custom
  fields only ever add non-empty strings, and the world is left as the one API call left it.
\<close>

theorem ListClustersForContext_identity:
  assumes "run (ListClustersForContext ext dyn k ctx cf) w = (Inr cs, w')"
  shows "\<exists>items. xListClusters ext dyn w = (Inr items, w')
     \<and> map path cs = map (\<lambda>i. [k, ctx, xGetNamespace ext i, xGetName ext i]) items
     \<and> list_all (\<lambda>c. list_all (\<lambda>(f, v). v \<noteq> []) (cCustomFields c)) cs"
proof -
  obtain r w1 where api: "xListClusters ext dyn w = (r, w1)" by fastforce
  with assms obtain items where r: "r = Inr items"
    by (cases r) (auto simp: ListClustersForContext_def)
  define cl where "cl = map (cluster_of_item ext k ctx) items"
  have path: "map path cl = map (\<lambda>i. [k, ctx, xGetNamespace ext i, xGetName ext i]) items"
    by (simp add: cl_def cluster_of_item_def path_def)
  have empty: "cCustomFields c = []" if "c \<in> set cl" for c
    using that by (auto simp: cl_def cluster_of_item_def)
  show ?thesis
  proof (cases "cl = [] \<or> cf = []")
    case True
    with assms api r have "cs = cl" "w' = w1"
      by (auto simp: ListClustersForContext_def Let_def cl_def)
    with api r path empty show ?thesis by (auto simp: list_all_iff)
  next
    case False
    with assms api r obtain fs where fs: "evalCustomFields ext items cf = Inr fs"
      "cs = attach_fields cl fs" "w' = w1"
      by (auto simp: ListClustersForContext_def Let_def cl_def split: sum.splits if_splits)
    have "v \<noteq> []" if "i < length cs" "(f, v) \<in> set (cCustomFields (cs ! i))" for i f v
      using that fs(2) empty evalCustomFields_nonempty [OF fs(1)]
      by (auto simp: attach_fields_nth split: if_splits) (metis nth_mem)+
    then have "\<forall>i < length cs. list_all (\<lambda>(f, v). v \<noteq> []) (cCustomFields (cs ! i))"
      by (auto simp: list_all_iff)
    then have "list_all (\<lambda>c. list_all (\<lambda>(f, v). v \<noteq> []) (cCustomFields c)) cs"
      by (simp only: list_all_length [of _ cs])
    with api r path fs show ?thesis by auto
  qed
qed

theorem ListClustersForContext_identity_witness:
  "\<exists>items. xListClusters sample_ext () (7 :: nat) = (Inr items, 7) \<and> length items = 2"
  using ListClustersForContext_identity [of sample_ext "()" "''k''" "''x''" "[(''env'', ''.env'')]" "7 :: nat"]
  by (auto simp: ListClustersForContext_def evalCustomFields_def cluster_of_item_def
      result_fields_def dest: map_eq_imp_length_eq)

section \<open>OpenStack settings\<close>

lemma map_of_set_env:
  "map_of (set_env k v env) = (if v = [] then map_of env else (map_of env)(k \<mapsto> v))"
  by (simp add: set_env_def update_conv')

lemma map_of_fold_set_env:
  "distinct (map fst kvs) \<Longrightarrow> map_of (fold (\<lambda>(k, v). set_env k v) kvs env) k =
     (case map_of kvs k of
        Some v \<Rightarrow> if v = [] then map_of env k else Some v
      | None \<Rightarrow> map_of env k)"
proof (induction kvs arbitrary: env)
  case (Cons x kvs)
  obtain k' v where x: "x = (k', v)" by (cases x)
  with Cons.prems have "map_of kvs k' = None" by (simp add: map_of_eq_None_iff)
  with Cons x show ?case by (auto simp: map_of_set_env split: option.split)
qed simp

lemma distinct_fold_set_env:
  "distinct (map fst env) \<Longrightarrow> distinct (map fst (fold (\<lambda>(k, v). set_env k v) kvs env))"
  by (induction kvs arbitrary: env) (auto simp: set_env_def distinct_update)

lemma openstack_settings_distinct: "distinct (map fst (openstack_settings cloud))"
  by (simp add: openstack_settings_def)

lemma map_of_openstack_env:
  "map_of (openstack_env cloud) k =
     (case map_of (openstack_settings cloud) k of
        Some v \<Rightarrow> if v = [] then None else Some v
      | None \<Rightarrow> None)"
  by (simp add: openstack_env_def map_of_fold_set_env [OF openstack_settings_distinct]
        split: option.split)

lemma distinct_openstack_env: "distinct (map fst (openstack_env cloud))"
  by (simp add: openstack_env_def distinct_fold_set_env)



text \<open>
  A tunnel target is reported only for a cluster whose OpenStackCluster restricts the allowed
  CIDRs and has both a host and a port; those are what is reported.
\<close>

theorem FetchAPIServerInfo_restricted:
  assumes "run (FetchAPIServerInfo ext dyn ns cluster) w = (Inr (Some (host, port)), w')"
  shows "\<exists>osc rest.
     xListOpenStackClusters ext dyn ns (cluster_label cluster) w
       = (Inr (osc # rest), w')
     \<and> xNestedStringSlice ext osc [''spec'', ''apiServerLoadBalancer'', ''allowedCIDRs''] \<noteq> []
     \<and> host = xNestedString ext osc [''spec'', ''controlPlaneEndpoint'', ''host''] \<and> host \<noteq> []
     \<and> port = nestedStringOrNumber ext osc [''spec'', ''controlPlaneEndpoint'', ''port''] \<and> port \<noteq> []"
  using assms
  by (auto simp: FetchAPIServerInfo_def fetchOpenStackCluster_def Let_def
      split: prod.splits sum.splits list.splits if_splits)

theorem FetchAPIServerInfo_restricted_witness:
  "''10.0.0.1'' = xNestedString sample_ext (''ns'', ''c1'') [''spec'', ''controlPlaneEndpoint'', ''host'']"
proof -
  have "run (FetchAPIServerInfo sample_ext () ''ns'' ''c1'') (7 :: nat) = (Inr (Some (''10.0.0.1'', ''5'')), 7)"
    by (simp add: FetchAPIServerInfo_def fetchOpenStackCluster_def Let_def nestedStringOrNumber_def
        Itoa_def nat_digits.simps [of 5] digit_def)
  from FetchAPIServerInfo_restricted [OF this] show ?thesis by auto
qed

end
