(* ===== verification/ReadOnly.thy ===== *)
theory ReadOnly
  imports Kube
begin

text \<open>
  \<open>internal/capi/readonly.go\<close>: the read-only access of a workload cluster, its ServiceAccount,
  ClusterRole and ClusterRoleBinding, and the kubeconfig minted from a fresh token.

  The API calls are the record \<open>rbac_api\<close>; each takes a client and may change the world. What the
  API server promises about them is the predicate \<open>serves\<close> over a view of the objects it stores:
  creation fails on an existing object, a binding's role reference cannot be changed by an
  update, and a call that fails for another reason changes nothing.

  The lemmas: from any prior state of the cluster, a successful run leaves exactly the three
  objects of the code; the minted kubeconfig depends on the admin kubeconfig through the
  server address and the CA only.
\<close>

section \<open>Objects\<close>

record PolicyRule =
  prAPIGroups :: "string list"
  prResources :: "string list"
  prNonResourceURLs :: "string list"
  prVerbs :: "string list"

record ClusterRole =
  crName :: string
  crRules :: "PolicyRule list"

record RoleRef =
  rrAPIGroup :: string
  rrKind :: string
  rrName :: string

record Subject =
  sjKind :: string
  sjName :: string
  sjNamespace :: string

record ClusterRoleBinding =
  cbName :: string
  cbRoleRef :: RoleRef
  cbSubjects :: "Subject list"

definition readOnlySAName :: string where
  "readOnlySAName = ''capi-shell-mcp-read-only''"

definition readOnlyNamespace :: string where
  "readOnlyNamespace = ''kube-system''"

definition readOnlyClusterRole :: ClusterRole where
  "readOnlyClusterRole =
     \<lparr>crName = readOnlySAName,
      crRules =
        [\<lparr>prAPIGroups = [''*''], prResources = [''*''], prNonResourceURLs = [],
          prVerbs = [''get'', ''list'', ''watch'']\<rparr>,
         \<lparr>prAPIGroups = [], prResources = [], prNonResourceURLs = [''*''], prVerbs = [''get'']\<rparr>]\<rparr>"

definition readOnlyClusterRoleBinding :: ClusterRoleBinding where
  "readOnlyClusterRoleBinding =
     \<lparr>cbName = readOnlySAName,
      cbRoleRef = \<lparr>rrAPIGroup = ''rbac.authorization.k8s.io'', rrKind = ''ClusterRole'',
                   rrName = readOnlySAName\<rparr>,
      cbSubjects = [\<lparr>sjKind = ''ServiceAccount'', sjName = readOnlySAName,
                     sjNamespace = readOnlyNamespace\<rparr>]\<rparr>"

section \<open>Ensuring the access\<close>

record ('c, 'w) rbac_api =
  rCreateServiceAccount :: "'c \<Rightarrow> string \<Rightarrow> string \<Rightarrow> 'w \<Rightarrow> (error + unit) \<times> 'w"
  rCreateClusterRole :: "'c \<Rightarrow> ClusterRole \<Rightarrow> 'w \<Rightarrow> (error + unit) \<times> 'w"
  rUpdateClusterRole :: "'c \<Rightarrow> ClusterRole \<Rightarrow> 'w \<Rightarrow> (error + unit) \<times> 'w"
  rCreateBinding :: "'c \<Rightarrow> ClusterRoleBinding \<Rightarrow> 'w \<Rightarrow> (error + unit) \<times> 'w"
  rUpdateBinding :: "'c \<Rightarrow> ClusterRoleBinding \<Rightarrow> 'w \<Rightarrow> (error + unit) \<times> 'w"
  rDeleteBinding :: "'c \<Rightarrow> string \<Rightarrow> 'w \<Rightarrow> (error + unit) \<times> 'w"
  rCreateToken :: "'c \<Rightarrow> string \<Rightarrow> string \<Rightarrow> int64 \<Rightarrow> 'w \<Rightarrow> (error + string) \<times> 'w"

fun isImmutableRoleRefError :: "error \<Rightarrow> bool" where
  "isImmutableRoleRefError (ApiError r m) =
     (IsInvalid (ApiError r m) \<and> Contains m ''roleRef'' \<and> Contains m ''immutable'')"
| "isImmutableRoleRefError _ = False"

definition ensure_account :: "('c, 'w) rbac_api \<Rightarrow> 'c \<Rightarrow> (error + unit, 'w) proc" where
  "ensure_account api core =
     bind_proc (act (rCreateServiceAccount api core readOnlyNamespace readOnlySAName)) (\<lambda>r.
       case r of
         Inl err \<Rightarrow>
           if \<not> IsAlreadyExists err
           then Ret (Inl (Errorf [Txt ''capi: creating read-only ServiceAccount: '', Wrp err]))
           else Ret (Inr ())
       | Inr _ \<Rightarrow> Ret (Inr ()))"

definition ensure_role :: "('c, 'w) rbac_api \<Rightarrow> 'c \<Rightarrow> (error + unit, 'w) proc" where
  "ensure_role api rbac =
     bind_proc (act (rCreateClusterRole api rbac readOnlyClusterRole)) (\<lambda>r.
       case r of
         Inr _ \<Rightarrow> Ret (Inr ())
       | Inl err \<Rightarrow>
           if \<not> IsAlreadyExists err
           then Ret (Inl (Errorf [Txt ''capi: creating read-only ClusterRole: '', Wrp err]))
           else try_wrap ''capi: replacing read-only ClusterRole: ''
                  (act (rUpdateClusterRole api rbac readOnlyClusterRole)) (\<lambda>_. Ret (Inr ())))"

definition ensure_binding :: "('c, 'w) rbac_api \<Rightarrow> 'c \<Rightarrow> (error + unit, 'w) proc" where
  "ensure_binding api rbac =
     bind_proc (act (rCreateBinding api rbac readOnlyClusterRoleBinding)) (\<lambda>r.
       case r of
         Inr _ \<Rightarrow> Ret (Inr ())
       | Inl err \<Rightarrow>
           if \<not> IsAlreadyExists err
           then Ret (Inl (Errorf [Txt ''capi: creating read-only ClusterRoleBinding: '', Wrp err]))
           else
             bind_proc (act (rUpdateBinding api rbac readOnlyClusterRoleBinding)) (\<lambda>r2.
               case r2 of
                 Inr _ \<Rightarrow> Ret (Inr ())
               | Inl err2 \<Rightarrow>
                   if \<not> isImmutableRoleRefError err2
                   then Ret (Inl (Errorf
                          [Txt ''capi: replacing read-only ClusterRoleBinding: '', Wrp err2]))
                   else
                     try_wrap ''capi: deleting read-only ClusterRoleBinding for recreate: ''
                       (act (rDeleteBinding api rbac readOnlySAName)) (\<lambda>_.
                     try_wrap ''capi: recreating read-only ClusterRoleBinding: ''
                       (act (rCreateBinding api rbac readOnlyClusterRoleBinding)) (\<lambda>_.
                     Ret (Inr ())))))"

definition EnsureReadOnlyRBAC ::
  "('c, 'w) rbac_api \<Rightarrow> 'c \<Rightarrow> 'c \<Rightarrow> (error + unit, 'w) proc" where
  "EnsureReadOnlyRBAC api core rbac =
     try_proc (ensure_account api core) (\<lambda>_.
     try_proc (ensure_role api rbac) (\<lambda>_.
     ensure_binding api rbac))"

section \<open>Minting the kubeconfig\<close>

text \<open>
  The first cluster of the admin kubeconfig, decoded into the struct: \<open>parse\<close> yields the
  server and the CA of each entry of its \<open>clusters\<close>.
\<close>

definition readonly_config :: "string \<Rightarrow> string \<Rightarrow> string \<Rightarrow> yaml" where
  "readonly_config server ca token =
     YMap
       [(''apiVersion'', YString ''v1''),
        (''kind'', YString ''Config''),
        (''clusters'', YList [YMap
           [(''name'', YString ''workload''),
            (''cluster'', YMap
              [(''server'', YString server),
               (''certificate-authority-data'', YString ca)])]]),
        (''contexts'', YList [YMap
           [(''name'', YString ''readonly''),
            (''context'', YMap
              [(''cluster'', YString ''workload''),
               (''user'', YString readOnlySAName),
               (''namespace'', YString readOnlyNamespace)])]]),
        (''current-context'', YString ''readonly''),
        (''users'', YList [YMap
           [(''name'', YString readOnlySAName),
            (''user'', YMap [(''token'', YString token)])]])]"

definition CreateReadOnlyKubeconfig ::
  "('c, 'w) rbac_api \<Rightarrow> (string \<Rightarrow> error + (string \<times> string) list) \<Rightarrow> (yaml \<Rightarrow> error + string)
    \<Rightarrow> 'c \<Rightarrow> 'c \<Rightarrow> string \<Rightarrow> int64 \<Rightarrow> (error + string, 'w) proc" where
  "CreateReadOnlyKubeconfig api parse marshal core rbac adminKcYAML durationSeconds =
     (case parse adminKcYAML of
        Inl e \<Rightarrow> Ret (Inl (Errorf [Txt ''capi: parsing admin kubeconfig: '', Wrp e]))
      | Inr [] \<Rightarrow>
          Ret (Inl (Errorf [Txt ''createReadOnlyKubeconfig: no cluster found in admin kubeconfig'']))
      | Inr ((server, ca) # _) \<Rightarrow>
          try_proc (EnsureReadOnlyRBAC api core rbac) (\<lambda>_.
          try_wrap ''capi: requesting read-only token: ''
            (act (rCreateToken api core readOnlyNamespace readOnlySAName durationSeconds)) (\<lambda>tok.
          let token = TrimSpace tok in
          if token = [] then
            Ret (Inl (Errorf [Txt ''createReadOnlyKubeconfig: token request returned no token'']))
          else case marshal (readonly_config server ca token) of
              Inl e \<Rightarrow> Ret (Inl (Errorf [Txt ''capi: rendering read-only kubeconfig: '', Wrp e]))
            | Inr b \<Rightarrow> Ret (Inr b))))"

section \<open>What the API server promises\<close>

record rbac_objects =
  obAccounts :: "(string \<times> string) set"
  obRoles :: "string \<rightharpoonup> ClusterRole"
  obBindings :: "string \<rightharpoonup> ClusterRoleBinding"

text \<open>A call that fails for a reason of its own, and changes nothing.\<close>

definition failed :: "bool \<Rightarrow> error + unit \<Rightarrow> rbac_objects \<Rightarrow> rbac_objects \<Rightarrow> bool" where
  "failed reliable r o1 o2 =
     (\<not> reliable \<and> o2 = o1
      \<and> (case r of Inl e \<Rightarrow> \<not> IsAlreadyExists e \<and> \<not> isImmutableRoleRefError e | Inr _ \<Rightarrow> False))"

definition exists_error :: "error + unit \<Rightarrow> bool" where
  "exists_error r = (case r of Inl e \<Rightarrow> IsAlreadyExists e | Inr _ \<Rightarrow> False)"

definition immutable_error :: "error + unit \<Rightarrow> bool" where
  "immutable_error r = (case r of Inl e \<Rightarrow> isImmutableRoleRefError e | Inr _ \<Rightarrow> False)"

text \<open>
  \<open>serves\<close>: what the Kubernetes API documents of these calls, on the objects \<open>view w\<close> of the
  cluster behind the clients. When \<open>reliable\<close>, a call has no failure but the documented ones.
\<close>

definition serves ::
  "bool \<Rightarrow> ('c, 'w) rbac_api \<Rightarrow> 'c \<Rightarrow> 'c \<Rightarrow> ('w \<Rightarrow> rbac_objects) \<Rightarrow> bool" where
  "serves reliable api core rbac view =
     ((\<forall>ns n w r w'. rCreateServiceAccount api core ns n w = (r, w') \<longrightarrow>
        failed reliable r (view w) (view w')
        \<or> (if (ns, n) \<in> obAccounts (view w) then exists_error r \<and> view w' = view w
           else r = Inr () \<and> view w' = (view w)\<lparr>obAccounts := insert (ns, n) (obAccounts (view w))\<rparr>))
    \<and> (\<forall>x w r w'. rCreateClusterRole api rbac x w = (r, w') \<longrightarrow>
        failed reliable r (view w) (view w')
        \<or> (if obRoles (view w) (crName x) \<noteq> None then exists_error r \<and> view w' = view w
           else r = Inr () \<and> view w' = (view w)\<lparr>obRoles := (obRoles (view w))(crName x \<mapsto> x)\<rparr>))
    \<and> (\<forall>x w r w'. rUpdateClusterRole api rbac x w = (r, w') \<longrightarrow> obRoles (view w) (crName x) \<noteq> None \<longrightarrow>
        failed reliable r (view w) (view w')
        \<or> r = Inr () \<and> view w' = (view w)\<lparr>obRoles := (obRoles (view w))(crName x \<mapsto> x)\<rparr>)
    \<and> (\<forall>x w r w'. rCreateBinding api rbac x w = (r, w') \<longrightarrow>
        failed reliable r (view w) (view w')
        \<or> (if obBindings (view w) (cbName x) \<noteq> None then exists_error r \<and> view w' = view w
           else r = Inr () \<and> view w' = (view w)\<lparr>obBindings := (obBindings (view w))(cbName x \<mapsto> x)\<rparr>))
    \<and> (\<forall>x y w r w'. rUpdateBinding api rbac x w = (r, w') \<longrightarrow> obBindings (view w) (cbName x) = Some y \<longrightarrow>
        failed reliable r (view w) (view w')
        \<or> (if cbRoleRef y \<noteq> cbRoleRef x then immutable_error r \<and> view w' = view w
           else r = Inr () \<and> view w' = (view w)\<lparr>obBindings := (obBindings (view w))(cbName x \<mapsto> x)\<rparr>))
    \<and> (\<forall>n w r w'. rDeleteBinding api rbac n w = (r, w') \<longrightarrow> obBindings (view w) n \<noteq> None \<longrightarrow>
        failed reliable r (view w) (view w')
        \<or> r = Inr () \<and> view w' = (view w)\<lparr>obBindings := (obBindings (view w))(n := None)\<rparr>)
    \<and> (\<forall>ns n d w r w'. rCreateToken api core ns n d w = (r, w') \<longrightarrow> view w' = view w))"

text \<open>The objects after a complete run, and what any run leaves alone.\<close>

definition with_access :: "rbac_objects \<Rightarrow> rbac_objects" where
  "with_access o1 =
     o1\<lparr>obAccounts := insert (readOnlyNamespace, readOnlySAName) (obAccounts o1),
        obRoles := (obRoles o1)(readOnlySAName \<mapsto> readOnlyClusterRole),
        obBindings := (obBindings o1)(readOnlySAName \<mapsto> readOnlyClusterRoleBinding)\<rparr>"

definition same_others :: "rbac_objects \<Rightarrow> rbac_objects \<Rightarrow> bool" where
  "same_others o1 o2 = (with_access o1 = with_access o2)"

lemmas serves_parts =
  serves_def [THEN iffD1, THEN conjunct1]
  serves_def [THEN iffD1, THEN conjunct2, THEN conjunct1]
  serves_def [THEN iffD1, THEN conjunct2, THEN conjunct2, THEN conjunct1]
  serves_def [THEN iffD1, THEN conjunct2, THEN conjunct2, THEN conjunct2, THEN conjunct1]
  serves_def [THEN iffD1, THEN conjunct2, THEN conjunct2, THEN conjunct2, THEN conjunct2, THEN conjunct1]
  serves_def [THEN iffD1, THEN conjunct2, THEN conjunct2, THEN conjunct2, THEN conjunct2, THEN conjunct2,
    THEN conjunct1]
  serves_def [THEN iffD1, THEN conjunct2, THEN conjunct2, THEN conjunct2, THEN conjunct2, THEN conjunct2,
    THEN conjunct2]

lemmas serve_defs = failed_def exists_error_def immutable_error_def

lemma same_others_simps [simp]:
  "same_others o1 o1"
  "same_others o1 (with_access o1)"
  by (auto simp: same_others_def with_access_def)

lemma crName_readOnly [simp]: "crName readOnlyClusterRole = readOnlySAName"
  by (simp add: readOnlyClusterRole_def)

lemma cbName_readOnly [simp]: "cbName readOnlyClusterRoleBinding = readOnlySAName"
  by (simp add: readOnlyClusterRoleBinding_def)

lemma run_ensure_account:
  assumes "serves rel api core rbac view" and "run (ensure_account api core) w = (r, w')"
  shows "(case r of
      Inr _ \<Rightarrow> view w' = (view w)\<lparr>obAccounts := insert (readOnlyNamespace, readOnlySAName) (obAccounts (view w))\<rparr>
    | Inl _ \<Rightarrow> \<not> rel \<and> view w' = view w)"
proof -
  obtain a w1 where a: "rCreateServiceAccount api core readOnlyNamespace readOnlySAName w = (a, w1)"
    by fastforce
  have "failed rel a (view w) (view w1)
     \<or> (if (readOnlyNamespace, readOnlySAName) \<in> obAccounts (view w) then exists_error a \<and> view w1 = view w
        else a = Inr () \<and> view w1 = (view w)\<lparr>obAccounts :=
               insert (readOnlyNamespace, readOnlySAName) (obAccounts (view w))\<rparr>)"
    by (rule serves_parts(1) [OF assms(1), rule_format, OF a])
  moreover have r: "w' = w1 \<and> r = (case a of Inl e \<Rightarrow> if IsAlreadyExists e then Inr () else
           Inl (Errorf [Txt ''capi: creating read-only ServiceAccount: '', Wrp e]) | Inr _ \<Rightarrow> Inr ())"
    using assms(2) a by (cases a) (auto simp: ensure_account_def split: if_splits)
  ultimately show ?thesis
    by (cases a) (auto simp: serve_defs insert_absorb split: if_splits)
qed

lemma run_ensure_role:
  assumes "serves rel api core rbac view" and "run (ensure_role api rbac) w = (r, w')"
  shows "(case r of
      Inr _ \<Rightarrow> view w' = (view w)\<lparr>obRoles := (obRoles (view w))(readOnlySAName \<mapsto> readOnlyClusterRole)\<rparr>
    | Inl _ \<Rightarrow> \<not> rel \<and> view w' = view w)"
proof -
  obtain a w1 where a: "rCreateClusterRole api rbac readOnlyClusterRole w = (a, w1)" by fastforce
  obtain b w2 where b: "rUpdateClusterRole api rbac readOnlyClusterRole w1 = (b, w2)" by fastforce
  have 1: "failed rel a (view w) (view w1)
     \<or> (if obRoles (view w) readOnlySAName \<noteq> None then exists_error a \<and> view w1 = view w
        else a = Inr () \<and> view w1 = (view w)\<lparr>obRoles :=
               (obRoles (view w))(readOnlySAName \<mapsto> readOnlyClusterRole)\<rparr>)"
    using serves_parts(2) [OF assms(1), rule_format, OF a] by (simp only: crName_readOnly)
  have 2: "obRoles (view w1) readOnlySAName \<noteq> None \<Longrightarrow> failed rel b (view w1) (view w2)
     \<or> b = Inr () \<and> view w2 = (view w1)\<lparr>obRoles :=
         (obRoles (view w1))(readOnlySAName \<mapsto> readOnlyClusterRole)\<rparr>"
    using serves_parts(3) [OF assms(1), rule_format, OF b] by (simp only: crName_readOnly not_False_eq_True simp_thms)
  show ?thesis
  proof (cases "\<exists>e. a = Inl e \<and> IsAlreadyExists e")
    case True
    then obtain e where e: "a = Inl e" "IsAlreadyExists e" by blast
    with 1 have v: "view w1 = view w" and "obRoles (view w) readOnlySAName \<noteq> None"
      by (auto simp: serve_defs split: if_splits)
    with 2 have u: "failed rel b (view w) (view w2)
      \<or> b = Inr () \<and> view w2 = (view w)\<lparr>obRoles :=
         (obRoles (view w))(readOnlySAName \<mapsto> readOnlyClusterRole)\<rparr>" by simp
    from assms(2) a b e have r: "w' = w2 \<and> r = wrap_error ''capi: replacing read-only ClusterRole: '' b"
      by (cases b) (auto simp: ensure_role_def wrap_error_def)
    with u show ?thesis by (cases b) (auto simp: serve_defs wrap_error_def)
  next
    case False
    with assms(2) a have r: "w' = w1 \<and> r = wrap_error ''capi: creating read-only ClusterRole: '' a"
      by (cases a) (auto simp: ensure_role_def wrap_error_def)
    with 1 False show ?thesis by (cases a) (auto simp: serve_defs wrap_error_def split: if_splits)
  qed
qed

lemma run_ensure_binding:
  assumes "serves rel api core rbac view" and "run (ensure_binding api rbac) w = (r, w')"
  shows "(case r of
      Inr _ \<Rightarrow> view w' = (view w)\<lparr>obBindings :=
        (obBindings (view w))(readOnlySAName \<mapsto> readOnlyClusterRoleBinding)\<rparr>
    | Inl _ \<Rightarrow> \<not> rel \<and> (view w' = view w \<or>
        view w' = (view w)\<lparr>obBindings := (obBindings (view w))(readOnlySAName := None)\<rparr>))"
proof -
  let ?b = readOnlyClusterRoleBinding and ?n = readOnlySAName
  let ?create = "\<lambda>a w w'. failed rel a (view w) (view w')
     \<or> (if obBindings (view w) ?n \<noteq> None then exists_error a \<and> view w' = view w
        else a = Inr () \<and> view w' = (view w)\<lparr>obBindings := (obBindings (view w))(?n \<mapsto> ?b)\<rparr>)"
  obtain a w1 where a: "rCreateBinding api rbac ?b w = (a, w1)" by fastforce
  obtain b w2 where b: "rUpdateBinding api rbac ?b w1 = (b, w2)" by fastforce
  obtain c w3 where c: "rDeleteBinding api rbac ?n w2 = (c, w3)" by fastforce
  obtain d w4 where d: "rCreateBinding api rbac ?b w3 = (d, w4)" by fastforce
  have create: "rCreateBinding api rbac ?b w = (x, w') \<Longrightarrow> ?create x w w'" for x w w'
    using serves_parts(4) [OF assms(1), rule_format, of ?b w x w'] by (simp only: cbName_readOnly simp_thms)
  have 2: "obBindings (view w1) ?n = Some y \<Longrightarrow> failed rel b (view w1) (view w2)
     \<or> (if cbRoleRef y \<noteq> cbRoleRef ?b then immutable_error b \<and> view w2 = view w1
        else b = Inr () \<and> view w2 = (view w1)\<lparr>obBindings := (obBindings (view w1))(?n \<mapsto> ?b)\<rparr>)" for y
    using serves_parts(5) [OF assms(1), rule_format, OF b] by (simp only: cbName_readOnly)
  have 3: "obBindings (view w2) ?n \<noteq> None \<Longrightarrow> failed rel c (view w2) (view w3)
     \<or> c = Inr () \<and> view w3 = (view w2)\<lparr>obBindings := (obBindings (view w2))(?n := None)\<rparr>"
    by (rule serves_parts(6) [OF assms(1), rule_format, OF c])
  show ?thesis
  proof (cases "\<exists>e. a = Inl e \<and> IsAlreadyExists e")
    case False
    with assms(2) a have r: "w' = w1 \<and> r = wrap_error ''capi: creating read-only ClusterRoleBinding: '' a"
      by (cases a) (auto simp: ensure_binding_def wrap_error_def)
    with create [OF a] False show ?thesis
      by (cases a) (auto simp: serve_defs wrap_error_def split: if_splits)
  next
    case True
    then obtain e where e: "a = Inl e" "IsAlreadyExists e" by blast
    with create [OF a] obtain y where y: "obBindings (view w) ?n = Some y" and v1: "view w1 = view w"
      by (auto simp: serve_defs split: if_splits)
    show ?thesis
    proof (cases "\<exists>e. b = Inl e \<and> isImmutableRoleRefError e")
      case False
      with assms(2) a b e have r: "w' = w2 \<and> r = wrap_error ''capi: replacing read-only ClusterRoleBinding: '' b"
        by (cases b) (auto simp: ensure_binding_def wrap_error_def)
      with 2 [unfolded v1, OF y] False show ?thesis
        by (cases b) (auto simp: serve_defs wrap_error_def split: if_splits)
    next
      case imm: True
      then obtain e2 where e2: "b = Inl e2" "isImmutableRoleRefError e2" by blast
      with 2 [unfolded v1, OF y] have v2: "view w2 = view w"
        by (auto simp: serve_defs split: if_splits)
      show ?thesis
      proof (cases c)
        case (Inl e3)
        with assms(2) a b c e e2 have "w' = w3" and "\<exists>x. r = Inl x"
          by (simp_all add: ensure_binding_def) blast
        with 3 y v2 Inl show ?thesis by (auto simp: serve_defs)
      next
        case (Inr u)
        with assms(2) a b c d e e2 have r: "w' = w4 \<and> r = wrap_error ''capi: recreating read-only ClusterRoleBinding: '' d"
          by (cases d) (auto simp: ensure_binding_def wrap_error_def)
        moreover from 3 y v2 Inr have "view w3 = (view w)\<lparr>obBindings := (obBindings (view w))(?n := None)\<rparr>"
          by (auto simp: serve_defs)
        ultimately show ?thesis using create [OF d]
          by (cases d) (auto simp: serve_defs wrap_error_def)
      qed
    qed
  qed
qed

lemma run_ensure_all:
  assumes "serves reliable api core rbac view"
    and "run (EnsureReadOnlyRBAC api core rbac) w = (r, w')"
  shows "(case r of
      Inr _ \<Rightarrow> view w' = with_access (view w)
    | Inl _ \<Rightarrow> \<not> reliable \<and> same_others (view w) (view w'))"
proof -
  obtain a w1 where a: "run (ensure_account api core) w = (a, w1)" by fastforce
  obtain b w2 where b: "run (ensure_role api rbac) w1 = (b, w2)" by fastforce
  obtain c w3 where c: "run (ensure_binding api rbac) w2 = (c, w3)" by fastforce
  note steps = run_ensure_account [OF assms(1) a] run_ensure_role [OF assms(1) b]
    run_ensure_binding [OF assms(1) c]
  show ?thesis
    using assms(2) a b c steps
    by (auto simp: EnsureReadOnlyRBAC_def same_others_def with_access_def
        split: sum.splits prod.splits)
qed


section \<open>A server in memory\<close>

text \<open>A server that keeps the three kinds of objects, to apply the theorems to.\<close>

definition memory_api :: "string \<Rightarrow> ('c, rbac_objects) rbac_api" where
  "memory_api tok =
     \<lparr>rCreateServiceAccount = (\<lambda>c ns n o1.
        if (ns, n) \<in> obAccounts o1 then (Inl (ApiError AlreadyExists n), o1)
        else (Inr (), o1\<lparr>obAccounts := insert (ns, n) (obAccounts o1)\<rparr>)),
      rCreateClusterRole = (\<lambda>c x o1.
        if obRoles o1 (crName x) \<noteq> None then (Inl (ApiError AlreadyExists (crName x)), o1)
        else (Inr (), o1\<lparr>obRoles := (obRoles o1)(crName x \<mapsto> x)\<rparr>)),
      rUpdateClusterRole = (\<lambda>c x o1.
        if obRoles o1 (crName x) = None then (Inl (ApiError OtherReason (crName x)), o1)
        else (Inr (), o1\<lparr>obRoles := (obRoles o1)(crName x \<mapsto> x)\<rparr>)),
      rCreateBinding = (\<lambda>c x o1.
        if obBindings o1 (cbName x) \<noteq> None then (Inl (ApiError AlreadyExists (cbName x)), o1)
        else (Inr (), o1\<lparr>obBindings := (obBindings o1)(cbName x \<mapsto> x)\<rparr>)),
      rUpdateBinding = (\<lambda>c x o1.
        case obBindings o1 (cbName x) of
          None \<Rightarrow> (Inl (ApiError OtherReason (cbName x)), o1)
        | Some y \<Rightarrow>
            if cbRoleRef y \<noteq> cbRoleRef x
            then (Inl (ApiError Invalid ''roleRef is immutable''), o1)
            else (Inr (), o1\<lparr>obBindings := (obBindings o1)(cbName x \<mapsto> x)\<rparr>)),
      rDeleteBinding = (\<lambda>c n o1.
        if obBindings o1 n = None then (Inl (ApiError OtherReason n), o1)
        else (Inr (), o1\<lparr>obBindings := (obBindings o1)(n := None)\<rparr>)),
      rCreateToken = (\<lambda>c ns n d o1. (Inr tok, o1))\<rparr>"

lemma Contains_here: "Contains (s @ t) s"
  by (subst Contains.simps) simp

lemma Contains_later: "Contains t s \<Longrightarrow> Contains (x # t) s"
  by (subst Contains.simps) simp

lemma immutable_message: "isImmutableRoleRefError (ApiError Invalid ''roleRef is immutable'')"
  using Contains_here [of "''roleRef''" "'' is immutable''"]
    Contains_here [of "''immutable''" "[]"]
  by (simp add: Contains_later)

lemma memory_api_serves: "serves True (memory_api tok) core rbac id"
  unfolding serves_def
  by (intro conjI)
    (use immutable_message in \<open>auto simp: memory_api_def serve_defs split: if_splits option.splits\<close>)

definition foreign_objects :: rbac_objects where
  "foreign_objects =
     \<lparr>obAccounts = {}, obRoles = [''view'' \<mapsto> \<lparr>crName = ''view'', crRules = []\<rparr>],
      obBindings = [readOnlySAName \<mapsto>
        \<lparr>cbName = readOnlySAName,
         cbRoleRef = \<lparr>rrAPIGroup = ''rbac.authorization.k8s.io'', rrKind = ''ClusterRole'',
                      rrName = ''cluster-admin''\<rparr>,
         cbSubjects = []\<rparr>]\<rparr>"


section \<open>The minted kubeconfig\<close>

text \<open>
  C11. A read-only kubeconfig that is handed out carries the server and CA of the admin
  kubeconfig's first cluster and a fresh non-empty token of the read-only ServiceAccount, asked
  for once the access exists; nothing else of the admin kubeconfig (its users' credentials)
  can reach it: any other kubeconfig with the same first server and CA gives the same run.
\<close>

theorem CreateReadOnlyKubeconfig_token_only:
  assumes "serves reliable api core rbac view"
    and "run (CreateReadOnlyKubeconfig api parse marshal core rbac adminKc d) w = (Inr kc, w')"
  shows "\<exists>server ca rest tok w1.
     parse adminKc = Inr ((server, ca) # rest)
     \<and> view w1 = with_access (view w)
     \<and> rCreateToken api core readOnlyNamespace readOnlySAName d w1 = (Inr tok, w')
     \<and> TrimSpace tok \<noteq> []
     \<and> marshal (readonly_config server ca (TrimSpace tok)) = Inr kc
     \<and> view w' = with_access (view w)
     \<and> (\<forall>otherKc rest2. parse otherKc = Inr ((server, ca) # rest2) \<longrightarrow>
          run (CreateReadOnlyKubeconfig api parse marshal core rbac otherKc d) w = (Inr kc, w'))"
proof -
  obtain server ca rest where p: "parse adminKc = Inr ((server, ca) # rest)"
    using assms(2) by (auto simp: CreateReadOnlyKubeconfig_def split: sum.splits list.splits)
  obtain r w1 where e: "run (EnsureReadOnlyRBAC api core rbac) w = (r, w1)" by fastforce
  obtain t w2 where t: "rCreateToken api core readOnlyNamespace readOnlySAName d w1 = (t, w2)"
    by fastforce
  obtain u where r: "r = Inr u"
    using assms(2) p e by (cases r) (auto simp: CreateReadOnlyKubeconfig_def)
  obtain tok where tok: "t = Inr tok"
    using assms(2) p e r t by (cases t) (auto simp: CreateReadOnlyKubeconfig_def)
  have "TrimSpace tok \<noteq> []" and "marshal (readonly_config server ca (TrimSpace tok)) = Inr kc"
    and w2: "w' = w2"
    using assms(2) p e [unfolded r] t [unfolded tok]
    by (auto simp: CreateReadOnlyKubeconfig_def Let_def split: if_splits sum.splits)
  moreover have "view w1 = with_access (view w)"
    using run_ensure_all [OF assms(1) e] r by simp
  moreover have "view w2 = view w1" by (rule serves_parts(7) [OF assms(1), rule_format, OF t])
  moreover have "run (CreateReadOnlyKubeconfig api parse marshal core rbac otherKc d) w = (Inr kc, w')"
    if "parse otherKc = Inr ((server, ca) # rest2)" for otherKc rest2
    using assms(2) p that by (simp add: CreateReadOnlyKubeconfig_def)
  ultimately show ?thesis using p t tok by metis
qed

theorem CreateReadOnlyKubeconfig_token_only_witness:
  defines "parse \<equiv> \<lambda>kc. if kc = ''admin'' \<or> kc = ''other'' then Inr [(''https://c'', ''CA'')] else Inl (ExtError ''bad'')"
    and "marshal \<equiv> \<lambda>v. Inr (if v = readonly_config ''https://c'' ''CA'' ''tok'' then ''ro'' else [])"
  shows "\<exists>w'. run (CreateReadOnlyKubeconfig (memory_api ''tok'') parse marshal () () ''other'' 3600)
           foreign_objects = (Inr ''ro'', w')"
proof -
  have trim: "TrimSpace ''tok'' = ''tok''"
    by (simp add: TrimSpace_def trim_left_id space_runes_def byte_def char_of_def)
  obtain r w' where e: "run (EnsureReadOnlyRBAC (memory_api ''tok'') () ()) foreign_objects = (r, w')"
    by fastforce
  from run_ensure_all [OF memory_api_serves this] obtain u where "r = Inr u"
    by (cases r) auto
  with e trim have "run (CreateReadOnlyKubeconfig (memory_api ''tok'') parse marshal () () ''admin'' 3600)
      foreign_objects = (Inr ''ro'', w')"
    by (simp add: CreateReadOnlyKubeconfig_def parse_def marshal_def memory_api_def)
  from CreateReadOnlyKubeconfig_token_only [OF memory_api_serves this]
  show ?thesis by (auto simp: parse_def)
qed

end
