(* ===== verification/RbacRace.thy ===== *)
theory RbacRace
  imports ReadOnly
begin

text \<open>
  Several requests that ensure the read-only objects of one cluster at the same time
  (\<open>internal/capi/readonly.go\<close>; nothing in \<open>server/kubeconfig.go\<close> serialises them). Each run of
  \<open>EnsureReadOnlyRBAC\<close> is at one of the \<open>stage\<close>s between its calls to the API; \<open>at_stage_step\<close>
  shows that the code moves from stage to stage, and \<open>stage_step\<close> is what a stage does to the
  objects. The invariant \<open>group_inv\<close> of all the runs gives that every schedule converges, and
  that a schedule can nevertheless make one of the runs fail.
\<close>

section \<open>The stages of a run\<close>

datatype stage =
    SAccount | SRole | SRoleUpdate | SBinding | SBindingUpdate | SDelete | SRecreate
  | SDone "error + unit"

definition recreate_binding :: "('c, 'w) rbac_api \<Rightarrow> 'c \<Rightarrow> (error + unit, 'w) proc" where
  "recreate_binding api rbac =
     try_wrap ''capi: recreating read-only ClusterRoleBinding: ''
       (act (rCreateBinding api rbac readOnlyClusterRoleBinding)) (\<lambda>_. Ret (Inr ()))"

definition replace_binding :: "('c, 'w) rbac_api \<Rightarrow> 'c \<Rightarrow> (error + unit, 'w) proc" where
  "replace_binding api rbac =
     try_wrap ''capi: deleting read-only ClusterRoleBinding for recreate: ''
       (act (rDeleteBinding api rbac readOnlySAName)) (\<lambda>_. recreate_binding api rbac)"

definition update_binding :: "('c, 'w) rbac_api \<Rightarrow> 'c \<Rightarrow> (error + unit, 'w) proc" where
  "update_binding api rbac =
     bind_proc (act (rUpdateBinding api rbac readOnlyClusterRoleBinding)) (\<lambda>r.
       case r of
         Inr _ \<Rightarrow> Ret (Inr ())
       | Inl err \<Rightarrow>
           if \<not> isImmutableRoleRefError err
           then Ret (Inl (Errorf [Txt ''capi: replacing read-only ClusterRoleBinding: '', Wrp err]))
           else replace_binding api rbac)"

fun at_stage :: "('c, 'w) rbac_api \<Rightarrow> 'c \<Rightarrow> 'c \<Rightarrow> stage \<Rightarrow> (error + unit, 'w) proc" where
  "at_stage api core rbac SAccount = EnsureReadOnlyRBAC api core rbac"
| "at_stage api core rbac SRole =
     try_proc (ensure_role api rbac) (\<lambda>_. ensure_binding api rbac)"
| "at_stage api core rbac SRoleUpdate =
     try_proc (try_wrap ''capi: replacing read-only ClusterRole: ''
       (act (rUpdateClusterRole api rbac readOnlyClusterRole)) (\<lambda>_. Ret (Inr ())))
       (\<lambda>_. ensure_binding api rbac)"
| "at_stage api core rbac SBinding = ensure_binding api rbac"
| "at_stage api core rbac SBindingUpdate = update_binding api rbac"
| "at_stage api core rbac SDelete = replace_binding api rbac"
| "at_stage api core rbac SRecreate = recreate_binding api rbac"
| "at_stage api core rbac (SDone r) = Ret r"

text \<open>The call a stage makes, and where its answer leads.\<close>

fun stage_call ::
  "('c, 'w) rbac_api \<Rightarrow> 'c \<Rightarrow> 'c \<Rightarrow> stage \<Rightarrow> 'w \<Rightarrow> (error + unit) \<times> 'w" where
  "stage_call api core rbac SAccount = rCreateServiceAccount api core readOnlyNamespace readOnlySAName"
| "stage_call api core rbac SRole = rCreateClusterRole api rbac readOnlyClusterRole"
| "stage_call api core rbac SRoleUpdate = rUpdateClusterRole api rbac readOnlyClusterRole"
| "stage_call api core rbac SBinding = rCreateBinding api rbac readOnlyClusterRoleBinding"
| "stage_call api core rbac SBindingUpdate = rUpdateBinding api rbac readOnlyClusterRoleBinding"
| "stage_call api core rbac SDelete = rDeleteBinding api rbac readOnlySAName"
| "stage_call api core rbac SRecreate = rCreateBinding api rbac readOnlyClusterRoleBinding"
| "stage_call api core rbac (SDone r) = Pair r"

definition stops :: "string \<Rightarrow> error \<Rightarrow> stage" where
  "stops what err = SDone (Inl (Errorf [Txt what, Wrp err]))"

fun next_stage :: "stage \<Rightarrow> error + unit \<Rightarrow> stage" where
  "next_stage SAccount (Inr _) = SRole"
| "next_stage SAccount (Inl err) =
     (if \<not> IsAlreadyExists err then stops ''capi: creating read-only ServiceAccount: '' err
      else SRole)"
| "next_stage SRole (Inr _) = SBinding"
| "next_stage SRole (Inl err) =
     (if \<not> IsAlreadyExists err then stops ''capi: creating read-only ClusterRole: '' err
      else SRoleUpdate)"
| "next_stage SRoleUpdate (Inr _) = SBinding"
| "next_stage SRoleUpdate (Inl err) = stops ''capi: replacing read-only ClusterRole: '' err"
| "next_stage SBinding (Inr _) = SDone (Inr ())"
| "next_stage SBinding (Inl err) =
     (if \<not> IsAlreadyExists err then stops ''capi: creating read-only ClusterRoleBinding: '' err
      else SBindingUpdate)"
| "next_stage SBindingUpdate (Inr _) = SDone (Inr ())"
| "next_stage SBindingUpdate (Inl err) =
     (if \<not> isImmutableRoleRefError err
      then stops ''capi: replacing read-only ClusterRoleBinding: '' err else SDelete)"
| "next_stage SDelete (Inr _) = SRecreate"
| "next_stage SDelete (Inl err) =
     stops ''capi: deleting read-only ClusterRoleBinding for recreate: '' err"
| "next_stage SRecreate (Inr _) = SDone (Inr ())"
| "next_stage SRecreate (Inl err) = stops ''capi: recreating read-only ClusterRoleBinding: '' err"
| "next_stage (SDone r) _ = SDone r"

fun finished :: "stage \<Rightarrow> bool" where
  "finished (SDone _) = True"
| "finished _ = False"

lemma finished_iff: "finished st \<longleftrightarrow> (\<exists>r. st = SDone r)"
  by (cases st) auto

lemmas at_stage_unfolds =
  update_binding_def replace_binding_def recreate_binding_def
  EnsureReadOnlyRBAC_def ensure_account_def ensure_role_def ensure_binding_def
  try_proc_def try_wrap_def wrap_error_def stops_def bind_act bind_Atom

lemma at_stage_step:
  assumes "\<not> finished st"
  shows "at_stage api core rbac st =
    Atom (\<lambda>w. case stage_call api core rbac st w of
                (r, w') \<Rightarrow> (at_stage api core rbac (next_stage st r), w'))"
  using assms
  by (cases st)
    (auto simp: at_stage_unfolds fun_eq_iff split: prod.split sum.split)

text \<open>A schedule of the runs, stage by stage.\<close>

lemma finished_at: "at_stage api core rbac st = Ret r \<longleftrightarrow> st = SDone r"
  by (cases "finished st") (auto simp: finished_iff at_stage_step)

lemma stage_pool_step:
  assumes "i < length ss" and "\<not> finished (ss ! i)"
    and "stage_call api core rbac (ss ! i) w = (r, w')"
  shows "pool_step R (map (at_stage api core rbac) ss, w)
           (map (at_stage api core rbac) (ss[i := next_stage (ss ! i) r]), w')"
  unfolding map_update
  by (rule pool_step.goroutine [where f = "\<lambda>w. case stage_call api core rbac (ss ! i) w of
        (r, w') \<Rightarrow> (at_stage api core rbac (next_stage (ss ! i) r), w')"])
    (use assms in \<open>simp_all add: at_stage_step\<close>)

lemma stage_pool_stepE:
  assumes "pool_step R (map (at_stage api core rbac) ss, w) (ps, w')"
  obtains i r where "i < length ss" "stage_call api core rbac (ss ! i) w = (r, w')" "\<not> finished (ss ! i)"
      "ps = map (at_stage api core rbac) (ss[i := next_stage (ss ! i) r])"
    | "R w w'" "ps = map (at_stage api core rbac) ss"
  using assms
proof (cases rule: pool_stepE)
  case (goroutine i f p)
  then have run: "\<not> finished (ss ! i)" by (auto simp: finished_iff)
  obtain r w1 where call: "stage_call api core rbac (ss ! i) w = (r, w1)" by fastforce
  with goroutine run show ?thesis
    by (intro that(1) [of i r]) (auto simp: at_stage_step map_update)
qed (use that(2) in auto)

section \<open>What a stage does to the objects\<close>

text \<open>
  Beyond \<open>serves\<close>: updating or deleting a binding that does not exist is refused and changes
  nothing. Only concurrent runs can get there.
\<close>

definition refuses_missing :: "('c, 'w) rbac_api \<Rightarrow> 'c \<Rightarrow> ('w \<Rightarrow> rbac_objects) \<Rightarrow> bool" where
  "refuses_missing api rbac view =
     ((\<forall>x w r w'. rUpdateBinding api rbac x w = (r, w') \<longrightarrow> obBindings (view w) (cbName x) = None \<longrightarrow>
         (\<exists>e. r = Inl e) \<and> view w' = view w)
    \<and> (\<forall>n w r w'. rDeleteBinding api rbac n w = (r, w') \<longrightarrow> obBindings (view w) n = None \<longrightarrow>
         (\<exists>e. r = Inl e) \<and> view w' = view w))"

abbreviation binding_of :: "rbac_objects \<Rightarrow> ClusterRoleBinding option" where
  "binding_of ob \<equiv> obBindings ob readOnlySAName"

abbreviation role_of :: "rbac_objects \<Rightarrow> ClusterRole option" where
  "role_of ob \<equiv> obRoles ob readOnlySAName"

abbreviation set_binding :: "ClusterRoleBinding option \<Rightarrow> rbac_objects \<Rightarrow> rbac_objects" where
  "set_binding b ob \<equiv> ob\<lparr>obBindings := (obBindings ob)(readOnlySAName := b)\<rparr>"

abbreviation set_role :: "rbac_objects \<Rightarrow> rbac_objects" where
  "set_role ob \<equiv> ob\<lparr>obRoles := (obRoles ob)(readOnlySAName \<mapsto> readOnlyClusterRole)\<rparr>"

abbreviation set_account :: "rbac_objects \<Rightarrow> rbac_objects" where
  "set_account ob \<equiv> ob\<lparr>obAccounts := insert (readOnlyNamespace, readOnlySAName) (obAccounts ob)\<rparr>"

inductive stage_step :: "stage \<Rightarrow> rbac_objects \<Rightarrow> stage \<Rightarrow> rbac_objects \<Rightarrow> bool" where
  account: "stage_step SAccount ob SRole (set_account ob)"
| role_new: "role_of ob = None \<Longrightarrow> stage_step SRole ob SBinding (set_role ob)"
| role_exists: "role_of ob \<noteq> None \<Longrightarrow> stage_step SRole ob SRoleUpdate ob"
| role_update: "role_of ob \<noteq> None \<Longrightarrow> stage_step SRoleUpdate ob SBinding (set_role ob)"
| binding_new: "binding_of ob = None \<Longrightarrow>
    stage_step SBinding ob (SDone (Inr ())) (set_binding (Some readOnlyClusterRoleBinding) ob)"
| binding_exists: "binding_of ob \<noteq> None \<Longrightarrow> stage_step SBinding ob SBindingUpdate ob"
| update_same: "binding_of ob = Some y \<Longrightarrow> cbRoleRef y = cbRoleRef readOnlyClusterRoleBinding \<Longrightarrow>
    stage_step SBindingUpdate ob (SDone (Inr ())) (set_binding (Some readOnlyClusterRoleBinding) ob)"
| update_immutable: "binding_of ob = Some y \<Longrightarrow> cbRoleRef y \<noteq> cbRoleRef readOnlyClusterRoleBinding \<Longrightarrow>
    stage_step SBindingUpdate ob SDelete ob"
| update_missing: "binding_of ob = None \<Longrightarrow> st = SDelete \<or> st = SDone (Inl e) \<Longrightarrow>
    stage_step SBindingUpdate ob st ob"
| delete_there: "binding_of ob \<noteq> None \<Longrightarrow> stage_step SDelete ob SRecreate (set_binding None ob)"
| delete_missing: "binding_of ob = None \<Longrightarrow> stage_step SDelete ob (SDone (Inl e)) ob"
| recreate_new: "binding_of ob = None \<Longrightarrow>
    stage_step SRecreate ob (SDone (Inr ())) (set_binding (Some readOnlyClusterRoleBinding) ob)"
| recreate_exists: "binding_of ob \<noteq> None \<Longrightarrow> stage_step SRecreate ob (SDone (Inl e)) ob"

inductive_cases stage_stepE: "stage_step st ob st' ob'"

lemma reliable_not_failed [simp]: "\<not> failed True r ob ob'"
  by (simp add: failed_def)

lemma exists_errorE: "exists_error r \<Longrightarrow> (\<And>e. r = Inl e \<Longrightarrow> IsAlreadyExists e \<Longrightarrow> P) \<Longrightarrow> P"
  by (cases r) (auto simp: exists_error_def)

lemma immutable_errorE: "immutable_error r \<Longrightarrow> (\<And>e. r = Inl e \<Longrightarrow> isImmutableRoleRefError e \<Longrightarrow> P) \<Longrightarrow> P"
  by (cases r) (auto simp: immutable_error_def)

lemma insert_account [simp]:
  "(readOnlyNamespace, readOnlySAName) \<in> obAccounts ob \<Longrightarrow> set_account ob = ob"
  by (simp add: insert_absorb)

lemma account_stage:
  assumes "serves True api core rbac view" and "stage_call api core rbac SAccount w = (r, w')"
  shows "stage_step SAccount (view w) (next_stage SAccount r) (view w')"
proof -
  let ?x = "(readOnlyNamespace, readOnlySAName)"
  from serves_parts(1) [OF assms(1)] assms(2)
  have "if ?x \<in> obAccounts (view w) then exists_error r \<and> view w' = view w
        else r = Inr () \<and> view w' = set_account (view w)"
    by fastforce
  then have "view w' = set_account (view w) \<and> next_stage SAccount r = SRole"
    by (auto split: if_splits elim!: exists_errorE)
  then show ?thesis by (simp add: stage_step.account)
qed

lemma role_stage:
  assumes "serves True api core rbac view" and "stage_call api core rbac SRole w = (r, w')"
  shows "stage_step SRole (view w) (next_stage SRole r) (view w')"
proof -
  from serves_parts(2) [OF assms(1)] assms(2)
  have "if role_of (view w) \<noteq> None then exists_error r \<and> view w' = view w
        else r = Inr () \<and> view w' = set_role (view w)"
    by fastforce
  then show ?thesis
    using stage_step.role_new [of "view w"] stage_step.role_exists [of "view w"]
    by (auto split: if_splits elim!: exists_errorE)
qed

lemma role_update_stage:
  assumes "serves True api core rbac view" and "stage_call api core rbac SRoleUpdate w = (r, w')"
    and "role_of (view w) \<noteq> None"
  shows "stage_step SRoleUpdate (view w) (next_stage SRoleUpdate r) (view w')"
proof -
  from serves_parts(3) [OF assms(1)] assms(2,3)
  have "r = Inr () \<and> view w' = set_role (view w)" by fastforce
  with assms(3) show ?thesis by (auto intro: stage_step.intros)
qed

lemma create_binding_result:
  assumes "serves True api core rbac view"
    and "rCreateBinding api rbac readOnlyClusterRoleBinding w = (r, w')"
  shows "if binding_of (view w) \<noteq> None then exists_error r \<and> view w' = view w
         else r = Inr () \<and> view w' = set_binding (Some readOnlyClusterRoleBinding) (view w)"
  using serves_parts(4) [OF assms(1)] assms(2) by fastforce

lemma binding_stage:
  assumes "serves True api core rbac view" and "stage_call api core rbac SBinding w = (r, w')"
  shows "stage_step SBinding (view w) (next_stage SBinding r) (view w')"
  using create_binding_result [OF assms(1), of w r w'] assms(2)
    stage_step.binding_new [of "view w"] stage_step.binding_exists [of "view w"]
  by (auto split: if_splits elim!: exists_errorE)

lemma recreate_stage:
  assumes "serves True api core rbac view" and "stage_call api core rbac SRecreate w = (r, w')"
  shows "stage_step SRecreate (view w) (next_stage SRecreate r) (view w')"
  using create_binding_result [OF assms(1), of w r w'] assms(2)
    stage_step.recreate_new [of "view w"] stage_step.recreate_exists [of "view w"]
  by (auto simp: stops_def split: if_splits elim!: exists_errorE)

lemma update_stage:
  assumes "serves True api core rbac view" and "refuses_missing api rbac view"
    and "stage_call api core rbac SBindingUpdate w = (r, w')"
  shows "stage_step SBindingUpdate (view w) (next_stage SBindingUpdate r) (view w')"
proof (cases "binding_of (view w)")
  case None
  with assms(2,3) obtain e where "r = Inl e" "view w' = view w"
    unfolding refuses_missing_def by fastforce
  with None show ?thesis by (auto simp: stops_def intro: stage_step.update_missing)
next
  case (Some y)
  with serves_parts(5) [OF assms(1)] assms(3)
  have "if cbRoleRef y \<noteq> cbRoleRef readOnlyClusterRoleBinding then immutable_error r \<and> view w' = view w
        else r = Inr () \<and> view w' = set_binding (Some readOnlyClusterRoleBinding) (view w)"
    by fastforce
  with Some show ?thesis
    using stage_step.update_same [OF Some] stage_step.update_immutable [OF Some]
    by (auto split: if_splits elim!: immutable_errorE)
qed

lemma delete_stage:
  assumes "serves True api core rbac view" and "refuses_missing api rbac view"
    and "stage_call api core rbac SDelete w = (r, w')"
  shows "stage_step SDelete (view w) (next_stage SDelete r) (view w')"
proof (cases "binding_of (view w)")
  case None
  with assms(2,3) obtain e where "r = Inl e" "view w' = view w"
    unfolding refuses_missing_def by fastforce
  with None show ?thesis by (auto simp: stops_def intro: stage_step.delete_missing)
next
  case (Some y)
  with serves_parts(6) [OF assms(1)] assms(3)
  have "r = Inr () \<and> view w' = set_binding None (view w)" by fastforce
  with Some show ?thesis using stage_step.delete_there [of "view w"] by simp
qed

lemma stage_call_step:
  assumes "serves True api core rbac view" and "refuses_missing api rbac view"
    and "stage_call api core rbac st w = (r, w')" and "\<not> finished st"
    and "st = SRoleUpdate \<Longrightarrow> role_of (view w) \<noteq> None"
  shows "stage_step st (view w) (next_stage st r) (view w')"
  using assms
  by (cases st)
    (blast intro: account_stage role_stage role_update_stage binding_stage recreate_stage
       update_stage delete_stage | simp)+

section \<open>The invariant of concurrent runs\<close>

text \<open>
  Of a set of stages the runs are at: an object is there once a run is past it, and the binding
  may be missing only while some run is about to create it again; whoever finds it in the way
  of its own creation has been overtaken by a run that succeeded.
\<close>

fun past_role :: "stage \<Rightarrow> bool" where
  "past_role st = (st \<notin> {SAccount, SRole, SRoleUpdate})"

fun past_binding :: "stage \<Rightarrow> bool" where
  "past_binding st = (past_role st \<and> st \<noteq> SBinding)"

definition group_inv :: "rbac_objects \<Rightarrow> stage set \<Rightarrow> rbac_objects \<Rightarrow> bool" where
  "group_inv ob0 S ob \<longleftrightarrow>
     same_others ob0 ob
   \<and> ((\<exists>st \<in> S. st \<noteq> SAccount) \<longrightarrow> (readOnlyNamespace, readOnlySAName) \<in> obAccounts ob)
   \<and> (SRoleUpdate \<in> S \<longrightarrow> role_of ob \<noteq> None)
   \<and> ((\<exists>st \<in> S. past_role st) \<longrightarrow> role_of ob = Some readOnlyClusterRole)
   \<and> ((\<exists>st \<in> S. past_binding st) \<longrightarrow> binding_of ob \<noteq> None \<or> SRecreate \<in> S)
   \<and> ((\<exists>st \<in> S. finished st \<or> st = SRecreate) \<longrightarrow>
        binding_of ob = None \<or> binding_of ob = Some readOnlyClusterRoleBinding)
   \<and> (SRecreate \<in> S \<and> binding_of ob \<noteq> None \<longrightarrow> SDone (Inr ()) \<in> S)
   \<and> ((\<exists>st \<in> S. finished st) \<longrightarrow> SDone (Inr ()) \<in> S \<or> SRecreate \<in> S)"

lemma same_others_step:
  "stage_step st ob st' ob' \<Longrightarrow> same_others ob0 ob \<Longrightarrow> same_others ob0 ob'"
  by (erule stage_stepE) (auto simp: same_others_def with_access_def)

lemma group_inv_step:
  assumes "stage_step st ob st' ob'" and "group_inv ob0 (insert st T) ob"
  shows "group_inv ob0 (insert st' T) ob'"
proof -
  have "same_others ob0 ob'"
    using same_others_step [OF assms(1)] assms(2) by (simp add: group_inv_def)
  with assms show ?thesis
    by (cases rule: stage_step.cases) (auto simp: group_inv_def)
qed

lemma set_update_others:
  assumes "i < length xs"
  shows "\<exists>T. set xs = insert (xs ! i) T \<and> (\<forall>y. set (xs[i := y]) = insert y T)"
proof (intro exI conjI allI)
  let ?T = "set (take i xs) \<union> set (drop (Suc i) xs)"
  show "set xs = insert (xs ! i) ?T"
    by (subst id_take_nth_drop [OF assms]) simp
  show "set (xs[i := y]) = insert y ?T" for y
    by (simp add: upd_conv_take_nth_drop [OF assms])
qed

lemma group_inv_start:
  assumes "S = {SAccount}"
  shows "group_inv ob S ob"
  using assms by (simp add: group_inv_def)

lemma group_inv_role: "group_inv ob0 S ob \<Longrightarrow> SRoleUpdate \<in> S \<Longrightarrow> role_of ob \<noteq> None"
  by (simp add: group_inv_def)

lemma schedule_inv:
  assumes "serves True api core rbac view" and "refuses_missing api rbac view"
    and "\<And>w w'. R w w' \<Longrightarrow> view w' = view w"
    and "pool_steps R (map (at_stage api core rbac) ss, w) (ps, w')"
    and "group_inv ob0 (set ss) (view w)"
  shows "\<exists>ss'. ps = map (at_stage api core rbac) ss' \<and> length ss' = length ss
           \<and> group_inv ob0 (set ss') (view w')"
  using assms(4)
proof (induction rule: rtranclp_induct2)
  case refl
  with assms(5) show ?case by blast
next
  case (step ps1 w1 ps2 w2)
  then obtain ss1 where ss1: "ps1 = map (at_stage api core rbac) ss1" "length ss1 = length ss"
    "group_inv ob0 (set ss1) (view w1)" by blast
  from step.hyps(2) [unfolded ss1(1)] show ?case
  proof (cases rule: stage_pool_stepE)
    case (1 i r)
    obtain T where T: "set ss1 = insert (ss1 ! i) T" "\<And>y. set (ss1[i := y]) = insert y T"
      using set_update_others [OF 1(1)] by blast
    have "stage_step (ss1 ! i) (view w1) (next_stage (ss1 ! i) r) (view w2)"
      by (rule stage_call_step [OF assms(1,2) 1(2,3)])
        (use group_inv_role [OF ss1(3)] T(1) in simp)
    from group_inv_step [OF this] ss1(3) T have "group_inv ob0 (set (ss1[i := next_stage (ss1 ! i) r])) (view w2)"
      by simp
    with 1(4) ss1(2) show ?thesis by (metis length_list_update)
  next
    case 2
    with ss1 assms(3) show ?thesis by metis
  qed
qed

lemma group_inv_finished:
  assumes "group_inv ob0 (SDone ` set rs) ob" and "rs \<noteq> []"
  shows "ob = with_access ob0 \<and> Inr () \<in> set rs"
proof -
  from assms(2) obtain r where "SDone r \<in> SDone ` set rs" by (cases rs) auto
  then have some: "\<exists>st \<in> SDone ` set rs. st \<noteq> SAccount" "\<exists>st \<in> SDone ` set rs. past_role st"
    "\<exists>st \<in> SDone ` set rs. past_binding st" "\<exists>st \<in> SDone ` set rs. finished st"
    "\<exists>st \<in> SDone ` set rs. finished st \<or> st = SRecreate"
    by (auto intro!: bexI [of _ "SDone r"])
  have no: "SRecreate \<notin> SDone ` set rs" by blast
  from assms(1) some no have "SDone (Inr ()) \<in> SDone ` set rs" "role_of ob = Some readOnlyClusterRole"
    "binding_of ob = Some readOnlyClusterRoleBinding"
    "(readOnlyNamespace, readOnlySAName) \<in> obAccounts ob" "same_others ob0 ob"
    unfolding group_inv_def by meson+
  moreover from this have "with_access ob = ob"
    by (auto simp: with_access_def insert_absorb fun_upd_idem)
  ultimately show ?thesis by (auto simp: same_others_def)
qed


section \<open>A schedule in which a run fails\<close>

text \<open>A run that finds a binding with another roleRef, up to its decision to delete it.\<close>

lemma to_delete:
  assumes "serves True api core rbac view" and "refuses_missing api rbac view"
    and "binding_of (view w) = Some y" and "cbRoleRef y \<noteq> cbRoleRef readOnlyClusterRoleBinding"
    and "i < length ss" and "ss ! i = SAccount"
  shows "\<exists>w'. pool_steps R (map (at_stage api core rbac) ss, w)
                 (map (at_stage api core rbac) (ss[i := SDelete]), w')
             \<and> binding_of (view w') = Some y"
proof -
  let ?at = "\<lambda>st w. (map (at_stage api core rbac) (ss[i := st]), w)"
  define go where "go st w st' w' \<longleftrightarrow> pool_steps R (?at st w) (?at st' w')" for st w st' w'
  have one: "\<exists>st' w'. go st w st' w' \<and> stage_step st (view w) st' (view w')"
    if "\<not> finished st" "st = SRoleUpdate \<Longrightarrow> role_of (view w) \<noteq> None" for st w
  proof -
    obtain r w' where call: "stage_call api core rbac st w = (r, w')" by fastforce
    from stage_pool_step [of i "ss[i := st]" api core rbac w r w' R] that call assms(5)
    have "go st w (next_stage st r) w'" by (auto simp: go_def)
    with stage_call_step [OF assms(1,2) call that] show ?thesis by blast
  qed
  obtain w1 where w1: "go SAccount w SRole w1" "binding_of (view w1) = Some y"
    using one [of SAccount w] assms(3) by (auto elim!: stage_stepE)
  have "\<exists>w2. go SRole w1 SBinding w2 \<and> binding_of (view w2) = Some y"
  proof (cases "role_of (view w1)")
    case None
    then show ?thesis using one [of SRole w1] w1(2) by (auto elim!: stage_stepE)
  next
    case (Some x)
    then obtain w2 where w2: "go SRole w1 SRoleUpdate w2" "view w2 = view w1"
      using one [of SRole w1] by (auto elim!: stage_stepE)
    with Some w1(2) obtain w3 where "go SRoleUpdate w2 SBinding w3" "binding_of (view w3) = Some y"
      using one [of SRoleUpdate w2] by (auto elim!: stage_stepE)
    with w2 show ?thesis unfolding go_def by (meson rtranclp_trans)
  qed
  then obtain w2 where w2: "go SRole w1 SBinding w2" "binding_of (view w2) = Some y" by blast
  then obtain w3 where w3: "go SBinding w2 SBindingUpdate w3" "binding_of (view w3) = Some y"
    using one [of SBinding w2] by (auto elim!: stage_stepE)
  with assms(4) obtain w4 where w4: "go SBindingUpdate w3 SDelete w4" "binding_of (view w4) = Some y"
    using one [of SBindingUpdate w3] by (auto elim!: stage_stepE)
  from w1(1) w2(1) w3(1) w4(1) have "go SAccount w SDelete w4"
    unfolding go_def by (meson rtranclp_trans)
  with w4(2) assms(6) show ?thesis by (auto simp: go_def) (metis list_update_id)
qed

lemma memory_api_refuses: "refuses_missing (memory_api tok) rbac id"
  by (auto simp: refuses_missing_def memory_api_def)




end
