(* ===== verification/Proxy.thy ===== *)
theory Proxy
  imports Procs GoTime Shell "HOL-Library.Multiset"
begin

text \<open>
  \<open>internal/proxy/manager.go\<close>: sshuttle tunnels, as systemd units or as child processes.

  The manager's memory is explicit, because the code shares entries and timers by pointer:
  \<open>tnEntries\<close> is the map of entries (by reference), \<open>tnHeap\<close> the entries themselves,
  \<open>tnTimers\<close> the armed TTL timers with what they kill, \<open>tnProcs\<close> the sshuttle processes. Each
  critical section, timer call or signal is one function; \<open>EnsureProxy\<close> and
  \<open>killProcessEntry\<close> are the computations made of them. How the operating system answers
  (whether sshuttle starts, what the \<open>select\<close> on its exit and the startup window receives)
  is the argument \<open>proxy_os\<close>.

  \<open>proxy_step\<close> runs the same sections concurrently: the calls of each target, of which
  \<open>singleflight\<close> lets one be in progress, the timers' goroutines, the watchers of the
  processes and the exits. The invariant shows that there is never more than one tunnel per
  target and that none is lost; theory Flight carries it over to the computations themselves.
\<close>

section \<open>The manager\<close>

definition unitPrefix :: string where
  "unitPrefix = ''capi-shell-api-endpoint-proxy-sshuttle-''"

definition unitSuffix :: string where
  "unitSuffix = ''.service''"

definition targetKey :: "string \<Rightarrow> string \<Rightarrow> string" where
  "targetKey apiServerIP apiServerPort = apiServerIP @ '':'' @ apiServerPort"

definition unitName :: "string \<Rightarrow> string \<Rightarrow> string" where
  "unitName apiServerIP apiServerPort =
     unitPrefix @ apiServerIP @ '':'' @ apiServerPort @ unitSuffix"

text \<open>\<open>IsUnderSystemd\<close>, over \<open>os.LookupEnv\<close>; \<open>startupWindow\<close> is how long a start is watched.\<close>

definition IsUnderSystemd :: "(string \<Rightarrow> string option) \<Rightarrow> bool" where
  "IsUnderSystemd lookupEnv = (lookupEnv ''INVOCATION_ID'' \<noteq> None)"

definition startupWindow :: duration where
  "startupWindow = 1 * Second"

record processEntry =
  peProcess :: nat
  peTimer :: nat

record sshuttle =
  shTarget :: string
  shAlive :: bool
  shTerminated :: bool

record tunnels =
  tnEntries :: "string \<rightharpoonup> nat"
  tnHeap :: "nat \<rightharpoonup> processEntry"
  tnTimers :: "nat \<rightharpoonup> string \<times> duration"
  tnProcs :: "nat \<rightharpoonup> sshuttle"
  tnNext :: nat

text \<open>\<open>New\<close> of this package.\<close>

definition new_manager :: tunnels where
  "new_manager = \<lparr>tnEntries = Map.empty, tnHeap = Map.empty, tnTimers = Map.empty,
     tnProcs = Map.empty, tnNext = 0\<rparr>"

section \<open>Critical sections\<close>

definition stop_timer :: "nat \<Rightarrow> tunnels \<Rightarrow> tunnels" where
  "stop_timer t m = m\<lparr>tnTimers := (tnTimers m)(t := None)\<rparr>"

text \<open>\<open>m.clock.AfterFunc(ttl, func() { m.killProcessEntry(key) })\<close>.\<close>

definition after_func :: "duration \<Rightarrow> string \<Rightarrow> tunnels \<Rightarrow> nat \<times> tunnels" where
  "after_func ttl key m =
     (tnNext m, m\<lparr>tnTimers := (tnTimers m)(tnNext m \<mapsto> (key, ttl)), tnNext := tnNext m + 1\<rparr>)"

definition refresh_stop :: "nat \<Rightarrow> tunnels \<Rightarrow> tunnels" where
  "refresh_stop r m = (case tnHeap m r of Some e \<Rightarrow> stop_timer (peTimer e) m | None \<Rightarrow> m)"

definition refresh_rearm :: "duration \<Rightarrow> string \<Rightarrow> nat \<Rightarrow> tunnels \<Rightarrow> tunnels" where
  "refresh_rearm ttl key r m =
     (case after_func ttl key m of
        (t, m1) \<Rightarrow> m1\<lparr>tnHeap := (tnHeap m1)(r := map_option (\<lambda>e. e\<lparr>peTimer := t\<rparr>) (tnHeap m1 r))\<rparr>)"

definition start_process :: "string \<Rightarrow> tunnels \<Rightarrow> nat \<times> tunnels" where
  "start_process key m =
     (tnNext m,
      m\<lparr>tnProcs := (tnProcs m)(tnNext m \<mapsto> \<lparr>shTarget = key, shAlive = True, shTerminated = False\<rparr>),
        tnNext := tnNext m + 1\<rparr>)"

definition process_exits :: "nat \<Rightarrow> tunnels \<Rightarrow> tunnels" where
  "process_exits pid m =
     m\<lparr>tnProcs := (tnProcs m)(pid := map_option (\<lambda>p. p\<lparr>shAlive := False\<rparr>) (tnProcs m pid))\<rparr>"

text \<open>\<open>e := &processEntry{...}\<close> with its timer, and \<open>m.processEntries[key] = e\<close>.\<close>

definition arm_entry :: "duration \<Rightarrow> string \<Rightarrow> nat \<Rightarrow> tunnels \<Rightarrow> nat \<times> tunnels" where
  "arm_entry ttl key pid m =
     (case after_func ttl key m of
        (t, m1) \<Rightarrow>
          (tnNext m1,
           m1\<lparr>tnHeap := (tnHeap m1)(tnNext m1 \<mapsto> \<lparr>peProcess = pid, peTimer = t\<rparr>),
              tnNext := tnNext m1 + 1\<rparr>))"

definition insert_entry :: "string \<Rightarrow> nat \<Rightarrow> tunnels \<Rightarrow> tunnels" where
  "insert_entry key r m = m\<lparr>tnEntries := (tnEntries m)(key \<mapsto> r)\<rparr>"

text \<open>The goroutine that watches the process of an entry, once it has exited.\<close>

definition reap_entry :: "string \<Rightarrow> nat \<Rightarrow> tunnels \<Rightarrow> tunnels" where
  "reap_entry key r m =
     (if tnEntries m key = Some r
      then refresh_stop r m\<lparr>tnEntries := (tnEntries m)(key := None)\<rparr>
      else m)"

definition kill_delete :: "string \<Rightarrow> tunnels \<Rightarrow> nat option \<times> tunnels" where
  "kill_delete key m = (tnEntries m key, m\<lparr>tnEntries := (tnEntries m)(key := None)\<rparr>)"

text \<open>\<open>e.timer.Stop()\<close> and the \<open>SIGTERM\<close>.\<close>

definition kill_finish :: "nat \<Rightarrow> tunnels \<Rightarrow> tunnels" where
  "kill_finish r m =
     (case tnHeap m r of
        None \<Rightarrow> m
      | Some e \<Rightarrow>
          stop_timer (peTimer e)
            (m\<lparr>tnProcs := (tnProcs m)(peProcess e :=
                 map_option (\<lambda>p. p\<lparr>shTerminated := True\<rparr>) (tnProcs m (peProcess e)))\<rparr>))"

section \<open>The operations\<close>

record 'w proxy_os =
  poExecFile :: "string \<Rightarrow> string list \<Rightarrow> Options \<Rightarrow> 'w \<Rightarrow> (error + Output) \<times> 'w"
  poStart :: "string \<Rightarrow> string list \<Rightarrow> 'w \<Rightarrow> error option \<times> 'w"
  poSelect :: "nat \<Rightarrow> 'w \<Rightarrow> int option \<times> 'w"
  poUnderSystemd :: bool

record 'w proxy_state =
  pxTunnels :: tunnels
  pxWorld :: 'w

definition on_tunnels :: "(tunnels \<Rightarrow> 'a \<times> tunnels) \<Rightarrow> ('a, 'w proxy_state) proc" where
  "on_tunnels f = act (\<lambda>s. case f (pxTunnels s) of (a, m) \<Rightarrow> (a, s\<lparr>pxTunnels := m\<rparr>))"

abbreviation modify_tunnels :: "(tunnels \<Rightarrow> tunnels) \<Rightarrow> (unit, 'w proxy_state) proc" where
  "modify_tunnels f \<equiv> on_tunnels (\<lambda>m. ((), f m))"

text \<open>\<open>DefaultSpawnProcess\<close>.\<close>

definition spawn_process ::
  "'w proxy_os \<Rightarrow> string \<Rightarrow> string \<Rightarrow> string \<Rightarrow> 'w proxy_state \<Rightarrow> (error + nat) \<times> 'w proxy_state" where
  "spawn_process os sshuttleHost apiServerIP apiServerPort s =
     (case poStart os ''sshuttle'' [''-r'', sshuttleHost, apiServerIP @ '':'' @ apiServerPort] (pxWorld s) of
        (Some e, w) \<Rightarrow> (Inl e, s\<lparr>pxWorld := w\<rparr>)
      | (None, w) \<Rightarrow>
          (case start_process (targetKey apiServerIP apiServerPort) (pxTunnels s) of
             (pid, m) \<Rightarrow> (Inr pid, s\<lparr>pxTunnels := m, pxWorld := w\<rparr>)))"

text \<open>The \<open>select\<close>: \<open>Some code\<close> when it receives from \<open>exited\<close>, \<open>None\<close> from \<open>startupElapsed\<close>.\<close>

definition select_startup ::
  "'w proxy_os \<Rightarrow> nat \<Rightarrow> 'w proxy_state \<Rightarrow> int option \<times> 'w proxy_state" where
  "select_startup os pid s =
     (case poSelect os pid (pxWorld s) of
        (Some code, w) \<Rightarrow> (Some code, s\<lparr>pxTunnels := process_exits pid (pxTunnels s), pxWorld := w\<rparr>)
      | (None, w) \<Rightarrow> (None, s\<lparr>pxWorld := w\<rparr>))"

definition ensureProcessProxy ::
  "'w proxy_os \<Rightarrow> string \<Rightarrow> string \<Rightarrow> string \<Rightarrow> string \<Rightarrow> duration
    \<Rightarrow> (error + unit, 'w proxy_state) proc" where
  "ensureProcessProxy os key apiServerIP apiServerPort sshuttleHost ttl =
     bind_proc (on_tunnels (\<lambda>m. (tnEntries m key, m))) (\<lambda>existing.
       case existing of
         Some r \<Rightarrow>
           bind_proc (modify_tunnels (refresh_stop r)) (\<lambda>_.
           bind_proc (modify_tunnels (refresh_rearm ttl key r)) (\<lambda>_.
           Ret (Inr ())))
       | None \<Rightarrow>
           try_wrap ''proxy: spawning sshuttle: ''
             (act (spawn_process os sshuttleHost apiServerIP apiServerPort)) (\<lambda>pid.
           bind_proc (act (select_startup os pid)) (\<lambda>exited.
             case exited of
               Some code \<Rightarrow>
                 Ret (Inl (Errorf [Txt (''sshuttle exited early with code '' @ Itoa code)]))
             | None \<Rightarrow>
                 bind_proc (on_tunnels (arm_entry ttl key pid)) (\<lambda>r.
                 bind_proc (modify_tunnels (insert_entry key r)) (\<lambda>_.
                 Ret (Inr ()))))))"

definition no_options :: Options where
  "no_options = \<lparr>optEnv = [], optInput = [], optMaxOutputBytes = 0\<rparr>"

definition exec_command ::
  "'w proxy_os \<Rightarrow> string \<Rightarrow> string list \<Rightarrow> (error + Output, 'w proxy_state) proc" where
  "exec_command os file args =
     act (\<lambda>s. case poExecFile os file args no_options (pxWorld s) of (r, w) \<Rightarrow> (r, s\<lparr>pxWorld := w\<rparr>))"

definition isUnitActive :: "'w proxy_os \<Rightarrow> string \<Rightarrow> (bool, 'w proxy_state) proc" where
  "isUnitActive os name =
     bind_proc (exec_command os ''systemctl'' [''--user'', ''is-active'', name]) (\<lambda>r.
       case r of Inl _ \<Rightarrow> Ret False | Inr out \<Rightarrow> Ret (TrimSpace (outStdout out) = ''active''))"

definition ensureSystemdProxy ::
  "'w proxy_os \<Rightarrow> string \<Rightarrow> string \<Rightarrow> string \<Rightarrow> duration \<Rightarrow> (error + unit, 'w proxy_state) proc" where
  "ensureSystemdProxy os apiServerIP apiServerPort sshuttleHost ttl =
     (let name = unitName apiServerIP apiServerPort;
          ttlSeconds = Itoa (sint (IntSeconds ttl))
      in bind_proc (isUnitActive os name) (\<lambda>active.
        if active then
          try_wrap (''proxy: extending '' @ name @ '': '')
            (exec_command os ''systemctl''
               [''--user'', ''set-property'', name, ''RuntimeMaxSec='' @ ttlSeconds])
            (\<lambda>_. Ret (Inr ()))
        else
          try_wrap ''proxy: starting systemd-run tunnel: ''
            (exec_command os ''systemd-run''
               [''--user'', ''--unit='' @ name, ''--property=RuntimeMaxSec='' @ ttlSeconds,
                ''--property=Restart=on-failure'', ''--property=RestartSec=2'',
                ''--property=StartLimitIntervalSec=60'', ''--property=StartLimitBurst=3'',
                ''--collect'', ''--slice=capi-shell-api-endpoint-proxy.slice'', ''--'',
                ''sshuttle'', ''-r'', sshuttleHost, apiServerIP @ '':'' @ apiServerPort])
            (\<lambda>_. Ret (Inr ()))))"

definition EnsureProxy ::
  "'w proxy_os \<Rightarrow> string \<Rightarrow> string \<Rightarrow> string \<Rightarrow> duration \<Rightarrow> (error + unit, 'w proxy_state) proc" where
  "EnsureProxy os apiServerIP apiServerPort sshuttleHost ttl =
     (if poUnderSystemd os then ensureSystemdProxy os apiServerIP apiServerPort sshuttleHost ttl
      else ensureProcessProxy os (targetKey apiServerIP apiServerPort)
             apiServerIP apiServerPort sshuttleHost ttl)"

definition killProcessEntry :: "string \<Rightarrow> (unit, 'w proxy_state) proc" where
  "killProcessEntry key =
     bind_proc (on_tunnels (kill_delete key)) (\<lambda>found.
       case found of None \<Rightarrow> Ret () | Some r \<Rightarrow> modify_tunnels (kill_finish r))"

primrec kill_keys :: "string list \<Rightarrow> (unit, 'w proxy_state) proc" where
  "kill_keys [] = Ret ()"
| "kill_keys (k # ks) = bind_proc (killProcessEntry k) (\<lambda>_. kill_keys ks)"

text \<open>\<open>order\<close> is the order in which the map of entries is visited.\<close>

definition KillAllProcessProxies ::
  "((string \<rightharpoonup> nat) \<Rightarrow> string list) \<Rightarrow> (unit, 'w proxy_state) proc" where
  "KillAllProcessProxies order =
     bind_proc (on_tunnels (\<lambda>m. (order (tnEntries m), m))) kill_keys"

section \<open>All of it at once\<close>

text \<open>
  Where the call in progress for a target is (\<open>singleflight\<close> lets there be one; its other
  callers only wait for its result), and where the goroutine of a fired timer or of the exit
  hook is.
\<close>

datatype phase =
    AtLookup
  | AtStop nat
  | AtRearm nat
  | AtSpawn
  | AtSelect nat
  | AtArm nat
  | AtInsert nat

datatype kill = Starting string | Finishing nat

record system =
  sysTunnels :: tunnels
  sysCalls :: "string \<rightharpoonup> phase"
  sysKills :: "kill multiset"
  sysWatchers :: "(string \<times> nat) set"
  sysReturned :: "(string \<times> bool) list"

definition start_system :: system where
  "start_system = \<lparr>sysTunnels = new_manager, sysCalls = Map.empty, sysKills = {#},
     sysWatchers = {}, sysReturned = []\<rparr>"

definition goto :: "string \<Rightarrow> phase \<Rightarrow> tunnels \<Rightarrow> system \<Rightarrow> system" where
  "goto key ph m x = x\<lparr>sysTunnels := m, sysCalls := (sysCalls x)(key \<mapsto> ph)\<rparr>"

definition returns :: "string \<Rightarrow> bool \<Rightarrow> tunnels \<Rightarrow> system \<Rightarrow> system" where
  "returns key ok m x =
     x\<lparr>sysTunnels := m, sysCalls := (sysCalls x)(key := None),
       sysReturned := (key, ok) # sysReturned x\<rparr>"

inductive proxy_step :: "system \<Rightarrow> system \<Rightarrow> bool" where
  call: "sysCalls x key = None \<Longrightarrow>
     proxy_step x (goto key AtLookup (sysTunnels x) x)"
| found: "sysCalls x key = Some AtLookup \<Longrightarrow> tnEntries (sysTunnels x) key = Some r \<Longrightarrow>
     proxy_step x (goto key (AtStop r) (sysTunnels x) x)"
| stop: "sysCalls x key = Some (AtStop r) \<Longrightarrow>
     proxy_step x (goto key (AtRearm r) (refresh_stop r (sysTunnels x)) x)"
| rearm: "sysCalls x key = Some (AtRearm r) \<Longrightarrow>
     proxy_step x (returns key True (refresh_rearm ttl key r (sysTunnels x)) x)"
| missing: "sysCalls x key = Some AtLookup \<Longrightarrow> tnEntries (sysTunnels x) key = None \<Longrightarrow>
     proxy_step x (goto key AtSpawn (sysTunnels x) x)"
| not_spawned: "sysCalls x key = Some AtSpawn \<Longrightarrow>
     proxy_step x (returns key False (sysTunnels x) x)"
| spawned: "sysCalls x key = Some AtSpawn \<Longrightarrow> start_process key (sysTunnels x) = (pid, m) \<Longrightarrow>
     proxy_step x (goto key (AtSelect pid) m x)"
| exited_early: "sysCalls x key = Some (AtSelect pid) \<Longrightarrow>
     proxy_step x (returns key False (process_exits pid (sysTunnels x)) x)"
| started: "sysCalls x key = Some (AtSelect pid) \<Longrightarrow>
     proxy_step x (goto key (AtArm pid) (sysTunnels x) x)"
| arm: "sysCalls x key = Some (AtArm pid) \<Longrightarrow> arm_entry ttl key pid (sysTunnels x) = (r, m) \<Longrightarrow>
     proxy_step x (goto key (AtInsert r) m x)"
| insert: "sysCalls x key = Some (AtInsert r) \<Longrightarrow>
     proxy_step x ((returns key True (insert_entry key r (sysTunnels x)) x)
       \<lparr>sysWatchers := Set.insert (key, r) (sysWatchers x)\<rparr>)"
| exit: "proxy_step x (x\<lparr>sysTunnels := process_exits pid (sysTunnels x)\<rparr>)"
| reap: "(key, r) \<in> sysWatchers x \<Longrightarrow> tnHeap (sysTunnels x) r = Some e \<Longrightarrow>
     tnProcs (sysTunnels x) (peProcess e) = Some p \<Longrightarrow> \<not> shAlive p \<Longrightarrow>
     proxy_step x (x\<lparr>sysTunnels := reap_entry key r (sysTunnels x),
       sysWatchers := sysWatchers x - {(key, r)}\<rparr>)"
| fire: "tnTimers (sysTunnels x) t = Some (key, ttl) \<Longrightarrow>
     proxy_step x (x\<lparr>sysTunnels := stop_timer t (sysTunnels x),
       sysKills := add_mset (Starting key) (sysKills x)\<rparr>)"
| exit_hook: "tnEntries (sysTunnels x) key \<noteq> None \<Longrightarrow>
     proxy_step x (x\<lparr>sysKills := add_mset (Starting key) (sysKills x)\<rparr>)"
| kill: "Starting key \<in># sysKills x \<Longrightarrow> kill_delete key (sysTunnels x) = (found, m) \<Longrightarrow>
     proxy_step x (x\<lparr>sysTunnels := m,
       sysKills := (sysKills x - {#Starting key#})
         + (case found of None \<Rightarrow> {#} | Some r \<Rightarrow> {#Finishing r#})\<rparr>)"
| terminate: "Finishing r \<in># sysKills x \<Longrightarrow>
     proxy_step x (x\<lparr>sysTunnels := kill_finish r (sysTunnels x),
       sysKills := sysKills x - {#Finishing r#}\<rparr>)"

inductive_cases proxy_stepE: "proxy_step x y"

abbreviation proxy_steps :: "system \<Rightarrow> system \<Rightarrow> bool" where
  "proxy_steps \<equiv> proxy_step\<^sup>*\<^sup>*"

section \<open>At most one tunnel per target\<close>

text \<open>The process a reference, an entry of the map and a call in progress hold.\<close>

definition ref_process :: "tunnels \<Rightarrow> nat \<Rightarrow> nat option" where
  "ref_process m r = map_option peProcess (tnHeap m r)"

definition entry_process :: "tunnels \<Rightarrow> string \<Rightarrow> nat option" where
  "entry_process m key = Option.bind (tnEntries m key) (ref_process m)"

fun phase_process :: "(nat \<Rightarrow> nat option) \<Rightarrow> phase \<Rightarrow> nat option" where
  "phase_process ref (AtSelect pid) = Some pid"
| "phase_process ref (AtArm pid) = Some pid"
| "phase_process ref (AtInsert r) = ref r"
| "phase_process ref _ = None"

definition call_process :: "system \<Rightarrow> string \<Rightarrow> nat option" where
  "call_process x key = Option.bind (sysCalls x key) (phase_process (ref_process (sysTunnels x)))"

text \<open>A phase that has seen the map without an entry for its target.\<close>

fun creating :: "phase \<Rightarrow> bool" where
  "creating AtSpawn = True"
| "creating (AtSelect pid) = True"
| "creating (AtArm pid) = True"
| "creating (AtInsert r) = True"
| "creating _ = False"

text \<open>Alive, and not told to stop.\<close>

definition running :: "tunnels \<Rightarrow> string \<Rightarrow> nat \<Rightarrow> bool" where
  "running m key pid =
     (case tnProcs m pid of
        None \<Rightarrow> False
      | Some p \<Rightarrow> shTarget p = key \<and> shAlive p \<and> \<not> shTerminated p)"

definition about_to_stop :: "system \<Rightarrow> nat \<Rightarrow> bool" where
  "about_to_stop x pid = (\<exists>r. Finishing r \<in># sysKills x \<and> ref_process (sysTunnels x) r = Some pid)"

definition tunnels_inv :: "system \<Rightarrow> bool" where
  "tunnels_inv x =
     (let m = sysTunnels x in
      (\<forall>key pid. running m key pid \<longrightarrow>
         entry_process m key = Some pid \<or> call_process x key = Some pid \<or> about_to_stop x pid)
    \<and> (\<forall>key r. tnEntries m key = Some r \<longrightarrow>
         tnHeap m r \<noteq> None \<and> (\<forall>ph. sysCalls x key = Some ph \<longrightarrow> \<not> creating ph))
    \<and> (\<forall>key r. sysCalls x key = Some (AtInsert r) \<longrightarrow> tnHeap m r \<noteq> None)
    \<and> (\<forall>r. tnHeap m r \<noteq> None \<longrightarrow> r < tnNext m)
    \<and> (\<forall>pid. tnProcs m pid \<noteq> None \<longrightarrow> pid < tnNext m))"

text \<open>What each section does to the entries, the processes and the references.\<close>

lemma ref_process_simps [simp]:
  "ref_process (m\<lparr>tnEntries := a\<rparr>) r = ref_process m r"
  "ref_process (m\<lparr>tnTimers := b\<rparr>) r = ref_process m r"
  "ref_process (m\<lparr>tnProcs := c\<rparr>) r = ref_process m r"
  "ref_process (m\<lparr>tnNext := n\<rparr>) r = ref_process m r"
  by (simp_all add: ref_process_def)

lemmas section_defs = stop_timer_def after_func_def refresh_stop_def refresh_rearm_def
  start_process_def process_exits_def arm_entry_def insert_entry_def reap_entry_def
  kill_delete_def kill_finish_def

lemma entries_after [simp]:
  "tnEntries (stop_timer t m) = tnEntries m"
  "tnEntries (refresh_stop r m) = tnEntries m"
  "tnEntries (refresh_rearm ttl key r m) = tnEntries m"
  "tnEntries (process_exits pid m) = tnEntries m"
  "tnEntries (insert_entry key r m) = (tnEntries m)(key \<mapsto> r)"
  "tnEntries (kill_finish r m) = tnEntries m"
  by (auto simp: section_defs split: option.split)

lemma procs_after [simp]:
  "tnProcs (stop_timer t m) = tnProcs m"
  "tnProcs (refresh_stop r m) = tnProcs m"
  "tnProcs (refresh_rearm ttl key r m) = tnProcs m"
  "tnProcs (insert_entry key r m) = tnProcs m"
  "tnProcs (reap_entry key r m) = tnProcs m"
  by (auto simp: section_defs split: option.split)

lemma refs_after [simp]:
  "ref_process (stop_timer t m) = ref_process m"
  "ref_process (refresh_stop r m) = ref_process m"
  "ref_process (refresh_rearm ttl key r0 m) = ref_process m"
  "ref_process (process_exits pid m) = ref_process m"
  "ref_process (insert_entry key r m) = ref_process m"
  "ref_process (reap_entry key r m) = ref_process m"
  "ref_process (kill_finish r m) = ref_process m"
  by (auto simp: section_defs ref_process_def fun_eq_iff option.map_comp o_def split: option.split)

lemma next_after [simp]:
  "tnNext (stop_timer t m) = tnNext m"
  "tnNext (refresh_stop r m) = tnNext m"
  "tnNext (refresh_rearm ttl key r m) = Suc (tnNext m)"
  "tnNext (process_exits pid m) = tnNext m"
  "tnNext (insert_entry key r m) = tnNext m"
  "tnNext (reap_entry key r m) = tnNext m"
  "tnNext (kill_finish r m) = tnNext m"
  by (auto simp: section_defs split: option.split)

lemma heap_ref: "tnHeap m r = None \<longleftrightarrow> ref_process m r = None"
  by (simp add: ref_process_def)

lemma running_exits:
  "running (process_exits pid m) key q \<longleftrightarrow> running m key q \<and> q \<noteq> pid"
  by (auto simp: running_def process_exits_def split: option.splits)

lemma running_procs: "tnProcs m = tnProcs m' \<Longrightarrow> running m = running m'"
  by (simp add: running_def fun_eq_iff)

lemma running_kill:
  "running (kill_finish r m) key q \<longleftrightarrow> running m key q \<and> ref_process m r \<noteq> Some q"
  by (auto simp: running_def kill_finish_def ref_process_def stop_timer_def split: option.splits)

lemma start_process_eq:
  "start_process key m = (pid, m') \<Longrightarrow>
   pid = tnNext m \<and> tnEntries m' = tnEntries m \<and> ref_process m' = ref_process m
   \<and> tnNext m' = Suc (tnNext m) \<and> tnProcs m' q = (if q = pid then
       Some \<lparr>shTarget = key, shAlive = True, shTerminated = False\<rparr> else tnProcs m q)"
  by (auto simp: start_process_def fun_eq_iff)

lemma arm_entry_eq:
  "arm_entry ttl key pid m = (r, m') \<Longrightarrow>
   r = Suc (tnNext m) \<and> tnEntries m' = tnEntries m \<and> tnProcs m' = tnProcs m
   \<and> tnNext m' = Suc (Suc (tnNext m))
   \<and> ref_process m' q = (if q = r then Some pid else ref_process m q)"
  by (auto simp: arm_entry_def after_func_def ref_process_def)

text \<open>The invariant in terms of these.\<close>

definition tracked ::
  "tunnels \<Rightarrow> (string \<rightharpoonup> phase) \<Rightarrow> kill multiset \<Rightarrow> string \<Rightarrow> nat \<Rightarrow> bool" where
  "tracked m calls kills key pid =
     (Option.bind (tnEntries m key) (ref_process m) = Some pid
      \<or> Option.bind (calls key) (phase_process (ref_process m)) = Some pid
      \<or> (\<exists>r. Finishing r \<in># kills \<and> ref_process m r = Some pid))"

definition calls_ok :: "tunnels \<Rightarrow> (string \<rightharpoonup> phase) \<Rightarrow> bool" where
  "calls_ok m calls =
     ((\<forall>key r. tnEntries m key = Some r \<longrightarrow>
         ref_process m r \<noteq> None \<and> (\<forall>ph. calls key = Some ph \<longrightarrow> \<not> creating ph))
    \<and> (\<forall>key r. calls key = Some (AtInsert r) \<longrightarrow> ref_process m r \<noteq> None))"

definition fresh_ok :: "tunnels \<Rightarrow> bool" where
  "fresh_ok m = ((\<forall>r. ref_process m r \<noteq> None \<longrightarrow> r < tnNext m)
    \<and> (\<forall>pid. tnProcs m pid \<noteq> None \<longrightarrow> pid < tnNext m))"

definition inv_of :: "tunnels \<Rightarrow> (string \<rightharpoonup> phase) \<Rightarrow> kill multiset \<Rightarrow> bool" where
  "inv_of m calls kills =
     ((\<forall>key pid. running m key pid \<longrightarrow> tracked m calls kills key pid)
      \<and> calls_ok m calls \<and> fresh_ok m)"

lemma tunnels_inv_eq: "tunnels_inv x = inv_of (sysTunnels x) (sysCalls x) (sysKills x)"
  by (simp add: tunnels_inv_def inv_of_def tracked_def calls_ok_def fresh_ok_def Let_def
      entry_process_def call_process_def about_to_stop_def heap_ref)

lemma inv_start: "tunnels_inv start_system"
  by (simp add: tunnels_inv_def start_system_def new_manager_def running_def)

text \<open>A section that leaves entries and references alone, and starts no process.\<close>

lemma inv_of_quiet:
  assumes "inv_of m calls kills" and "tnEntries m' = tnEntries m"
    and "\<And>key pid. running m' key pid \<Longrightarrow> running m key pid"
    and "ref_process m' = ref_process m" and "tnNext m \<le> tnNext m'"
    and "\<And>pid. tnProcs m' pid \<noteq> None \<Longrightarrow> tnProcs m pid \<noteq> None"
  shows "inv_of m' calls kills"
proof -
  have "tracked m' calls kills k pid = tracked m calls kills k pid" for k pid
    using assms(2,4) by (simp add: tracked_def)
  moreover have "calls_ok m' calls = calls_ok m calls"
    using assms(2,4) by (simp add: calls_ok_def)
  moreover have "fresh_ok m'"
    using assms(1,4,5,6) unfolding inv_of_def fresh_ok_def by (metis less_le_trans)
  ultimately show ?thesis using assms(1,3) by (auto simp: inv_of_def)
qed

text \<open>A call that moves on, holding the same process or none that runs.\<close>

lemma tracked_call:
  assumes "tracked m calls kills k pid" and "k \<noteq> key \<or>
    Option.bind (calls key) (phase_process (ref_process m)) \<noteq> Some pid \<or>
    Option.bind c (phase_process (ref_process m)) = Some pid"
  shows "tracked m (calls(key := c)) kills k pid"
  using assms unfolding tracked_def by auto

lemma inv_of_call:
  assumes "inv_of m calls kills"
    and "\<And>pid. running m key pid \<Longrightarrow>
      Option.bind (calls key) (phase_process (ref_process m)) \<noteq> Some pid \<or>
      Option.bind c (phase_process (ref_process m)) = Some pid"
    and "\<And>ph. c = Some ph \<Longrightarrow> creating ph \<Longrightarrow> tnEntries m key = None"
    and "\<And>r. c = Some (AtInsert r) \<Longrightarrow> ref_process m r \<noteq> None"
  shows "inv_of m (calls(key := c)) kills"
proof -
  have "tracked m (calls(key := c)) kills k pid" if "running m k pid" for k pid
    using tracked_call [of m calls kills k pid key c] assms(1,2) that
    unfolding inv_of_def by blast
  moreover have "calls_ok m (calls(key := c))"
    using assms(1,3,4) unfolding inv_of_def calls_ok_def by auto
  ultimately show ?thesis using assms(1) by (simp add: inv_of_def)
qed

lemma inv_of_kills:
  assumes "inv_of m calls kills" and "\<And>r. Finishing r \<in># kills \<Longrightarrow> Finishing r \<in># kills'"
  shows "inv_of m calls kills'"
  using assms unfolding inv_of_def tracked_def by blast

lemma inv_call:
  assumes "tunnels_inv x"
    and "\<And>pid. running (sysTunnels x) key pid \<Longrightarrow> call_process x key \<noteq> Some pid \<or>
      phase_process (ref_process (sysTunnels x)) ph = Some pid"
    and "creating ph \<Longrightarrow> tnEntries (sysTunnels x) key = None"
    and "\<And>r. ph = AtInsert r \<Longrightarrow> ref_process (sysTunnels x) r \<noteq> None"
  shows "tunnels_inv (goto key ph (sysTunnels x) x)"
  using inv_of_call [of "sysTunnels x" "sysCalls x" "sysKills x" key "Some ph"] assms
  by (simp add: tunnels_inv_eq goto_def call_process_def)

lemma inv_section:
  assumes "tunnels_inv x" and "tnEntries m = tnEntries (sysTunnels x)"
    and "\<And>key pid. running m key pid \<Longrightarrow> running (sysTunnels x) key pid"
    and "ref_process m = ref_process (sysTunnels x)" and "tnNext (sysTunnels x) \<le> tnNext m"
    and "\<And>pid. tnProcs m pid \<noteq> None \<Longrightarrow> tnProcs (sysTunnels x) pid \<noteq> None"
  shows "tunnels_inv (x\<lparr>sysTunnels := m\<rparr>)"
  using inv_of_quiet [of "sysTunnels x" "sysCalls x" "sysKills x" m] assms
  by (simp add: tunnels_inv_eq)

lemma inv_return:
  assumes "tunnels_inv x"
    and "\<And>pid. running (sysTunnels x) key pid \<Longrightarrow> call_process x key \<noteq> Some pid"
  shows "tunnels_inv (returns key ok (sysTunnels x) x)"
  using inv_of_call [of "sysTunnels x" "sysCalls x" "sysKills x" key None] assms
  by (simp add: tunnels_inv_eq returns_def call_process_def)

lemma goto_section: "goto key ph m x = goto key ph (sysTunnels (x\<lparr>sysTunnels := m\<rparr>)) (x\<lparr>sysTunnels := m\<rparr>)"
  by (simp add: goto_def)

lemma returns_section:
  "returns key ok m x = returns key ok (sysTunnels (x\<lparr>sysTunnels := m\<rparr>)) (x\<lparr>sysTunnels := m\<rparr>)"
  by (simp add: returns_def)

lemma process_exits_procs: "tnProcs (process_exits pid m) q \<noteq> None \<longleftrightarrow> tnProcs m q \<noteq> None"
  by (auto simp: process_exits_def)

lemma kill_finish_procs: "tnProcs (kill_finish r m) q \<noteq> None \<longleftrightarrow> tnProcs m q \<noteq> None"
  by (auto simp: kill_finish_def stop_timer_def split: option.split)

lemma tracked_running:
  assumes "tunnels_inv x" and "running (sysTunnels x) key pid"
  shows "tracked (sysTunnels x) (sysCalls x) (sysKills x) key pid"
  using assms by (simp add: tunnels_inv_eq inv_of_def)

lemma tracked_mono:
  assumes "tracked m calls kills k q" and "tnEntries m' = tnEntries m"
    and "\<And>r p. ref_process m r = Some p \<Longrightarrow> ref_process m' r = Some p"
    and "Option.bind (calls k) (phase_process (ref_process m)) = Some q \<Longrightarrow>
      Option.bind (calls' k) (phase_process (ref_process m')) = Some q"
  shows "tracked m' calls' kills k q"
  using assms(1) unfolding tracked_def
proof (elim disjE exE conjE)
  assume "Option.bind (tnEntries m k) (ref_process m) = Some q"
  with assms(2,3) show "Option.bind (tnEntries m' k) (ref_process m') = Some q \<or>
      Option.bind (calls' k) (phase_process (ref_process m')) = Some q \<or>
      (\<exists>r. Finishing r \<in># kills \<and> ref_process m' r = Some q)"
    by (auto simp: bind_eq_Some_conv)
qed (use assms(3,4) in blast)+

lemma calls_ok_mono:
  assumes "calls_ok m calls" and "tnEntries m' = tnEntries m"
    and "\<And>r p. ref_process m r = Some p \<Longrightarrow> ref_process m' r = Some p"
    and "creating ph \<Longrightarrow> tnEntries m key = None"
    and "\<And>r. ph = AtInsert r \<Longrightarrow> ref_process m' r \<noteq> None"
  shows "calls_ok m' (calls(key \<mapsto> ph))"
proof -
  have "ref_process m' r \<noteq> None" if "ref_process m r \<noteq> None" for r
    using that assms(3) by (cases "ref_process m r") auto
  with assms(1,2,4,5) show ?thesis unfolding calls_ok_def by (auto split: if_splits)
qed

lemma creating_none:
  assumes "tunnels_inv x" and "sysCalls x key = Some ph" and "creating ph"
  shows "tnEntries (sysTunnels x) key = None"
  using assms by (cases "tnEntries (sysTunnels x) key")
    (auto simp: tunnels_inv_eq inv_of_def calls_ok_def)

lemma inserting_ref:
  assumes "tunnels_inv x" and "sysCalls x key = Some (AtInsert r)"
  shows "ref_process (sysTunnels x) r \<noteq> None"
  using assms by (simp add: tunnels_inv_eq inv_of_def calls_ok_def)

lemma inv_insert:
  assumes "tunnels_inv x" and "sysCalls x key = Some (AtInsert r)"
  shows "inv_of (insert_entry key r (sysTunnels x)) ((sysCalls x)(key := None)) (sysKills x)"
proof -
  let ?m = "sysTunnels x"
  have old: "inv_of ?m (sysCalls x) (sysKills x)" using assms(1) by (simp add: tunnels_inv_eq)
  have none: "tnEntries ?m key = None" by (rule creating_none [OF assms]) simp
  have ref: "ref_process ?m r \<noteq> None" by (rule inserting_ref [OF assms])
  have "tracked (insert_entry key r ?m) ((sysCalls x)(key := None)) (sysKills x) k pid"
    if "running ?m k pid" for k pid
  proof -
    from that old have "tracked ?m (sysCalls x) (sysKills x) k pid" by (simp add: inv_of_def)
    with assms(2) none show ?thesis by (cases "k = key") (simp_all add: tracked_def)
  qed
  moreover have "calls_ok (insert_entry key r ?m) ((sysCalls x)(key := None))"
    using old ref by (auto simp: inv_of_def calls_ok_def)
  moreover have "fresh_ok (insert_entry key r ?m)"
    using old by (auto simp: inv_of_def fresh_ok_def)
  moreover have "running (insert_entry key r ?m) = running ?m" by (rule running_procs) simp
  ultimately show ?thesis by (simp add: inv_of_def)
qed

lemma inv_spawn:
  assumes "tunnels_inv x" and "sysCalls x key = Some AtSpawn"
    and "start_process key (sysTunnels x) = (pid, m)"
  shows "tunnels_inv (goto key (AtSelect pid) m x)"
proof -
  let ?m = "sysTunnels x"
  note new = start_process_eq [OF assms(3)]
  have old: "inv_of ?m (sysCalls x) (sysKills x)" using assms(1) by (simp add: tunnels_inv_eq)
  have run: "running m k q \<longleftrightarrow> q = pid \<and> k = key \<or> q \<noteq> pid \<and> running ?m k q" for k q
    using new by (auto simp: running_def)
  have "tracked m ((sysCalls x)(key \<mapsto> AtSelect pid)) (sysKills x) k q" if "running m k q" for k q
  proof (cases "q = pid")
    case True
    with that run show ?thesis by (simp add: tracked_def)
  next
    case False
    with that run old have "tracked ?m (sysCalls x) (sysKills x) k q" by (simp add: inv_of_def)
    then show ?thesis
      by (rule tracked_mono) (use new assms(2) in \<open>auto split: if_splits\<close>)
  qed
  moreover have "calls_ok m ((sysCalls x)(key \<mapsto> AtSelect pid))"
    by (rule calls_ok_mono [of ?m]) (use old new creating_none [OF assms(1,2)] in \<open>simp_all add: inv_of_def\<close>)
  moreover have "fresh_ok m"
    using old new by (auto simp: inv_of_def fresh_ok_def less_Suc_eq)
  ultimately show ?thesis by (simp add: tunnels_inv_eq goto_def inv_of_def)
qed

lemma inv_arm:
  assumes "tunnels_inv x" and "sysCalls x key = Some (AtArm pid)"
    and "arm_entry ttl key pid (sysTunnels x) = (r, m)"
  shows "tunnels_inv (goto key (AtInsert r) m x)"
proof -
  let ?m = "sysTunnels x"
  note new = arm_entry_eq [OF assms(3)]
  have old: "inv_of ?m (sysCalls x) (sysKills x)" using assms(1) by (simp add: tunnels_inv_eq)
  then have "ref_process ?m r = None" using new by (auto simp: inv_of_def fresh_ok_def)
  then have refs: "ref_process m q = Some p" if "ref_process ?m q = Some p" for q p
    using that new by auto
  have phases: "Option.bind c (phase_process (ref_process m)) = Some p"
    if c: "Option.bind c (phase_process (ref_process ?m)) = Some p" for c p
  proof -
    from c obtain ph where "c = Some ph" by (cases c) auto
    with c refs show ?thesis by (cases ph) auto
  qed
  have "tracked m ((sysCalls x)(key \<mapsto> AtInsert r)) (sysKills x) k q" if "running m k q" for k q
  proof -
    have "running ?m k q" using that running_procs [of m ?m] new by simp
    with old have "tracked ?m (sysCalls x) (sysKills x) k q" by (simp add: inv_of_def)
    then show ?thesis
    proof (rule tracked_mono)
      show "tnEntries m = tnEntries ?m" using new by simp
      show "ref_process m q = Some p" if "ref_process ?m q = Some p" for q p by (rule refs [OF that])
      show "Option.bind (((sysCalls x)(key \<mapsto> AtInsert r)) k) (phase_process (ref_process m)) = Some q"
        if "Option.bind (sysCalls x k) (phase_process (ref_process ?m)) = Some q"
        using that phases [OF that] assms(2) new by (cases "k = key") auto
    qed
  qed
  moreover have "calls_ok m ((sysCalls x)(key \<mapsto> AtInsert r))"
    by (rule calls_ok_mono [of ?m])
      (use old new refs creating_none [OF assms(1,2)] in \<open>simp_all add: inv_of_def\<close>)
  moreover have "fresh_ok m"
    using old new by (auto simp: inv_of_def fresh_ok_def less_Suc_eq)
  ultimately show ?thesis by (simp add: tunnels_inv_eq goto_def inv_of_def)
qed

lemma inv_delete:
  assumes "inv_of m calls kills"
    and "\<And>r pid. tnEntries m key = Some r \<Longrightarrow> ref_process m r = Some pid \<Longrightarrow> running m key pid \<Longrightarrow>
       \<exists>r'. Finishing r' \<in># kills' \<and> ref_process m r' = Some pid"
    and "\<And>r. Finishing r \<in># kills \<Longrightarrow> Finishing r \<in># kills'"
  shows "inv_of (m\<lparr>tnEntries := (tnEntries m)(key := None)\<rparr>) calls kills'"
proof -
  let ?m = "m\<lparr>tnEntries := (tnEntries m)(key := None)\<rparr>"
  have refs: "ref_process ?m = ref_process m" by (rule ext) simp
  have run: "running ?m = running m" by (rule running_procs) simp
  have "tracked ?m calls kills' k q" if "running m k q" for k q
  proof -
    from that assms(1) have "tracked m calls kills k q" by (simp add: inv_of_def)
    with that assms(2,3) show ?thesis
      by (cases "k = key") (auto simp: tracked_def bind_eq_Some_conv refs)
  qed
  with assms(1) show ?thesis
    by (auto simp: inv_of_def calls_ok_def fresh_ok_def refs run)
qed

lemma inv_terminate:
  assumes "inv_of m calls kills"
  shows "inv_of (kill_finish r m) calls (kills - {#Finishing r#})"
proof -
  have "tracked (kill_finish r m) calls (kills - {#Finishing r#}) k q"
    if "running (kill_finish r m) k q" for k q
  proof -
    from that have "running m k q" and not: "ref_process m r \<noteq> Some q" by (simp_all add: running_kill)
    with assms have "tracked m calls kills k q" by (simp add: inv_of_def)
    with not show ?thesis by (auto simp: tracked_def in_diff_count count_eq_zero_iff)
  qed
  with assms kill_finish_procs show ?thesis
    by (auto simp: inv_of_def calls_ok_def fresh_ok_def)
qed

lemmas phase_simps = call_process_def goto_def returns_def

theorem proxy_step_inv:
  assumes "proxy_step x y" and "tunnels_inv x"
  shows "tunnels_inv y"
  using assms
proof (induction rule: proxy_step.induct)
  case (call x key)
  show ?case by (rule inv_call [OF call(2)]) (simp_all add: call_process_def call(1))
next
  case (found x key r)
  show ?case by (rule inv_call [OF found(3)]) (simp_all add: call_process_def found(1))
next
  case (stop x key r)
  have "tunnels_inv (x\<lparr>sysTunnels := refresh_stop r (sysTunnels x)\<rparr>)"
    by (rule inv_section [OF stop(2)]) (simp_all add: running_def)
  then show ?case
    unfolding goto_section [of key "AtRearm r" "refresh_stop r (sysTunnels x)"]
    by (rule inv_call) (simp_all add: call_process_def stop(1))
next
  case (rearm x key r ttl)
  have "tunnels_inv (x\<lparr>sysTunnels := refresh_rearm ttl key r (sysTunnels x)\<rparr>)"
    by (rule inv_section [OF rearm(2)]) (simp_all add: running_def)
  then show ?case
    unfolding returns_section [of key True "refresh_rearm ttl key r (sysTunnels x)"]
    by (rule inv_return) (simp add: call_process_def rearm(1))
next
  case (missing x key)
  show ?case by (rule inv_call [OF missing(3)]) (simp_all add: call_process_def missing(1,2))
next
  case (not_spawned x key)
  show ?case by (rule inv_return [OF not_spawned(2)]) (simp add: call_process_def not_spawned(1))
next
  case (spawned x key pid m)
  show ?case by (rule inv_spawn [OF spawned(3,1,2)])
next
  case (exited_early x key pid)
  have "tunnels_inv (x\<lparr>sysTunnels := process_exits pid (sysTunnels x)\<rparr>)"
    by (rule inv_section [OF exited_early(2)]) (simp_all add: running_exits process_exits_procs del: not_None_eq)
  then show ?case
    unfolding returns_section [of key False "process_exits pid (sysTunnels x)"]
    by (rule inv_return) (simp add: call_process_def exited_early(1) running_exits)
next
  case (started x key pid)
  show ?case
    by (rule inv_call [OF started(2)])
      (use started(1) creating_none [OF started(2,1)] in \<open>simp_all add: call_process_def\<close>)
next
  case (arm x key pid ttl r m)
  show ?case by (rule inv_arm [OF arm(3,1,2)])
next
  case (insert x key r)
  show ?case using inv_insert [OF insert(2,1)] by (simp add: tunnels_inv_eq returns_def)
next
  case (exit x pid)
  show ?case by (rule inv_section [OF exit]) (simp_all add: running_exits process_exits_procs del: not_None_eq)
next
  case (reap key r x e p)
  let ?m = "sysTunnels x"
  have quiet: "tunnels_inv (x\<lparr>sysTunnels := refresh_stop r ?m\<rparr>)"
    by (rule inv_section [OF reap(5)]) (simp_all add: running_def)
  show ?case
  proof (cases "tnEntries ?m key = Some r")
    case True
    have dead: "\<not> running (refresh_stop r ?m) key pid" if "ref_process ?m r = Some pid" for pid
      using that reap(2-4) by (auto simp: running_def ref_process_def)
    have "inv_of ((refresh_stop r ?m)\<lparr>tnEntries := (tnEntries (refresh_stop r ?m))(key := None)\<rparr>)
        (sysCalls x) (sysKills x)"
      by (rule inv_delete [of _ _ "sysKills x"]) (use quiet True dead in \<open>auto simp: tunnels_inv_eq\<close>)
    with True show ?thesis by (simp add: tunnels_inv_eq reap_entry_def)
  next
    case False
    with reap(5) show ?thesis by (simp add: tunnels_inv_eq reap_entry_def)
  qed
next
  case (fire x t key ttl)
  have "tunnels_inv (x\<lparr>sysTunnels := stop_timer t (sysTunnels x)\<rparr>)"
    by (rule inv_section [OF fire(2)]) (simp_all add: running_def)
  then show ?case by (auto simp: tunnels_inv_eq elim: inv_of_kills)
next
  case (exit_hook x key)
  then show ?case by (auto simp: tunnels_inv_eq elim: inv_of_kills)
next
  case (kill key x found m)
  have old: "inv_of (sysTunnels x) (sysCalls x) (sysKills x)" using kill(3) by (simp add: tunnels_inv_eq)
  have m: "found = tnEntries (sysTunnels x) key"
      "m = (sysTunnels x)\<lparr>tnEntries := (tnEntries (sysTunnels x))(key := None)\<rparr>"
    using kill(2) by (simp_all add: kill_delete_def)
  show ?case
    unfolding tunnels_inv_eq m(2)
    by (simp, rule inv_delete [OF old]) (auto simp: m(1) in_diff_count)
next
  case (terminate r x)
  then show ?case using inv_terminate by (simp add: tunnels_inv_eq)
qed

lemma reachable_inv: "proxy_steps start_system x \<Longrightarrow> tunnels_inv x"
  by (induction rule: rtranclp_induct) (auto simp: inv_start proxy_step_inv)

text \<open>
  In every reachable state a process that is alive and neither signalled nor about to be is the
  one of its target's entry or of the call in progress for it, and it is the only one.
\<close>

lemma one_tunnel_per_target:
  assumes "proxy_steps start_system x" and "running (sysTunnels x) key pid" and "\<not> about_to_stop x pid"
  shows "(entry_process (sysTunnels x) key = Some pid \<or> call_process x key = Some pid)
     \<and> (\<forall>other. running (sysTunnels x) key other \<and> \<not> about_to_stop x other \<longrightarrow> other = pid)"
proof -
  have inv: "tunnels_inv x" by (rule reachable_inv [OF assms(1)])
  have held: "entry_process (sysTunnels x) key = Some p \<or> call_process x key = Some p"
    if "running (sysTunnels x) key p" "\<not> about_to_stop x p" for p
    using inv that by (auto simp: tunnels_inv_def Let_def)
  have one: "call_process x key = None" if "entry_process (sysTunnels x) key = Some p" for p
  proof (cases "sysCalls x key")
    case (Some ph)
    have "\<not> creating ph"
      using creating_none [OF inv Some] that by (auto simp: entry_process_def)
    with Some show ?thesis by (cases ph) (simp_all add: call_process_def)
  qed (simp add: call_process_def)
  from held [OF assms(2,3)] held one show ?thesis by (metis option.distinct(1) option.inject)
qed

section \<open>Facts about the parts of a system\<close>

lemma calls_of_goto [simp]:
  "sysCalls (goto key ph m x) = (sysCalls x)(key \<mapsto> ph)"
  "sysTunnels (goto key ph m x) = m"
  "sysKills (goto key ph m x) = sysKills x"
  "sysReturned (goto key ph m x) = sysReturned x"
  "sysWatchers (goto key ph m x) = sysWatchers x"
  "sysCalls (returns key ok m x) = (sysCalls x)(key := None)"
  "sysTunnels (returns key ok m x) = m"
  "sysKills (returns key ok m x) = sysKills x"
  "sysReturned (returns key ok m x) = (key, ok) # sysReturned x"
  "sysWatchers (returns key ok m x) = sysWatchers x"
  by (simp_all add: goto_def returns_def)

lemma run_on_tunnels [simp]:
  "run (on_tunnels f) s = (case f (pxTunnels s) of (a, m) \<Rightarrow> (a, s\<lparr>pxTunnels := m\<rparr>))"
  by (simp add: on_tunnels_def)

section \<open>Shutting down\<close>

definition terminated :: "tunnels \<Rightarrow> nat \<Rightarrow> bool" where
  "terminated m pid = (\<exists>p. tnProcs m pid = Some p \<and> shTerminated p)"

lemma kill_finish_terminates:
  assumes "tnHeap m r = Some e" and "tnProcs m (peProcess e) \<noteq> None"
  shows "terminated (kill_finish r m) (peProcess e)"
  using assms by (auto simp: terminated_def kill_finish_def stop_timer_def)

lemma kill_finish_keeps_terminated: "terminated m pid \<Longrightarrow> terminated (kill_finish r m) pid"
  by (auto simp: terminated_def kill_finish_def stop_timer_def split: option.split)

lemma kill_finish_frame [simp]:
  "tnHeap (kill_finish r m) = tnHeap m" "tnEntries (kill_finish r m) = tnEntries m"
  "tnProcs (kill_finish r m) pid = None \<longleftrightarrow> tnProcs m pid = None"
  by (auto simp: kill_finish_def stop_timer_def split: option.split)

lemma run_killProcessEntry:
  "run (killProcessEntry k) s =
     ((), s\<lparr>pxTunnels := (case tnEntries (pxTunnels s) k of
        None \<Rightarrow> pxTunnels s
      | Some r \<Rightarrow> kill_finish r (pxTunnels s\<lparr>tnEntries := (tnEntries (pxTunnels s))(k := None)\<rparr>))\<rparr>)"
proof (cases "tnEntries (pxTunnels s) k")
  case None
  then have "(tnEntries (pxTunnels s))(k := None) = tnEntries (pxTunnels s)" by auto
  with None show ?thesis by (simp add: killProcessEntry_def on_tunnels_def kill_delete_def)
next
  case (Some r)
  then show ?thesis by (simp add: killProcessEntry_def on_tunnels_def kill_delete_def)
qed

text \<open>What killing a list of keys, in any order, leaves.\<close>

lemma run_kill_keys:
  assumes "run (kill_keys ks) s = (u, s')"
  shows "pxWorld s' = pxWorld s
    \<and> tnEntries (pxTunnels s') = (tnEntries (pxTunnels s)) |` (- set ks)
    \<and> tnHeap (pxTunnels s') = tnHeap (pxTunnels s)
    \<and> (\<forall>pid. terminated (pxTunnels s) pid \<longrightarrow> terminated (pxTunnels s') pid)
    \<and> (\<forall>k \<in> set ks. \<forall>r e. tnEntries (pxTunnels s) k = Some r \<longrightarrow> tnHeap (pxTunnels s) r = Some e
         \<longrightarrow> tnProcs (pxTunnels s) (peProcess e) \<noteq> None \<longrightarrow> terminated (pxTunnels s') (peProcess e))"
  using assms
proof (induction ks arbitrary: s)
  case Nil
  then show ?case by simp
next
  case (Cons k ks)
  define s1 where "s1 = snd (run (killProcessEntry k) s)"
  have "run (kill_keys ks) s1 = (u, s')"
    using Cons.prems by (simp add: s1_def run_killProcessEntry)
  note ih = Cons.IH [OF this]
  have e1: "tnEntries (pxTunnels s1) = (tnEntries (pxTunnels s))(k := None)"
    by (auto simp: s1_def run_killProcessEntry fun_eq_iff split: option.split)
  have h1: "tnHeap (pxTunnels s1) = tnHeap (pxTunnels s)" "pxWorld s1 = pxWorld s"
    by (auto simp: s1_def run_killProcessEntry split: option.split)
  have p1: "tnProcs (pxTunnels s1) pid = None \<longleftrightarrow> tnProcs (pxTunnels s) pid = None" for pid
    by (simp add: s1_def run_killProcessEntry split: option.split)
  have t1: "terminated (pxTunnels s1) pid" if "terminated (pxTunnels s) pid" for pid
  proof (cases "tnEntries (pxTunnels s) k")
    case None
    with that show ?thesis by (simp add: s1_def run_killProcessEntry)
  next
    case (Some r)
    have "terminated (pxTunnels s\<lparr>tnEntries := (tnEntries (pxTunnels s))(k := None)\<rparr>) pid"
      using that by (simp add: terminated_def)
    with Some show ?thesis by (simp add: s1_def run_killProcessEntry kill_finish_keeps_terminated)
  qed
  have k1: "terminated (pxTunnels s1) (peProcess e)"
    if "tnEntries (pxTunnels s) k = Some r" "tnHeap (pxTunnels s) r = Some e"
      "tnProcs (pxTunnels s) (peProcess e) \<noteq> None" for r e
    using that by (auto simp: s1_def run_killProcessEntry intro!: kill_finish_terminates)
  have all: "terminated (pxTunnels s') (peProcess e)"
    if "j \<in> set (k # ks)" "tnEntries (pxTunnels s) j = Some r" "tnHeap (pxTunnels s) r = Some e"
      "tnProcs (pxTunnels s) (peProcess e) \<noteq> None" for j r e
  proof (cases "j = k")
    case True
    with k1 that(2-4) ih show ?thesis by blast
  next
    case False
    with that have "j \<in> set ks" "tnEntries (pxTunnels s1) j = Some r" "tnHeap (pxTunnels s1) r = Some e"
      "tnProcs (pxTunnels s1) (peProcess e) \<noteq> None" by (simp_all add: e1 h1 p1)
    with ih show ?thesis by blast
  qed
  have "tnEntries (pxTunnels s') = (tnEntries (pxTunnels s)) |` (- set (k # ks))"
    using ih by (auto simp: e1 restrict_map_def fun_eq_iff)
  with ih all t1 h1 show ?case by auto
qed

text \<open>
  A process within its startup window has no entry yet; shutting down then leaves it as it is.
\<close>

lemma shutdown_misses_starting:
  assumes "tnEntries m = Map.empty" and "order Map.empty = []"
  shows "run (KillAllProcessProxies order) \<lparr>pxTunnels = m, pxWorld = w\<rparr>
      = ((), \<lparr>pxTunnels = m, pxWorld = w\<rparr>)"
  using assms by (simp add: KillAllProcessProxies_def on_tunnels_def)

section \<open>Witnesses\<close>

text \<open>An operating system on which sshuttle starts and stays up.\<close>

definition calm_os :: "'w proxy_os" where
  "calm_os = \<lparr>poExecFile = (\<lambda>f a o1 w. (Inr \<lparr>outStdout = ''active'', outStderr = []\<rparr>, w)),
     poStart = (\<lambda>f a w. (None, w)), poSelect = (\<lambda>pid w. (None, w)), poUnderSystemd = False\<rparr>"

definition fresh_state :: "unit proxy_state" where
  "fresh_state = \<lparr>pxTunnels = new_manager, pxWorld = ()\<rparr>"

definition one_tunnel :: tunnels where
  "one_tunnel = pxTunnels (snd (run (ensureProcessProxy calm_os (targetKey ''10.0.0.1'' ''6443'')
     ''10.0.0.1'' ''6443'' ''bastion'' Second) fresh_state))"

lemma run_calm:
  "run (ensureProcessProxy calm_os (targetKey ''10.0.0.1'' ''6443'') ''10.0.0.1'' ''6443'' ''bastion'' Second)
     fresh_state = (Inr (), \<lparr>pxTunnels = one_tunnel, pxWorld = ()\<rparr>)"
  by (auto simp: one_tunnel_def ensureProcessProxy_def calm_os_def fresh_state_def new_manager_def
      spawn_process_def select_startup_def start_process_def arm_entry_def after_func_def insert_entry_def)

lemma one_tunnel_eq:
  "one_tunnel =
     \<lparr>tnEntries = [targetKey ''10.0.0.1'' ''6443'' \<mapsto> 2],
      tnHeap = [2 \<mapsto> \<lparr>peProcess = 0, peTimer = 1\<rparr>],
      tnTimers = [1 \<mapsto> (targetKey ''10.0.0.1'' ''6443'', Second)],
      tnProcs = [0 \<mapsto> \<lparr>shTarget = targetKey ''10.0.0.1'' ''6443'', shAlive = True, shTerminated = False\<rparr>],
      tnNext = 3\<rparr>"
  by (simp add: one_tunnel_def ensureProcessProxy_def calm_os_def fresh_state_def new_manager_def
      spawn_process_def select_startup_def start_process_def arm_entry_def after_func_def insert_entry_def
      eval_nat_numeral)

section \<open>A tunnel that goes through another host\<close>

text \<open>
  C36. A tunnel is known by the address it leads to and not by the host it goes through. While
  one is up for an address (an entry in memory, or an active unit), \<open>EnsureProxy\<close> does the same
  for every \<open>sshuttleHost\<close>: in memory it reports success, starts nothing and leaves the running
  sshuttle, which may go through another cluster's host, as it is.
\<close>

theorem EnsureProxy_ignores_host:
  assumes "if poUnderSystemd os then fst (run (isUnitActive os (unitName ip port)) s)
     else tnEntries (pxTunnels s) (targetKey ip port) \<noteq> None"
  shows "run (EnsureProxy os ip port host ttl) s = run (EnsureProxy os ip port host' ttl) s
     \<and> (poUnderSystemd os \<or>
        (\<exists>s'. run (EnsureProxy os ip port host ttl) s = (Inr (), s') \<and> pxWorld s' = pxWorld s
           \<and> tnProcs (pxTunnels s') = tnProcs (pxTunnels s)
           \<and> tnEntries (pxTunnels s') = tnEntries (pxTunnels s)))"
proof (cases "poUnderSystemd os")
  case True
  obtain s1 where "run (isUnitActive os (unitName ip port)) s = (True, s1)"
    using assms True by (cases "run (isUnitActive os (unitName ip port)) s") auto
  with True show ?thesis by (simp add: EnsureProxy_def ensureSystemdProxy_def Let_def)
next
  case False
  then obtain r where "tnEntries (pxTunnels s) (targetKey ip port) = Some r" using assms by auto
  with False show ?thesis by (simp add: EnsureProxy_def ensureProcessProxy_def)
qed

text \<open>An operating system that keeps the arguments of every process started.\<close>

definition logging_os :: "string list list proxy_os" where
  "logging_os = \<lparr>poExecFile = (\<lambda>f a o1 w. (Inr \<lparr>outStdout = [], outStderr = []\<rparr>, w)),
     poStart = (\<lambda>f a w. (None, w @ [f # a])), poSelect = (\<lambda>pid w. (None, w)), poUnderSystemd = False\<rparr>"

text \<open>Two clusters at the same private address, behind different hosts.\<close>

theorem EnsureProxy_ignores_host_witness:
  "\<exists>s1 s2. run (EnsureProxy logging_os ''10.0.0.1'' ''6443'' ''bastion-a'' Second)
        \<lparr>pxTunnels = new_manager, pxWorld = []\<rparr> = (Inr (), s1)
     \<and> run (EnsureProxy logging_os ''10.0.0.1'' ''6443'' ''bastion-b'' Second) s1 = (Inr (), s2)
     \<and> pxWorld s2 = [[''sshuttle'', ''-r'', ''bastion-a'', ''10.0.0.1:6443'']]"
proof -
  let ?s0 = "\<lparr>pxTunnels = new_manager, pxWorld = [] :: string list list\<rparr>"
  obtain s1 where s1: "run (EnsureProxy logging_os ''10.0.0.1'' ''6443'' ''bastion-a'' Second) ?s0 = (Inr (), s1)"
    "pxWorld s1 = [[''sshuttle'', ''-r'', ''bastion-a'', ''10.0.0.1:6443'']]"
    "tnEntries (pxTunnels s1) (targetKey ''10.0.0.1'' ''6443'') \<noteq> None"
    by (simp add: EnsureProxy_def ensureProcessProxy_def logging_os_def new_manager_def spawn_process_def
        select_startup_def start_process_def arm_entry_def after_func_def insert_entry_def)
  have "\<not> poUnderSystemd logging_os" by (simp add: logging_os_def)
  with EnsureProxy_ignores_host [of logging_os "''10.0.0.1''" "''6443''" s1 "''bastion-b''" Second "''bastion-b''"] s1
  show ?thesis by auto
qed

end
