(* ===== verification/Flight.thy ===== *)
theory Flight
  imports Proxy
begin

text \<open>
  The code of \<open>internal/proxy/manager.go\<close> refines \<open>proxy_step\<close>. \<open>flight_step\<close> interleaves the
  computations themselves: for each target one run of \<open>EnsureProxy\<close> at a time, as
  \<open>singleflight.Group\<close> documents of \<open>Do\<close>, the goroutines of fired timers and of exit hooks,
  the exits of processes and the goroutines that watch them. \<open>flight_rel\<close> relates each
  computation to the phase it is at, and every step of the code is matched by steps of
  \<open>proxy_step\<close>; so there is at most one tunnel per target whatever the schedule.
\<close>

section \<open>The computations, interleaved\<close>

record 'w flights =
  flState :: "'w proxy_state"
  flCalls :: "string \<rightharpoonup> (error + unit, 'w proxy_state) proc"
  flKills :: "(unit, 'w proxy_state) proc list"

definition start_flights :: "'w \<Rightarrow> 'w flights" where
  "start_flights w = \<lparr>flState = \<lparr>pxTunnels = new_manager, pxWorld = w\<rparr>, flCalls = Map.empty, flKills = []\<rparr>"

abbreviation flTunnels :: "'w flights \<Rightarrow> tunnels" where
  "flTunnels x \<equiv> pxTunnels (flState x)"

definition set_tunnels :: "tunnels \<Rightarrow> 'w flights \<Rightarrow> 'w flights" where
  "set_tunnels m x = x\<lparr>flState := (flState x)\<lparr>pxTunnels := m\<rparr>\<rparr>"

text \<open>
  \<open>order\<close> is the order in which the map of entries is visited. The call of \<open>EnsureProxy\<close> may be
  by any client, with any host and lifetime; further callers of the same target only wait.
\<close>

inductive flight_step ::
  "'w proxy_os \<Rightarrow> ((string \<rightharpoonup> nat) \<Rightarrow> string list) \<Rightarrow> 'w flights \<Rightarrow> 'w flights \<Rightarrow> bool"
  for os order where
  enter: "flCalls x (targetKey ip port) = None \<Longrightarrow>
     flight_step os order x
       (x\<lparr>flCalls := (flCalls x)(targetKey ip port \<mapsto> EnsureProxy os ip port host ttl)\<rparr>)"
| act_call: "flCalls x key = Some (Atom f) \<Longrightarrow> f (flState x) = (p, s) \<Longrightarrow>
     flight_step os order x (x\<lparr>flState := s, flCalls := (flCalls x)(key \<mapsto> p)\<rparr>)"
| leave: "flCalls x key = Some (Ret r) \<Longrightarrow>
     flight_step os order x (x\<lparr>flCalls := (flCalls x)(key := None)\<rparr>)"
| timer: "tnTimers (flTunnels x) t = Some (key, ttl) \<Longrightarrow>
     flight_step os order x
       ((set_tunnels (stop_timer t (flTunnels x)) x)\<lparr>flKills := killProcessEntry key # flKills x\<rparr>)"
| hook: "flight_step os order x (x\<lparr>flKills := KillAllProcessProxies order # flKills x\<rparr>)"
| act_kill: "i < length (flKills x) \<Longrightarrow> flKills x ! i = Atom f \<Longrightarrow> f (flState x) = (p, s) \<Longrightarrow>
     flight_step os order x (x\<lparr>flState := s, flKills := (flKills x)[i := p]\<rparr>)"
| exits: "flight_step os order x (set_tunnels (process_exits pid (flTunnels x)) x)"
| watcher: "tnEntries (flTunnels x) key = Some r \<Longrightarrow> tnHeap (flTunnels x) r = Some e \<Longrightarrow>
     tnProcs (flTunnels x) (peProcess e) = Some p \<Longrightarrow> \<not> shAlive p \<Longrightarrow>
     flight_step os order x (set_tunnels (reap_entry key r (flTunnels x)) x)"
| other: "flight_step os order x (x\<lparr>flState := (flState x)\<lparr>pxWorld := w\<rparr>\<rparr>)"

abbreviation flight_steps where
  "flight_steps os order \<equiv> (flight_step os order)\<^sup>*\<^sup>*"

section \<open>The phase of a call\<close>

definition insert_from :: "string \<Rightarrow> nat \<Rightarrow> (error + unit, 'w proxy_state) proc" where
  "insert_from key r = bind_proc (modify_tunnels (insert_entry key r)) (\<lambda>_. Ret (Inr ()))"

definition arm_from :: "string \<Rightarrow> duration \<Rightarrow> nat \<Rightarrow> (error + unit, 'w proxy_state) proc" where
  "arm_from key ttl pid = bind_proc (on_tunnels (arm_entry ttl key pid)) (insert_from key)"

definition early_exit :: "int \<Rightarrow> error + unit" where
  "early_exit code = Inl (Errorf [Txt (''sshuttle exited early with code '' @ Itoa code)])"

definition select_from ::
  "'w proxy_os \<Rightarrow> string \<Rightarrow> duration \<Rightarrow> nat \<Rightarrow> (error + unit, 'w proxy_state) proc" where
  "select_from os key ttl pid =
     bind_proc (act (select_startup os pid)) (\<lambda>exited.
       case exited of Some code \<Rightarrow> Ret (early_exit code) | None \<Rightarrow> arm_from key ttl pid)"

definition rearm_from :: "string \<Rightarrow> duration \<Rightarrow> nat \<Rightarrow> (error + unit, 'w proxy_state) proc" where
  "rearm_from key ttl r = bind_proc (modify_tunnels (refresh_rearm ttl key r)) (\<lambda>_. Ret (Inr ()))"

text \<open>What is left of \<open>ensureProcessProxy\<close> at each phase.\<close>

fun call_at ::
  "'w proxy_os \<Rightarrow> string \<Rightarrow> string \<Rightarrow> string \<Rightarrow> duration \<Rightarrow> phase \<Rightarrow> (error + unit, 'w proxy_state) proc" where
  "call_at os ip port host ttl AtLookup = ensureProcessProxy os (targetKey ip port) ip port host ttl"
| "call_at os ip port host ttl (AtStop r) =
     bind_proc (modify_tunnels (refresh_stop r)) (\<lambda>_. rearm_from (targetKey ip port) ttl r)"
| "call_at os ip port host ttl (AtRearm r) = rearm_from (targetKey ip port) ttl r"
| "call_at os ip port host ttl AtSpawn =
     try_wrap ''proxy: spawning sshuttle: '' (act (spawn_process os host ip port))
       (select_from os (targetKey ip port) ttl)"
| "call_at os ip port host ttl (AtSelect pid) = select_from os (targetKey ip port) ttl pid"
| "call_at os ip port host ttl (AtArm pid) = arm_from (targetKey ip port) ttl pid"
| "call_at os ip port host ttl (AtInsert r) = insert_from (targetKey ip port) r"

text \<open>The next action of a phase: the phase it leads to, or what the call returns.\<close>

fun call_act ::
  "'w proxy_os \<Rightarrow> string \<Rightarrow> string \<Rightarrow> string \<Rightarrow> duration \<Rightarrow> phase \<Rightarrow> 'w proxy_state
    \<Rightarrow> (phase + (error + unit)) \<times> 'w proxy_state" where
  "call_act os ip port host ttl AtLookup s =
     (Inl (case tnEntries (pxTunnels s) (targetKey ip port) of Some r \<Rightarrow> AtStop r | None \<Rightarrow> AtSpawn), s)"
| "call_act os ip port host ttl (AtStop r) s =
     (Inl (AtRearm r), s\<lparr>pxTunnels := refresh_stop r (pxTunnels s)\<rparr>)"
| "call_act os ip port host ttl (AtRearm r) s =
     (Inr (Inr ()), s\<lparr>pxTunnels := refresh_rearm ttl (targetKey ip port) r (pxTunnels s)\<rparr>)"
| "call_act os ip port host ttl AtSpawn s =
     (case spawn_process os host ip port s of
        (Inl e, s') \<Rightarrow> (Inr (Inl (Errorf [Txt ''proxy: spawning sshuttle: '', Wrp e])), s')
      | (Inr pid, s') \<Rightarrow> (Inl (AtSelect pid), s'))"
| "call_act os ip port host ttl (AtSelect pid) s =
     (case select_startup os pid s of
        (Some code, s') \<Rightarrow> (Inr (early_exit code), s')
      | (None, s') \<Rightarrow> (Inl (AtArm pid), s'))"
| "call_act os ip port host ttl (AtArm pid) s =
     (case arm_entry ttl (targetKey ip port) pid (pxTunnels s) of
        (r, m) \<Rightarrow> (Inl (AtInsert r), s\<lparr>pxTunnels := m\<rparr>))"
| "call_act os ip port host ttl (AtInsert r) s =
     (Inr (Inr ()), s\<lparr>pxTunnels := insert_entry (targetKey ip port) r (pxTunnels s)\<rparr>)"

definition after_call ::
  "'w proxy_os \<Rightarrow> string \<Rightarrow> string \<Rightarrow> string \<Rightarrow> duration \<Rightarrow> phase + (error + unit)
    \<Rightarrow> (error + unit, 'w proxy_state) proc" where
  "after_call os ip port host ttl = case_sum (call_at os ip port host ttl) Ret"

lemmas call_unfolds = ensureProcessProxy_def rearm_from_def select_from_def arm_from_def insert_from_def
  early_exit_def after_call_def try_wrap_def try_proc_def wrap_error_def on_tunnels_def bind_act bind_Atom

lemma call_at_step:
  "call_at os ip port host ttl ph =
     Atom (\<lambda>s. map_prod (after_call os ip port host ttl) id (call_act os ip port host ttl ph s))"
  by (cases ph)
    (auto simp: call_unfolds fun_eq_iff split: prod.split sum.split option.split)

section \<open>The phase of a kill\<close>

text \<open>The rest of a goroutine that kills: keys yet to be killed, perhaps after a signal.\<close>

datatype kill_phase = KillAll | KillKeys "string list" | Signal nat "string list"

fun kill_at :: "((string \<rightharpoonup> nat) \<Rightarrow> string list) \<Rightarrow> kill_phase \<Rightarrow> (unit, 'w proxy_state) proc" where
  "kill_at order KillAll = KillAllProcessProxies order"
| "kill_at order (KillKeys ks) = kill_keys ks"
| "kill_at order (Signal r ks) = bind_proc (modify_tunnels (kill_finish r)) (\<lambda>_. kill_keys ks)"

fun kill_act :: "((string \<rightharpoonup> nat) \<Rightarrow> string list) \<Rightarrow> kill_phase \<Rightarrow> tunnels \<Rightarrow> kill_phase \<times> tunnels" where
  "kill_act order KillAll m = (KillKeys (order (tnEntries m)), m)"
| "kill_act order (KillKeys []) m = (KillKeys [], m)"
| "kill_act order (KillKeys (k # ks)) m =
     (case kill_delete k m of
        (None, m') \<Rightarrow> (KillKeys ks, m')
      | (Some r, m') \<Rightarrow> (Signal r ks, m'))"
| "kill_act order (Signal r ks) m = (KillKeys ks, kill_finish r m)"

lemma kill_at_Ret: "kill_at order ph = Ret () \<longleftrightarrow> ph = KillKeys []"
proof (cases ph)
  case (KillKeys ks)
  then show ?thesis by (cases ks) (simp_all add: killProcessEntry_def on_tunnels_def bind_act bind_Atom)
qed (simp_all add: KillAllProcessProxies_def on_tunnels_def bind_act)

lemma kill_at_step:
  assumes "ph \<noteq> KillKeys []"
  shows "kill_at order ph =
    Atom (\<lambda>s. map_prod (kill_at order) (\<lambda>m. s\<lparr>pxTunnels := m\<rparr>) (kill_act order ph (pxTunnels s)))"
proof (cases ph)
  case (KillKeys ks)
  with assms obtain k t where "ks = k # t" by (cases ks) auto
  with KillKeys show ?thesis
    by (auto simp: killProcessEntry_def on_tunnels_def bind_act bind_Atom fun_eq_iff
        split: prod.split option.split)
qed (auto simp: KillAllProcessProxies_def on_tunnels_def bind_act fun_eq_iff split: prod.split)

lemma bind_Ret [simp]: "bind_proc p Ret = p"
  by (induction p rule: proc_induct) (auto simp: fun_eq_iff prod_eq_iff)

lemma killProcessEntry_at: "killProcessEntry key = kill_at order (KillKeys [key])"
proof -
  have "(\<lambda>_. Ret ()) = (Ret :: unit \<Rightarrow> (unit, 'w proxy_state) proc)" by auto
  then show ?thesis by simp
qed

section \<open>The simulation\<close>

definition call_rel ::
  "'w proxy_os \<Rightarrow> string \<Rightarrow> (error + unit, 'w proxy_state) proc option \<Rightarrow> phase option \<Rightarrow> bool" where
  "call_rel os key c ph \<longleftrightarrow>
     (case c of
        None \<Rightarrow> ph = None
      | Some p \<Rightarrow> (\<exists>r. p = Ret r) \<and> ph = None
          \<or> (\<exists>ip port host ttl q. key = targetKey ip port \<and> p = call_at os ip port host ttl q \<and> ph = Some q))"

fun signals :: "kill_phase \<Rightarrow> nat multiset" where
  "signals (Signal r ks) = {#r#}"
| "signals _ = {#}"

definition pending_signals :: "kill_phase list \<Rightarrow> nat multiset" where
  "pending_signals phs = sum_list (map signals phs)"

text \<open>
  The goroutines that kill are the phases \<open>phs\<close>; those about to signal are the kills that finish.
\<close>

definition kills_rel ::
  "((string \<rightharpoonup> nat) \<Rightarrow> string list) \<Rightarrow> (unit, 'w proxy_state) proc list \<Rightarrow> kill multiset \<Rightarrow> bool" where
  "kills_rel order ps kills \<longleftrightarrow>
     (\<exists>phs. ps = map (kill_at order) phs
        \<and> (\<forall>r. count kills (Finishing r) = count (pending_signals phs) r))"

definition flight_rel ::
  "'w proxy_os \<Rightarrow> ((string \<rightharpoonup> nat) \<Rightarrow> string list) \<Rightarrow> 'w flights \<Rightarrow> system \<Rightarrow> bool" where
  "flight_rel os order f x \<longleftrightarrow>
     sysTunnels x = flTunnels f
   \<and> (\<forall>key. call_rel os key (flCalls f key) (sysCalls x key))
   \<and> kills_rel order (flKills f) (sysKills x)
   \<and> (\<forall>key r. tnEntries (flTunnels f) key = Some r \<longrightarrow> (key, r) \<in> sysWatchers x)"

lemma flight_rel_start: "flight_rel os order (start_flights w) start_system"
  by (simp add: flight_rel_def start_flights_def start_system_def call_rel_def kills_rel_def
      pending_signals_def new_manager_def)

text \<open>What an action of a call does is a step.\<close>

lemma call_act_step:
  assumes "sysCalls x (targetKey ip port) = Some ph" and "sysTunnels x = pxTunnels s"
    and "call_act os ip port host ttl ph s = (c, s')"
    and "\<And>key r. tnEntries (pxTunnels s) key = Some r \<Longrightarrow> (key, r) \<in> sysWatchers x"
  shows "\<exists>y. proxy_step x y \<and> sysTunnels y = pxTunnels s'
     \<and> sysCalls y = (sysCalls x)(targetKey ip port := (case c of Inl q \<Rightarrow> Some q | Inr r \<Rightarrow> None))
     \<and> sysKills y = sysKills x
     \<and> (\<forall>key r. tnEntries (pxTunnels s') key = Some r \<longrightarrow> (key, r) \<in> sysWatchers y)"
proof (cases ph)
  case AtLookup
  show ?thesis
  proof (cases "tnEntries (pxTunnels s) (targetKey ip port)")
    case None
    with AtLookup assms proxy_step.missing [of x "targetKey ip port"] show ?thesis
      by (intro exI [of _ "goto (targetKey ip port) AtSpawn (sysTunnels x) x"]) auto
  next
    case (Some r)
    with AtLookup assms proxy_step.found [of x "targetKey ip port" r] show ?thesis
      by (intro exI [of _ "goto (targetKey ip port) (AtStop r) (sysTunnels x) x"]) auto
  qed
next
  case (AtStop r)
  with assms proxy_step.stop [of x "targetKey ip port" r] show ?thesis
    by (intro exI [of _ "goto (targetKey ip port) (AtRearm r) (refresh_stop r (sysTunnels x)) x"]) auto
next
  case (AtRearm r)
  with assms proxy_step.rearm [of x "targetKey ip port" r ttl] show ?thesis
    by (intro exI [of _ "returns (targetKey ip port) True (refresh_rearm ttl (targetKey ip port) r (sysTunnels x)) x"])
      auto
next
  case AtSpawn
  obtain a s1 where sp: "spawn_process os host ip port s = (a, s1)" by fastforce
  show ?thesis
  proof (cases a)
    case (Inl e)
    with sp have "pxTunnels s1 = pxTunnels s"
      by (auto simp: spawn_process_def split: prod.splits option.splits)
    with AtSpawn sp Inl assms proxy_step.not_spawned [of x "targetKey ip port"] show ?thesis
      by (intro exI [of _ "returns (targetKey ip port) False (sysTunnels x) x"]) auto
  next
    case (Inr pid)
    with sp obtain m where st: "start_process (targetKey ip port) (sysTunnels x) = (pid, m)" "pxTunnels s1 = m"
      using assms(2) by (auto simp: spawn_process_def split: prod.splits option.splits)
    then have "tnEntries m = tnEntries (sysTunnels x)" using start_process_eq [OF st(1)] by simp
    with AtSpawn sp Inr st assms proxy_step.spawned [of x "targetKey ip port" pid m] show ?thesis
      by (intro exI [of _ "goto (targetKey ip port) (AtSelect pid) m x"]) auto
  qed
next
  case (AtSelect pid)
  obtain a s1 where se: "select_startup os pid s = (a, s1)" by fastforce
  show ?thesis
  proof (cases a)
    case (Some code)
    with se have "pxTunnels s1 = process_exits pid (pxTunnels s)"
      by (auto simp: select_startup_def split: prod.splits option.splits)
    with AtSelect se Some assms proxy_step.exited_early [of x "targetKey ip port" pid] show ?thesis
      by (intro exI [of _ "returns (targetKey ip port) False (process_exits pid (sysTunnels x)) x"]) auto
  next
    case None
    with se have "pxTunnels s1 = pxTunnels s"
      by (auto simp: select_startup_def split: prod.splits option.splits)
    with AtSelect se None assms proxy_step.started [of x "targetKey ip port" pid] show ?thesis
      by (intro exI [of _ "goto (targetKey ip port) (AtArm pid) (sysTunnels x) x"]) auto
  qed
next
  case (AtArm pid)
  obtain r m where ar: "arm_entry ttl (targetKey ip port) pid (sysTunnels x) = (r, m)" by fastforce
  then have "tnEntries m = tnEntries (sysTunnels x)" by (simp add: arm_entry_eq)
  with AtArm ar assms proxy_step.arm [of x "targetKey ip port" pid ttl r m] show ?thesis
    by (intro exI [of _ "goto (targetKey ip port) (AtInsert r) m x"]) auto
next
  case (AtInsert r)
  with assms proxy_step.insert [of x "targetKey ip port" r] show ?thesis
    by (intro exI [of _ "(returns (targetKey ip port) True (insert_entry (targetKey ip port) r (sysTunnels x)) x)
        \<lparr>sysWatchers := Set.insert (targetKey ip port, r) (sysWatchers x)\<rparr>"])
      (auto split: if_splits)
qed

text \<open>What an action of a kill does is a step or two.\<close>

lemma kill_act_steps:
  assumes "kill_act order ph (sysTunnels x) = (ph', m)"
    and "\<And>r. r \<in># signals ph \<Longrightarrow> Finishing r \<in># sysKills x"
  shows "\<exists>y. proxy_steps x y \<and> sysTunnels y = m \<and> sysCalls y = sysCalls x
     \<and> sysWatchers y = sysWatchers x
     \<and> (\<forall>r. count (sysKills y) (Finishing r) + count (signals ph) r
            = count (sysKills x) (Finishing r) + count (signals ph') r)"
proof (cases "(order, ph, sysTunnels x)" rule: kill_act.cases)
  case (1 order' m')
  with assms(1) show ?thesis by auto
next
  case (2 order' m')
  with assms(1) show ?thesis by auto
next
  case (3 order' k ks m')
  show ?thesis
  proof (cases "tnEntries (sysTunnels x) k")
    case None
    then have "(tnEntries (sysTunnels x))(k := None) = tnEntries (sysTunnels x)" by auto
    with 3 None assms(1) show ?thesis by (auto simp: kill_delete_def)
  next
    case (Some r)
    define x1 where "x1 = x\<lparr>sysKills := add_mset (Starting k) (sysKills x)\<rparr>"
    define x2 where "x2 = x1\<lparr>sysTunnels := m,
      sysKills := (sysKills x1 - {#Starting k#}) + {#Finishing r#}\<rparr>"
    have m: "kill_delete k (sysTunnels x) = (Some r, m)" "ph' = Signal r ks"
      using 3 Some assms(1) by (auto simp: kill_delete_def)
    have "proxy_step x x1" unfolding x1_def by (rule proxy_step.exit_hook) (simp add: Some)
    moreover have "proxy_step x1 x2"
      using proxy_step.kill [of k x1 "Some r" m] m(1) by (simp add: x1_def x2_def)
    ultimately have "proxy_steps x x2" by (meson r_into_rtranclp rtranclp_trans)
    with 3 m(2) show ?thesis by (intro exI [of _ x2]) (auto simp: x2_def x1_def)
  qed
next
  case (4 order' r ks m')
  then have fin: "Finishing r \<in># sysKills x" using assms(2) by simp
  from 4 have m: "m = kill_finish r (sysTunnels x)" "ph' = KillKeys ks" using assms(1) by auto
  from fin have pos: "0 < count (sysKills x) (Finishing r)" by simp
  from 4 m pos proxy_step.terminate [OF fin] show ?thesis
    by (intro exI [of _ "x\<lparr>sysTunnels := kill_finish r (sysTunnels x),
        sysKills := sysKills x - {#Finishing r#}\<rparr>"]) auto
qed

lemma call_rel_update:
  assumes "\<forall>k. call_rel os k (calls k) (phases k)" and "call_rel os key c ph"
  shows "\<forall>k. call_rel os k ((calls(key := c)) k) ((phases(key := ph)) k)"
  using assms by simp

lemma signals_update:
  assumes "i < length phs"
  shows "count (pending_signals (phs[i := ph])) r + count (signals (phs ! i)) r
       = count (pending_signals phs) r + count (signals ph) r"
proof -
  have "pending_signals phs = pending_signals (take i phs) + signals (phs ! i)
      + pending_signals (drop (Suc i) phs)"
    by (subst id_take_nth_drop [OF assms]) (simp add: pending_signals_def)
  moreover have "pending_signals (phs[i := ph]) = pending_signals (take i phs) + signals ph
      + pending_signals (drop (Suc i) phs)"
    by (simp add: upd_conv_take_nth_drop [OF assms] pending_signals_def)
  ultimately show ?thesis by simp
qed

lemma call_case:
  assumes "flight_rel os order f x" and "flCalls f key = Some (Atom g)"
  obtains ip port host ttl ph where "key = targetKey ip port" "sysCalls x key = Some ph"
    "g = (\<lambda>s. map_prod (after_call os ip port host ttl) id (call_act os ip port host ttl ph s))"
proof -
  have "call_rel os key (Some (Atom g)) (sysCalls x key)"
    using assms by (metis flight_rel_def)
  then obtain ip port host ttl ph where c: "key = targetKey ip port" "sysCalls x key = Some ph"
    "Atom g = call_at os ip port host ttl ph"
    by (auto simp: call_rel_def)
  from c(3) show ?thesis unfolding call_at_step by (intro that [OF c(1,2)]) simp
qed

lemma call_rel_after:
  "call_rel os (targetKey ip port) (Some (after_call os ip port host ttl c))
     (case c of Inl q \<Rightarrow> Some q | Inr r \<Rightarrow> None)"
  by (cases c) (auto simp: call_rel_def after_call_def)

lemma sim_act_call:
  assumes "flight_rel os order f x" and "flCalls f key = Some (Atom g)" and "g (flState f) = (p, s)"
  shows "\<exists>y. proxy_steps x y \<and> flight_rel os order (f\<lparr>flState := s, flCalls := (flCalls f)(key \<mapsto> p)\<rparr>) y"
proof -
  from assms(1,2) obtain ip port host ttl ph where key: "key = targetKey ip port"
    and ph: "sysCalls x key = Some ph"
    and g: "g = (\<lambda>s. map_prod (after_call os ip port host ttl) id (call_act os ip port host ttl ph s))"
    by (rule call_case)
  obtain c where act: "call_act os ip port host ttl ph (flState f) = (c, s)"
    and p: "p = after_call os ip port host ttl c"
    using assms(3) by (auto simp: g prod_eq_iff)
  have rel: "sysTunnels x = flTunnels f" "\<forall>k. call_rel os k (flCalls f k) (sysCalls x k)"
    "kills_rel order (flKills f) (sysKills x)"
    "\<And>k r. tnEntries (flTunnels f) k = Some r \<Longrightarrow> (k, r) \<in> sysWatchers x"
    using assms(1) by (simp_all add: flight_rel_def)
  from call_act_step [OF ph [unfolded key] rel(1) act rel(4)] obtain y where y: "proxy_step x y"
    "sysTunnels y = pxTunnels s" "sysKills y = sysKills x"
    "sysCalls y = (sysCalls x)(key := (case c of Inl q \<Rightarrow> Some q | Inr r \<Rightarrow> None))"
    "\<forall>k r. tnEntries (pxTunnels s) k = Some r \<longrightarrow> (k, r) \<in> sysWatchers y"
    unfolding key by blast
  have "flight_rel os order (f\<lparr>flState := s, flCalls := (flCalls f)(key \<mapsto> p)\<rparr>) y"
    using call_rel_update [OF rel(2) call_rel_after [of os ip port host ttl c]] rel(3) y(2-5)
    by (simp add: flight_rel_def key p)
  with y(1) show ?thesis by blast
qed

lemma sim_act_kill:
  assumes "flight_rel os order f x" and "i < length (flKills f)" and "flKills f ! i = Atom g"
    and "g (flState f) = (p, s)"
  shows "\<exists>y. proxy_steps x y \<and> flight_rel os order (f\<lparr>flState := s, flKills := (flKills f)[i := p]\<rparr>) y"
proof -
  from assms(1) obtain phs where phs: "flKills f = map (kill_at order) phs"
    "\<forall>r. count (sysKills x) (Finishing r) = count (pending_signals phs) r"
    by (auto simp: flight_rel_def kills_rel_def)
  let ?ph = "phs ! i"
  have i: "i < length phs" and at: "kill_at order ?ph = Atom g" using assms(2,3) phs(1) by simp_all
  then have ne: "?ph \<noteq> KillKeys []" by auto
  have "Atom g = Atom (\<lambda>s. map_prod (kill_at order) (\<lambda>m. s\<lparr>pxTunnels := m\<rparr>) (kill_act order ?ph (pxTunnels s)))"
    unfolding at [symmetric] by (rule kill_at_step [OF ne])
  then have g: "g = (\<lambda>s. map_prod (kill_at order) (\<lambda>m. s\<lparr>pxTunnels := m\<rparr>) (kill_act order ?ph (pxTunnels s)))"
    by (simp only: proc.inject)
  have tun: "sysTunnels x = flTunnels f" using assms(1) by (simp add: flight_rel_def)
  obtain ph' m where act: "kill_act order ?ph (sysTunnels x) = (ph', m)" by fastforce
  with assms(4) have ps: "p = kill_at order ph'" "s = (flState f)\<lparr>pxTunnels := m\<rparr>"
    by (simp_all add: g tun)
  have "count (signals ?ph) r \<le> count (pending_signals phs) r" for r
    using signals_update [OF i, of "KillKeys []" r] by simp
  then have "Finishing r \<in># sysKills x" if "r \<in># signals ?ph" for r
    using that phs(2) by (metis count_greater_zero_iff less_le_trans)
  from kill_act_steps [OF act this] obtain y where y: "proxy_steps x y" "sysTunnels y = m"
    "sysCalls y = sysCalls x" "sysWatchers y = sysWatchers x"
    "\<forall>r. count (sysKills y) (Finishing r) + count (signals ?ph) r
       = count (sysKills x) (Finishing r) + count (signals ph') r" by blast
  have "count (sysKills y) (Finishing r) = count (pending_signals (phs[i := ph'])) r" for r
    using signals_update [OF i, of ph' r] y(5) phs(2) by (metis add_right_cancel)
  then have "kills_rel order ((flKills f)[i := p]) (sysKills y)"
    unfolding kills_rel_def phs(1) ps(1) map_update [symmetric] by blast
  moreover have "tnEntries m k = Some r \<Longrightarrow> tnEntries (sysTunnels x) k = Some r" for k r
    using act by (cases ?ph rule: kill_phase.exhaust)
      (auto simp: kill_delete_def split: option.splits list.splits if_splits elim!: kill_act.elims)
  ultimately have "flight_rel os order (f\<lparr>flState := s, flKills := (flKills f)[i := p]\<rparr>) y"
    using assms(1) y(2-4) by (simp add: flight_rel_def ps(2) tun)
  with y(1) show ?thesis by blast
qed

lemma enter_at: "\<not> poUnderSystemd os \<Longrightarrow> EnsureProxy os ip port host ttl = call_at os ip port host ttl AtLookup"
  by (simp add: EnsureProxy_def)

lemma flight_sim:
  assumes "flight_step os order f f'" and "flight_rel os order f x" and "\<not> poUnderSystemd os"
  shows "\<exists>y. proxy_steps x y \<and> flight_rel os order f' y"
  using assms
proof (induction rule: flight_step.induct)
  case (enter f ip port host ttl)
  let ?k = "targetKey ip port" and ?y = "goto (targetKey ip port) AtLookup (sysTunnels x) x"
  have rel: "\<forall>k. call_rel os k (flCalls f k) (sysCalls x k)" using enter(2) by (simp add: flight_rel_def)
  from rel [rule_format, of ?k] have "sysCalls x ?k = None" by (simp add: enter(1) call_rel_def)
  moreover have "call_rel os ?k (Some (EnsureProxy os ip port host ttl)) (Some AtLookup)"
    using enter_at [OF enter(3)] by (auto simp: call_rel_def)
  from call_rel_update [OF rel this] have "flight_rel os order (f\<lparr>flCalls := (flCalls f)(?k \<mapsto> EnsureProxy os ip port host ttl)\<rparr>) ?y"
    using enter(2) by (simp add: flight_rel_def)
  ultimately show ?case using proxy_step.call [of x ?k] by blast
next
  case (act_call f key g p s)
  then show ?case using sim_act_call by blast
next
  case (leave f key r)
  have rel: "\<forall>k. call_rel os k (flCalls f k) (sysCalls x k)" using leave(2) by (simp add: flight_rel_def)
  from rel [rule_format, of key] have "sysCalls x key = None"
    by (auto simp: leave(1) call_rel_def call_at_step)
  then have "(sysCalls x)(key := None) = sysCalls x" by (rule fun_upd_idem)
  with call_rel_update [OF rel, of key None None]
  have "\<forall>k. call_rel os k (((flCalls f)(key := None)) k) (sysCalls x k)" by (simp add: call_rel_def)
  with leave(2) have "flight_rel os order (f\<lparr>flCalls := (flCalls f)(key := None)\<rparr>) x"
    by (simp add: flight_rel_def)
  then show ?case by blast
next
  case (timer f t key ttl)
  let ?y = "x\<lparr>sysTunnels := stop_timer t (sysTunnels x), sysKills := add_mset (Starting key) (sysKills x)\<rparr>"
  obtain phs where phs: "flKills f = map (kill_at order) phs"
    "\<forall>r. count (sysKills x) (Finishing r) = count (pending_signals phs) r"
    using timer(2) by (auto simp: flight_rel_def kills_rel_def)
  then have "kills_rel order (killProcessEntry key # flKills f) (add_mset (Starting key) (sysKills x))"
    unfolding kills_rel_def killProcessEntry_at [of key order]
    by (intro exI [of _ "KillKeys [key] # phs"]) (simp add: pending_signals_def)
  with timer have "flight_rel os order ((set_tunnels (stop_timer t (flTunnels f)) f)
      \<lparr>flKills := killProcessEntry key # flKills f\<rparr>) ?y"
    by (simp add: flight_rel_def set_tunnels_def)
  moreover have "proxy_step x ?y"
    by (rule proxy_step.fire [of x t key ttl]) (use timer(1,2) in \<open>simp add: flight_rel_def\<close>)
  ultimately show ?case by blast
next
  case (hook f)
  obtain phs where phs: "flKills f = map (kill_at order) phs"
    "\<forall>r. count (sysKills x) (Finishing r) = count (pending_signals phs) r"
    using hook(1) by (auto simp: flight_rel_def kills_rel_def)
  then have "kills_rel order (KillAllProcessProxies order # flKills f) (sysKills x)"
    unfolding kills_rel_def by (intro exI [of _ "KillAll # phs"]) (simp add: pending_signals_def)
  with hook(1) have "flight_rel os order (f\<lparr>flKills := KillAllProcessProxies order # flKills f\<rparr>) x"
    by (simp add: flight_rel_def)
  then show ?case by blast
next
  case (act_kill i f g p s)
  then show ?case using sim_act_kill by blast
next
  case (exits f pid)
  let ?y = "x\<lparr>sysTunnels := process_exits pid (sysTunnels x)\<rparr>"
  have "flight_rel os order (set_tunnels (process_exits pid (flTunnels f)) f) ?y"
    using exits(1) by (simp add: flight_rel_def set_tunnels_def)
  then show ?case using proxy_step.exit [of x pid] by blast
next
  case (watcher f key r e p)
  let ?y = "x\<lparr>sysTunnels := reap_entry key r (sysTunnels x), sysWatchers := sysWatchers x - {(key, r)}\<rparr>"
  have "proxy_step x ?y"
    by (rule proxy_step.reap [of key r x e p]) (use watcher in \<open>simp_all add: flight_rel_def\<close>)
  moreover have "flight_rel os order (set_tunnels (reap_entry key r (flTunnels f)) f) ?y"
    using watcher(1,5) by (auto simp: flight_rel_def set_tunnels_def reap_entry_def split: if_splits)
  ultimately show ?case by blast
next
  case (other f w)
  then have "flight_rel os order (f\<lparr>flState := (flState f)\<lparr>pxWorld := w\<rparr>\<rparr>) x"
    by (simp add: flight_rel_def)
  then show ?case by blast
qed

lemma flights_sim:
  assumes "flight_steps os order (start_flights w) f" and "\<not> poUnderSystemd os"
  shows "\<exists>x. proxy_steps start_system x \<and> flight_rel os order f x"
  using assms(1)
proof (induction rule: rtranclp_induct)
  case base
  show ?case by (intro exI conjI) (rule rtranclp.rtrancl_refl, rule flight_rel_start)
next
  case (step f f')
  from step.IH obtain x where x: "proxy_steps start_system x" "flight_rel os order f x"
    by (elim exE conjE)
  from flight_sim [OF step.hyps(2) x(2) assms(2)] obtain y where y: "proxy_steps x y" "flight_rel os order f' y"
    by (elim exE conjE)
  from rtranclp_trans [OF x(1) y(1)] y(2) show ?case by (intro exI conjI)
qed

section \<open>At most one tunnel\<close>

text \<open>Some goroutine that kills is about to signal the process: its next action does.\<close>

definition about_to_signal :: "'w flights \<Rightarrow> nat \<Rightarrow> bool" where
  "about_to_signal f pid =
     list_ex (\<lambda>g. case g of Ret _ \<Rightarrow> False
       | Atom h \<Rightarrow> terminated (pxTunnels (snd (h (flState f)))) pid) (flKills f)"

lemma signal_terminates:
  assumes "ref_process m r = Some pid" and "tnProcs m pid \<noteq> None"
  shows "terminated (kill_finish r m) pid"
  using assms kill_finish_terminates [of m r] by (auto simp: ref_process_def)

lemma pending_signal:
  assumes "0 < count (pending_signals phs) r"
  shows "\<exists>ks. Signal r ks \<in> set phs"
  using assms
proof (induction phs)
  case Nil
  then show ?case by (simp add: pending_signals_def)
next
  case (Cons ph phs)
  then show ?case by (cases ph) (auto simp: pending_signals_def split: if_splits)
qed

lemma about_to_signal_rel:
  assumes "flight_rel os order f x" and "about_to_stop x pid" and "running (sysTunnels x) key pid"
  shows "about_to_signal f pid"
proof -
  from assms(2) obtain r where r: "0 < count (sysKills x) (Finishing r)"
    "ref_process (sysTunnels x) r = Some pid" by (auto simp: about_to_stop_def)
  from assms(1) obtain phs where phs: "flKills f = map (kill_at order) phs"
    "\<forall>r. count (sysKills x) (Finishing r) = count (pending_signals phs) r"
    and tun: "sysTunnels x = flTunnels f"
    by (auto simp: flight_rel_def kills_rel_def)
  with r(1) pending_signal obtain ks where ks: "Signal r ks \<in> set phs" by metis
  have "tnProcs (flTunnels f) pid \<noteq> None" using assms(3) by (auto simp: running_def tun split: option.splits)
  then have "terminated (kill_finish r (flTunnels f)) pid"
    using signal_terminates r(2) by (simp add: tun)
  moreover have "kill_at order (Signal r ks) \<in> set (flKills f)"
    unfolding phs(1) set_map by (rule imageI [OF ks])
  ultimately show ?thesis
    by (auto simp: about_to_signal_def list_ex_iff kill_at_step simp del: kill_at.simps intro!: bexI)
qed


text \<open>
  C20. The code refines the state machine: in every schedule of the computations themselves
  there is a path of \<open>proxy_step\<close> to a state with the same memory, in which each call in
  progress is at the phase that its computation has reached, and each goroutine about to
  signal is a kill that finishes.
\<close>

theorem EnsureProxy_refines:
  assumes "flight_steps os order (start_flights w) f" and "\<not> poUnderSystemd os"
  shows "\<exists>x. proxy_steps start_system x \<and> sysTunnels x = flTunnels f
     \<and> (\<forall>key. call_rel os key (flCalls f key) (sysCalls x key)) \<and> kills_rel order (flKills f) (sysKills x)"
proof -
  from flights_sim [OF assms] obtain x where "proxy_steps start_system x" "flight_rel os order f x"
    by (elim exE conjE)
  then show ?thesis by (intro exI [of _ x]) (simp add: flight_rel_def)
qed

section \<open>Schedules\<close>

lemma flight_act:
  assumes "flCalls f (targetKey ip port) = Some (call_at os ip port host ttl ph)"
    and "call_act os ip port host ttl ph (flState f) = (c, s)"
  shows "flight_step os order f
    (f\<lparr>flState := s, flCalls := (flCalls f)(targetKey ip port \<mapsto> after_call os ip port host ttl c)\<rparr>)"
  by (rule flight_step.act_call [OF assms(1) [unfolded call_at_step]]) (simp add: assms(2))

lemma flight_kill:
  assumes "flKills f = kill_at order ph # ks" and "ph \<noteq> KillKeys []"
    and "kill_act order ph (flTunnels f) = (ph', m)"
  shows "flight_step os order f
    (f\<lparr>flState := (flState f)\<lparr>pxTunnels := m\<rparr>, flKills := kill_at order ph' # ks\<rparr>)"
proof -
  have "flKills f ! 0 = Atom (\<lambda>s. map_prod (kill_at order) (\<lambda>m. s\<lparr>pxTunnels := m\<rparr>) (kill_act order ph (pxTunnels s)))"
    using assms(1) kill_at_step [OF assms(2), of order] by simp
  from flight_step.act_kill [OF _ this, of "kill_at order ph'" "(flState f)\<lparr>pxTunnels := m\<rparr>" os order] assms(1,3)
  show ?thesis by simp
qed

text \<open>A call that runs without interruption.\<close>

lemma flight_run:
  assumes "flCalls f key = Some p" and "run p (flState f) = (r, s)"
  shows "flight_steps os order f (f\<lparr>flState := s, flCalls := (flCalls f)(key \<mapsto> Ret r)\<rparr>)"
  using assms
proof (induction p arbitrary: f rule: proc_induct)
  case (Ret a)
  then have eq: "f\<lparr>flState := s, flCalls := (flCalls f)(key \<mapsto> Ret r)\<rparr> = f"
    by (auto simp: fun_upd_idem)
  show ?case unfolding eq by (rule rtranclp.rtrancl_refl)
next
  case (Atom g)
  obtain p1 s1 where g: "g (flState f) = (p1, s1)" by fastforce
  let ?f = "f\<lparr>flState := s1, flCalls := (flCalls f)(key \<mapsto> p1)\<rparr>"
  have first: "flight_step os order f ?f" by (rule flight_step.act_call [OF Atom.prems(1) g])
  have rest: "flight_steps os order ?f (?f\<lparr>flState := s, flCalls := (flCalls ?f)(key \<mapsto> Ret r)\<rparr>)"
    by (rule Atom.IH [of ?f "flState f", unfolded g fst_conv]) (use Atom.prems(2) g in \<open>simp_all add: run_Atom\<close>)
  have eq: "?f\<lparr>flState := s, flCalls := (flCalls ?f)(key \<mapsto> Ret r)\<rparr>
      = f\<lparr>flState := s, flCalls := (flCalls f)(key \<mapsto> Ret r)\<rparr>" by simp
  from converse_rtranclp_into_rtranclp [of "flight_step os order", OF first rest] show ?case
    unfolding eq .
qed

text \<open>
  C39. \<open>EnsureProxy\<close> can report success for a tunnel that is gone. The lookup of a refresh and its
  reset of the timer are separate: if the TTL timer fires in between, the process is
  terminated and the entry removed, and the call still re-arms a timer and returns nil. That
  timer stays armed with nothing to kill, and ends the target's next tunnel ahead of its TTL.
\<close>

theorem refresh_races_with_expiry:
  fixes ip port key
  defines "key \<equiv> targetKey ip port"
  assumes "\<not> poUnderSystemd os" and "flCalls f key = None" and "tnEntries (flTunnels f) key = Some r"
    and "tnHeap (flTunnels f) r = Some e" and "tnTimers (flTunnels f) (peTimer e) = Some (key, ttl)"
    and "tnProcs (flTunnels f) (peProcess e) = Some p"
  shows "\<exists>f' t. flight_steps os order f f'
     \<and> flCalls f' key = Some (Ret (Inr ()))
     \<and> tnEntries (flTunnels f') key = None
     \<and> tnProcs (flTunnels f') (peProcess e) = Some (p\<lparr>shTerminated := True\<rparr>)
     \<and> tnTimers (flTunnels f') t = Some (key, newTtl)"
proof -
  let ?m = "flTunnels f" and ?at = "call_at os ip port host newTtl"
  define set where "set m f' = f'\<lparr>flState := (flState f')\<lparr>pxTunnels := m\<rparr>\<rparr>" for m and f' :: "'a flights"
  define f1 where "f1 = f\<lparr>flCalls := (flCalls f)(key \<mapsto> ?at AtLookup)\<rparr>"
  define f2 where "f2 = f1\<lparr>flCalls := (flCalls f1)(key \<mapsto> ?at (AtStop r))\<rparr>"
  define m3 where "m3 = stop_timer (peTimer e) ?m"
  define f3 where "f3 = (set m3 f2)\<lparr>flKills := kill_at order (KillKeys [key]) # flKills f\<rparr>"
  define m4 where "m4 = m3\<lparr>tnEntries := (tnEntries m3)(key := None)\<rparr>"
  define f4 where "f4 = (set m4 f3)\<lparr>flKills := kill_at order (Signal r []) # flKills f\<rparr>"
  define f5 where "f5 = (set (kill_finish r m4) f4)\<lparr>flKills := kill_at order (KillKeys []) # flKills f\<rparr>"
  define m6 where "m6 = refresh_stop r (kill_finish r m4)"
  define f6 where "f6 = (set m6 f5)\<lparr>flCalls := (flCalls f5)(key \<mapsto> ?at (AtRearm r))\<rparr>"
  define f7 where "f7 = (set (refresh_rearm newTtl key r m6) f6)\<lparr>flCalls := (flCalls f6)(key \<mapsto> Ret (Inr ()))\<rparr>"
  note fs = f1_def f2_def f3_def f4_def f5_def f6_def f7_def set_def m3_def m4_def
  have "flight_steps os order f f1"
    using flight_step.enter [of f ip port os order host newTtl] enter_at [OF assms(2)] assms(3)
    by (simp add: f1_def key_def r_into_rtranclp)
  also have "flight_step os order f1 f2"
    using flight_act [of f1 ip port os host newTtl AtLookup "Inl (AtStop r)" "flState f"] assms(4)
    by (simp add: f1_def f2_def key_def after_call_def)
  also have "flight_step os order f2 f3"
    using flight_step.timer [of f2 "peTimer e" key ttl os order] assms(6)
    by (simp add: f3_def f2_def f1_def set_def set_tunnels_def m3_def killProcessEntry_at [of key order]
        del: kill_at.simps)
  also have "flight_step os order f3 f4"
    using flight_kill [of f3 order "KillKeys [key]" "flKills f" "Signal r []" m4 os] assms(4)
    by (simp add: f4_def f3_def set_def m4_def m3_def kill_delete_def del: kill_at.simps)
  also have "flight_step os order f4 f5"
    using flight_kill [of f4 order "Signal r []" "flKills f" "KillKeys []" "kill_finish r m4" os]
    by (simp add: f5_def f4_def set_def del: kill_at.simps)
  also have "flight_step os order f5 f6"
    using flight_act [of f5 ip port os host newTtl "AtStop r" "Inl (AtRearm r)"
        "(flState f5)\<lparr>pxTunnels := m6\<rparr>"]
    by (simp add: f6_def m6_def f5_def f4_def f3_def f2_def set_def key_def after_call_def)
  also have "flight_step os order f6 f7"
    using flight_act [of f6 ip port os host newTtl "AtRearm r" "Inr (Inr ())"
        "(flState f6)\<lparr>pxTunnels := refresh_rearm newTtl key r m6\<rparr>"]
    by (simp add: f7_def f6_def set_def key_def after_call_def)
  finally have "flight_steps os order f f7" .
  moreover have "tnEntries (flTunnels f7) key = None" by (simp add: f7_def set_def m6_def m4_def)
  moreover have "tnProcs (flTunnels f7) (peProcess e) = Some (p\<lparr>shTerminated := True\<rparr>)"
    using assms(5,7) by (simp add: f7_def set_def m6_def m4_def m3_def kill_finish_def stop_timer_def)
  moreover have "tnTimers (flTunnels f7) (tnNext m6) = Some (key, newTtl)"
    by (simp add: f7_def set_def refresh_rearm_def after_func_def)
  moreover have "flCalls f7 key = Some (Ret (Inr ()))" by (simp add: f7_def)
  ultimately show ?thesis by blast
qed

section \<open>Witnesses\<close>

text \<open>One call on an operating system on which sshuttle starts and stays up.\<close>

definition calm_flights :: "unit flights" where
  "calm_flights =
     \<lparr>flState = \<lparr>pxTunnels = one_tunnel, pxWorld = ()\<rparr>,
      flCalls = [targetKey ''10.0.0.1'' ''6443'' \<mapsto> Ret (Inr ())], flKills = []\<rparr>"

definition idle_flights :: "unit flights" where
  "idle_flights = calm_flights\<lparr>flCalls := Map.empty\<rparr>"

lemma calm_underSystemd: "\<not> poUnderSystemd calm_os"
  by (simp add: calm_os_def)

lemma calm_flights_reachable: "flight_steps calm_os order (start_flights ()) calm_flights"
proof -
  let ?k = "targetKey ''10.0.0.1'' ''6443''"
  let ?p = "EnsureProxy calm_os ''10.0.0.1'' ''6443'' ''bastion'' Second"
  let ?f = "(start_flights ())\<lparr>flCalls := [?k \<mapsto> ?p]\<rparr>"
  have first: "flight_step calm_os order (start_flights ()) ?f"
    using flight_step.enter [of "start_flights ()" "''10.0.0.1''" "''6443''" calm_os order "''bastion''" Second]
    by (simp add: start_flights_def)
  have "run ?p fresh_state = (Inr (), \<lparr>pxTunnels = one_tunnel, pxWorld = ()\<rparr>)"
    using run_calm by (simp add: EnsureProxy_def calm_underSystemd)
  then have "run ?p (flState ?f) = (Inr (), \<lparr>pxTunnels = one_tunnel, pxWorld = ()\<rparr>)"
    by (simp add: start_flights_def fresh_state_def)
  from flight_run [OF _ this, of ?k calm_os order]
  have "flight_steps calm_os order ?f calm_flights" by (simp add: start_flights_def calm_flights_def)
  with first show ?thesis by (rule converse_rtranclp_into_rtranclp)
qed

lemma idle_flights_reachable: "flight_steps calm_os order (start_flights ()) idle_flights"
  using calm_flights_reachable
proof (rule rtranclp.rtrancl_into_rtrancl)
  show "flight_step calm_os order calm_flights idle_flights"
    using flight_step.leave [of calm_flights "targetKey ''10.0.0.1'' ''6443''" "Inr ()" calm_os order]
    by (simp add: calm_flights_def idle_flights_def)
qed


theorem EnsureProxy_refines_witness:
  "\<exists>x. proxy_steps start_system x \<and> sysTunnels x = one_tunnel
     \<and> sysCalls x (targetKey ''10.0.0.1'' ''6443'') = None"
proof -
  from EnsureProxy_refines [OF calm_flights_reachable calm_underSystemd] obtain x where
    x: "proxy_steps start_system x" "sysTunnels x = flTunnels calm_flights"
      "\<forall>key. call_rel calm_os key (flCalls calm_flights key) (sysCalls x key)" by blast
  have "sysCalls x (targetKey ''10.0.0.1'' ''6443'') = None"
    using x(3) [rule_format, of "targetKey ''10.0.0.1'' ''6443''"]
    by (auto simp: calm_flights_def call_rel_def call_at_step)
  with x(1,2) show ?thesis by (auto simp: calm_flights_def)
qed

theorem refresh_races_with_expiry_witness:
  "\<exists>f'. flight_steps calm_os (\<lambda>_. []) idle_flights f'
     \<and> flCalls f' (targetKey ''10.0.0.1'' ''6443'') = Some (Ret (Inr ()))
     \<and> tnEntries (flTunnels f') (targetKey ''10.0.0.1'' ''6443'') = None"
  using refresh_races_with_expiry [of calm_os idle_flights "''10.0.0.1''" "''6443''" 2
      "\<lparr>peProcess = 0, peTimer = 1\<rparr>" Second
      "\<lparr>shTarget = targetKey ''10.0.0.1'' ''6443'', shAlive = True, shTerminated = False\<rparr>"
      "\<lambda>_. []" Second] calm_underSystemd
  by (auto simp: idle_flights_def calm_flights_def one_tunnel_eq)

end
