(* ===== verification/Systemd.thy ===== *)
theory Systemd
  imports Proxy
begin

text \<open>
  Tunnels under systemd (\<open>ensureSystemdProxy\<close> of \<open>internal/proxy/manager.go\<close>): the manager keeps
  nothing of its own there, the transient units are the state. What systemd documents of its
  three commands is the hypothesis \<open>systemd_serves\<close>, over a view of the units of the user; the
  lemmas say what a call leaves, and that the units of different targets are different.
\<close>

section \<open>Units\<close>

record unit_info =
  uiCommand :: "string list"
  uiMaxSec :: string

text \<open>
  \<open>systemctl is-active\<close> prints \<open>active\<close> and succeeds exactly for a unit that runs;
  \<open>set-property\<close> changes that property; \<open>systemd-run\<close> starts what follows \<open>--\<close> in a unit that did
  not run. A call that fails leaves the units as they are.
\<close>

definition systemd_serves :: "'w proxy_os \<Rightarrow> ('w \<Rightarrow> string \<rightharpoonup> unit_info) \<Rightarrow> bool" where
  "systemd_serves os units =
     ((\<forall>name w r w'. poExecFile os ''systemctl'' [''--user'', ''is-active'', name] no_options w = (r, w') \<longrightarrow>
         units w' = units w
         \<and> (case r of Inr out \<Rightarrow> TrimSpace (outStdout out) = ''active'' | Inl _ \<Rightarrow> False) = (units w name \<noteq> None))
    \<and> (\<forall>name v w r w'. poExecFile os ''systemctl''
           [''--user'', ''set-property'', name, ''RuntimeMaxSec='' @ v] no_options w = (r, w') \<longrightarrow>
         units w' = (case r of
             Inr _ \<Rightarrow> (units w)(name := map_option (\<lambda>u. u\<lparr>uiMaxSec := v\<rparr>) (units w name))
           | Inl _ \<Rightarrow> units w))
    \<and> (\<forall>name v props cmd w r w'. list_all (\<lambda>p. prefix ''--'' p \<and> p \<noteq> ''--'') props \<longrightarrow>
         poExecFile os ''systemd-run''
           ([''--user'', ''--unit='' @ name, ''--property=RuntimeMaxSec='' @ v] @ props @ ''--'' # cmd)
           no_options w = (r, w') \<longrightarrow>
         (case r of
            Inr _ \<Rightarrow> units w name = None
              \<and> units w' = (units w)(name \<mapsto> \<lparr>uiCommand = cmd, uiMaxSec = v\<rparr>)
          | Inl _ \<Rightarrow> units w' = units w)))"

lemma serves_is_active:
  assumes "systemd_serves os units"
    and "poExecFile os ''systemctl'' [''--user'', ''is-active'', name] no_options w = (r, w')"
  shows "units w' = units w"
    and "(case r of Inr out \<Rightarrow> TrimSpace (outStdout out) = ''active'' | Inl _ \<Rightarrow> False) = (units w name \<noteq> None)"
  using assms unfolding systemd_serves_def by blast+

lemma serves_set_property:
  assumes "systemd_serves os units"
    and "poExecFile os ''systemctl'' [''--user'', ''set-property'', name, ''RuntimeMaxSec='' @ v] no_options w = (r, w')"
  shows "units w' = (case r of
             Inr _ \<Rightarrow> (units w)(name := map_option (\<lambda>u. u\<lparr>uiMaxSec := v\<rparr>) (units w name))
           | Inl _ \<Rightarrow> units w)"
  using assms unfolding systemd_serves_def by blast

lemma serves_run:
  assumes "systemd_serves os units" and "list_all (\<lambda>p. prefix ''--'' p \<and> p \<noteq> ''--'') props"
    and "poExecFile os ''systemd-run''
      ([''--user'', ''--unit='' @ name, ''--property=RuntimeMaxSec='' @ v] @ props @ ''--'' # cmd) no_options w = (r, w')"
  shows "case r of
      Inr _ \<Rightarrow> units w name = None \<and> units w' = (units w)(name \<mapsto> \<lparr>uiCommand = cmd, uiMaxSec = v\<rparr>)
    | Inl _ \<Rightarrow> units w' = units w"
  using assms unfolding systemd_serves_def by blast

lemma unitName_inj: "unitName ip port = unitName ip' port' \<longleftrightarrow> targetKey ip port = targetKey ip' port'"
  by (simp add: unitName_def targetKey_def)

section \<open>A call\<close>

lemma run_exec_command [simp]:
  "run (exec_command os f args) s =
     (case poExecFile os f args no_options (pxWorld s) of (r, w) \<Rightarrow> (r, s\<lparr>pxWorld := w\<rparr>))"
  by (simp add: exec_command_def)

lemma run_isUnitActive:
  assumes "systemd_serves os units"
  obtains w where "run (isUnitActive os name) s = (units (pxWorld s) name \<noteq> None, s\<lparr>pxWorld := w\<rparr>)"
    and "units w = units (pxWorld s)"
proof -
  obtain r w where e: "poExecFile os ''systemctl'' [''--user'', ''is-active'', name] no_options (pxWorld s) = (r, w)"
    by fastforce
  have "run (isUnitActive os name) s = (units (pxWorld s) name \<noteq> None, s\<lparr>pxWorld := w\<rparr>)"
    using serves_is_active(2) [OF assms e] e by (cases r) (simp_all add: isUnitActive_def)
  with serves_is_active(1) [OF assms e] that show ?thesis by blast
qed

definition tunnel_unit :: "(string \<rightharpoonup> unit_info) \<Rightarrow> string \<Rightarrow> string \<Rightarrow> string \<Rightarrow> string \<Rightarrow> unit_info" where
  "tunnel_unit us ip port host maxSec =
     \<lparr>uiCommand = (case us (unitName ip port) of
          Some u \<Rightarrow> uiCommand u | None \<Rightarrow> [''sshuttle'', ''-r'', host, ip @ '':'' @ port]),
      uiMaxSec = maxSec\<rparr>"

lemma run_ensureSystemdProxy:
  assumes "systemd_serves os units"
    and "run (ensureSystemdProxy os ip port host ttl) s = (r, s')"
  shows "pxTunnels s' = pxTunnels s
    \<and> units (pxWorld s') = (case r of
         Inr _ \<Rightarrow> (units (pxWorld s))(unitName ip port \<mapsto>
           tunnel_unit (units (pxWorld s)) ip port host (Itoa (sint (IntSeconds ttl))))
       | Inl _ \<Rightarrow> units (pxWorld s))"
proof -
  let ?n = "unitName ip port" and ?v = "Itoa (sint (IntSeconds ttl))"
  obtain w1 where act: "run (isUnitActive os ?n) s = (units (pxWorld s) ?n \<noteq> None, s\<lparr>pxWorld := w1\<rparr>)"
    and same: "units w1 = units (pxWorld s)"
    by (rule run_isUnitActive [OF assms(1)])
  show ?thesis
  proof (cases "units (pxWorld s) ?n")
    case (Some u)
    obtain q w2 where e: "poExecFile os ''systemctl''
        [''--user'', ''set-property'', ?n, ''RuntimeMaxSec='' @ ?v] no_options w1 = (q, w2)" by fastforce
    have rest: "r = (case q of Inl e \<Rightarrow> Inl (Errorf [Txt (''proxy: extending '' @ ?n @ '': ''), Wrp e]) | Inr _ \<Rightarrow> Inr ())"
      "s' = s\<lparr>pxWorld := w2\<rparr>"
      using assms(2) act e Some by (auto simp: ensureSystemdProxy_def Let_def split: sum.splits)
    have "u\<lparr>uiMaxSec := ?v\<rparr> = tunnel_unit (units (pxWorld s)) ip port host ?v"
      by (simp add: tunnel_unit_def Some)
    with serves_set_property [OF assms(1) e] same rest Some show ?thesis
      by (simp split: sum.split)
  next
    case None
    let ?props = "[''--property=Restart=on-failure'', ''--property=RestartSec=2'',
      ''--property=StartLimitIntervalSec=60'', ''--property=StartLimitBurst=3'', ''--collect'',
      ''--slice=capi-shell-api-endpoint-proxy.slice'']"
    let ?cmd = "[''sshuttle'', ''-r'', host, ip @ '':'' @ port]"
    let ?args = "[''--user'', ''--unit='' @ ?n, ''--property=RuntimeMaxSec='' @ ?v] @ ?props @ ''--'' # ?cmd"
    obtain q w2 where e: "poExecFile os ''systemd-run'' ?args no_options w1 = (q, w2)" by fastforce
    have rest: "r = (case q of Inl e \<Rightarrow> Inl (Errorf [Txt ''proxy: starting systemd-run tunnel: '', Wrp e]) | Inr _ \<Rightarrow> Inr ())"
      "s' = s\<lparr>pxWorld := w2\<rparr>"
      using assms(2) act e None by (auto simp: ensureSystemdProxy_def Let_def split: sum.splits)
    have "list_all (\<lambda>p. prefix ''--'' p \<and> p \<noteq> ''--'') ?props" by simp
    from serves_run [OF assms(1) this e] same rest None show ?thesis
      by (simp add: tunnel_unit_def split: sum.split sum.split_asm)
  qed
qed

text \<open>
  C15. Under systemd, \<open>EnsureProxy\<close> that succeeds leaves the unit of the target running,
  with the configured number of seconds to live: the unit that ran already, its command
  untouched, or a new one that runs sshuttle to the target. The units of every other target are
  left alone, and so are all of them when the call fails; nothing is kept in memory, so a
  restarted daemon extends the tunnels of the one before.
\<close>

theorem EnsureProxy_systemd:
  assumes "poUnderSystemd os" and "systemd_serves os units" and "\<bar>sint n\<bar> \<le> 9223372036"
    and "run (EnsureProxy os ip port host (seconds n)) s = (r, s')"
  shows "pxTunnels s' = pxTunnels s
    \<and> (\<forall>ip' port'. units (pxWorld s') (unitName ip' port') =
         (if r = Inr () \<and> targetKey ip' port' = targetKey ip port
          then Some (tunnel_unit (units (pxWorld s)) ip port host (Itoa (sint n)))
          else units (pxWorld s) (unitName ip' port')))"
proof -
  have "run (ensureSystemdProxy os ip port host (seconds n)) s = (r, s')"
    using assms(1,4) by (simp add: EnsureProxy_def)
  from run_ensureSystemdProxy [OF assms(2) this] show ?thesis
    by (cases r) (simp_all add: IntSeconds_seconds [OF assms(3)] unitName_inj)
qed

section \<open>A systemd in memory\<close>

definition memory_systemd :: "(string \<rightharpoonup> unit_info) proxy_os" where
  "memory_systemd =
     \<lparr>poExecFile = (\<lambda>f args opts us.
        if f = ''systemctl'' then
          (case args of
             [u, verb, name] \<Rightarrow>
               (if us name = None then (Inl (ExtError ''inactive''), us)
                else (Inr \<lparr>outStdout = ''active'', outStderr = []\<rparr>, us))
           | [u, verb, name, p] \<Rightarrow>
               (Inr \<lparr>outStdout = [], outStderr = []\<rparr>,
                us(name := map_option (\<lambda>i. i\<lparr>uiMaxSec := drop 14 p\<rparr>) (us name)))
           | _ \<Rightarrow> (Inl (ExtError ''usage''), us))
        else
          (let name = drop 7 (args ! 1) in
           if us name = None
           then (Inr \<lparr>outStdout = [], outStderr = []\<rparr>,
             us(name \<mapsto> \<lparr>uiCommand = tl (dropWhile (\<lambda>p. p \<noteq> ''--'') args), uiMaxSec = drop 25 (args ! 2)\<rparr>))
           else (Inl (ExtError ''exists''), us))),
      poStart = (\<lambda>f a us. (None, us)), poSelect = (\<lambda>pid us. (None, us)), poUnderSystemd = True\<rparr>"

lemma trim_active: "TrimSpace ''active'' = ''active''"
  by code_simp

lemma memory_systemd_serves: "systemd_serves memory_systemd id"
proof -
  have cmd: "dropWhile (\<lambda>p. p \<noteq> ''--'') (props @ ''--'' # cmd) = ''--'' # cmd"
    if "list_all (\<lambda>p. prefix ''--'' p \<and> p \<noteq> ''--'') props" for props cmd
    using that by (induction props) auto
  show ?thesis
    unfolding systemd_serves_def memory_systemd_def
    by (auto simp: trim_active Let_def cmd split: if_splits)
qed

theorem EnsureProxy_systemd_witness:
  "\<exists>r s'. run (EnsureProxy memory_systemd ''10.0.0.1'' ''6443'' ''bastion'' (seconds 3600))
       \<lparr>pxTunnels = new_manager, pxWorld = Map.empty\<rparr> = (r, s')
     \<and> pxWorld s' (unitName ''10.0.0.1'' ''6443'') =
         Some \<lparr>uiCommand = [''sshuttle'', ''-r'', ''bastion'', ''10.0.0.1:6443''], uiMaxSec = Itoa 3600\<rparr>"
proof -
  let ?s = "\<lparr>pxTunnels = new_manager, pxWorld = Map.empty\<rparr>"
  obtain s' where run: "run (EnsureProxy memory_systemd ''10.0.0.1'' ''6443'' ''bastion'' (seconds 3600)) ?s = (Inr (), s')"
    by (simp add: EnsureProxy_def ensureSystemdProxy_def isUnitActive_def memory_systemd_def Let_def)
  have "\<bar>sint (3600 :: int64)\<bar> \<le> 9223372036" by simp
  from EnsureProxy_systemd [OF _ memory_systemd_serves this run] run show ?thesis
    by (auto simp: memory_systemd_def tunnel_unit_def)
qed

end
