(* ===== verification/Server.thy ===== *)
theory Server
  imports Store Kube ReadOnly ExecCmd Proxy
begin

text \<open>
  \<open>internal/server\<close>: \<open>server.go\<close>, \<open>clients.go\<close>, \<open>resolve.go\<close>, \<open>target.go\<close> and \<open>kubeconfig.go\<close>,
  the operations the tools share.

  The state of the process is the record \<open>server_state\<close>: the clock, the two caches, the tunnels
  and the machine. Every request runs over it; between two of its atomic actions any other
  request, the clock and the clusters may move.

  The lemmas: what the caches hold is genuine, an answer of the API for the cluster its key
  names, in every interleaving; so a request never gets another cluster's kubeconfig.
\<close>

section \<open>Clients\<close>

record 'c Clients =
  cliDynamic :: 'c
  cliCore :: 'c
  cliRbac :: 'c

text \<open>
  What \<open>client-go\<close> provides: parsing a kubeconfig, its client configuration for a context (the
  current one if empty), and the clients of a configuration.
\<close>

record ('k, 'r, 'c) client_lib =
  libLoad :: "string \<Rightarrow> error + 'k"
  libClientConfig :: "'k \<Rightarrow> string \<Rightarrow> error + 'r"
  libDynamic :: "'r \<Rightarrow> error + 'c"
  libTyped :: "'r \<Rightarrow> error + 'c \<times> 'c"

definition RESTConfigForContext ::
  "('k, 'r, 'c) client_lib \<Rightarrow> string \<Rightarrow> string \<Rightarrow> error + 'r" where
  "RESTConfigForContext lib kubeconfigYAML context =
     (case libLoad lib kubeconfigYAML of Inl e \<Rightarrow> Inl e | Inr raw \<Rightarrow> libClientConfig lib raw context)"

definition clientsFromKubeconfigBytes ::
  "('k, 'r, 'c) client_lib \<Rightarrow> string \<Rightarrow> string \<Rightarrow> error + 'c Clients" where
  "clientsFromKubeconfigBytes lib data context =
     (case RESTConfigForContext lib data context of
        Inl e \<Rightarrow> Inl (Errorf [Txt ''server: building rest config: '', Wrp e])
      | Inr restCfg \<Rightarrow>
        (case libDynamic lib restCfg of
           Inl e \<Rightarrow> Inl (Errorf [Txt ''server: building dynamic client: '', Wrp e])
         | Inr dyn \<Rightarrow>
           (case libTyped lib restCfg of
              Inl e \<Rightarrow> Inl (Errorf [Txt ''server: building typed client: '', Wrp e])
            | Inr (core, rbac) \<Rightarrow>
                Inr \<lparr>cliDynamic = dyn, cliCore = core, cliRbac = rbac\<rparr>)))"

definition RealClientsForContext ::
  "('k, 'r, 'c) client_lib \<Rightarrow> (string \<Rightarrow> 'w \<Rightarrow> error + string)
    \<Rightarrow> KubeconfigSource \<Rightarrow> string \<Rightarrow> 'w \<Rightarrow> (error + 'c Clients) \<times> 'w" where
  "RealClientsForContext lib readFile src context w =
     (case readFile (srcPath src) w of
        Inl e \<Rightarrow> (Inl (Errorf [Txt (''server: reading kubeconfig '' @ srcPath src @ '': ''), Wrp e]), w)
      | Inr data \<Rightarrow> (clientsFromKubeconfigBytes lib data context, w))"

definition ClientsFromKubeconfigYAML ::
  "('k, 'r, 'c) client_lib \<Rightarrow> string \<Rightarrow> error + 'c \<times> 'c" where
  "ClientsFromKubeconfigYAML lib kubeconfigYAML =
     (case clientsFromKubeconfigBytes lib kubeconfigYAML [] of
        Inl e \<Rightarrow> Inl e
      | Inr clients \<Rightarrow> Inr (cliCore clients, cliRbac clients))"

section \<open>The server and its state\<close>

text \<open>
  \<open>ToolServer\<close>, less the caches and the manager, which are state; with it the libraries and
  the operating system it calls.
\<close>

record ('c, 'o, 'q, 'w) ToolServer =
  tsCfg :: AppConfig
  clientsForContext :: "KubeconfigSource \<Rightarrow> string \<Rightarrow> 'w \<Rightarrow> (error + 'c Clients) \<times> 'w"
  clientsFromReadonlySource :: "string \<Rightarrow> error + 'c \<times> 'c"
  tsExt :: "('c, 'o, 'q, 'w) externals"
  tsRbac :: "('c, 'w) rbac_api"
  tsAdminClusters :: "string \<Rightarrow> error + (string \<times> string) list"
  tsReadFile :: "string \<Rightarrow> 'w \<Rightarrow> error + string"
  tsProxyOs :: "'w proxy_os"
  tsOs :: "'w os_calls"
  tsExecFile :: "string \<Rightarrow> string list \<Rightarrow> Options \<Rightarrow> 'w machine \<Rightarrow> (error + Output) \<times> 'w machine"

text \<open>\<open>NewToolServer\<close>: everything as given, the clients for minting from \<open>ClientsFromKubeconfigYAML\<close>.\<close>

definition NewToolServer ::
  "('k, 'r, 'c) client_lib \<Rightarrow> ('c, 'o, 'q, 'w) externals \<Rightarrow> ('c, 'w) rbac_api
    \<Rightarrow> (string \<Rightarrow> error + (string \<times> string) list) \<Rightarrow> (string \<Rightarrow> 'w \<Rightarrow> error + string) \<Rightarrow> 'w os_calls
    \<Rightarrow> AppConfig \<Rightarrow> 'w proxy_os \<Rightarrow> (string \<Rightarrow> string list \<Rightarrow> Options \<Rightarrow> 'w machine \<Rightarrow> (error + Output) \<times> 'w machine)
    \<Rightarrow> (KubeconfigSource \<Rightarrow> string \<Rightarrow> 'w \<Rightarrow> (error + 'c Clients) \<times> 'w) \<Rightarrow> ('c, 'o, 'q, 'w) ToolServer" where
  "NewToolServer lib ext rbac adminClusters readFile calls cfg proxyOs execFile clients =
     \<lparr>tsCfg = cfg, clientsForContext = clients,
      clientsFromReadonlySource = ClientsFromKubeconfigYAML lib, tsExt = ext, tsRbac = rbac,
      tsAdminClusters = adminClusters, tsReadFile = readFile, tsProxyOs = proxyOs, tsOs = calls,
      tsExecFile = execFile\<rparr>"

record 'w server_state =
  svNow :: int
  svStore :: Store
  svTunnels :: tunnels
  svMachine :: "'w machine"

record resolvedCluster =
  rcCluster :: CAPICluster
  rcSource :: KubeconfigSource

definition get_world :: "'w server_state \<Rightarrow> 'w" where
  "get_world s = mWorld (svMachine s)"

definition put_world :: "'w \<Rightarrow> 'w server_state \<Rightarrow> 'w server_state" where
  "put_world w s = s\<lparr>svMachine := (svMachine s)\<lparr>mWorld := w\<rparr>\<rparr>"

definition get_proxy :: "'w server_state \<Rightarrow> 'w proxy_state" where
  "get_proxy s = \<lparr>pxTunnels = svTunnels s, pxWorld = get_world s\<rparr>"

definition put_proxy :: "'w proxy_state \<Rightarrow> 'w server_state \<Rightarrow> 'w server_state" where
  "put_proxy p s = put_world (pxWorld p) (s\<lparr>svTunnels := pxTunnels p\<rparr>)"

definition put_machine :: "'w machine \<Rightarrow> 'w server_state \<Rightarrow> 'w server_state" where
  "put_machine m s = s\<lparr>svMachine := m\<rparr>"

abbreviation on_world :: "('a, 'w) proc \<Rightarrow> ('a, 'w server_state) proc" where
  "on_world \<equiv> zoom get_world put_world"

text \<open>The calls of the two caches, at the current instant.\<close>

definition list_get :: "string \<Rightarrow> 'w server_state \<Rightarrow> CAPICluster list option \<times> 'w server_state" where
  "list_get key s =
     (case Get (svNow s) key (stClusterList (svStore s)) of
        (v, c) \<Rightarrow> (v, s\<lparr>svStore := (svStore s)\<lparr>stClusterList := c\<rparr>\<rparr>))"

definition list_set :: "string \<Rightarrow> CAPICluster list \<Rightarrow> 'w server_state \<Rightarrow> unit \<times> 'w server_state" where
  "list_set key v s =
     ((), s\<lparr>svStore := (svStore s)\<lparr>stClusterList := Set (svNow s) key v (stClusterList (svStore s))\<rparr>\<rparr>)"

definition kc_get :: "string \<Rightarrow> 'w server_state \<Rightarrow> CachedKubeconfig option \<times> 'w server_state" where
  "kc_get key s =
     (case Get (svNow s) key (stKubeconfig (svStore s)) of
        (v, c) \<Rightarrow> (v, s\<lparr>svStore := (svStore s)\<lparr>stKubeconfig := c\<rparr>\<rparr>))"

definition kc_set :: "string \<Rightarrow> CachedKubeconfig \<Rightarrow> 'w server_state \<Rightarrow> unit \<times> 'w server_state" where
  "kc_set key v s =
     ((), s\<lparr>svStore := (svStore s)\<lparr>stKubeconfig := Set (svNow s) key v (stKubeconfig (svStore s))\<rparr>\<rparr>)"

section \<open>Listing clusters\<close>

definition lookup_source :: "(string \<times> KubeconfigSource) list \<Rightarrow> string \<Rightarrow> KubeconfigSource" where
  "lookup_source m name =
     (case map_of m name of
        Some src \<Rightarrow> src
      | None \<Rightarrow> \<lparr>srcName = [], srcPath = [], srcContexts = [], srcSshuttleHost = []\<rparr>)"

definition sortedKubeconfigs :: "AppConfig \<Rightarrow> KubeconfigSource list" where
  "sortedKubeconfigs cfg =
     map (lookup_source (Kubeconfigs cfg)) (sort (map fst (Kubeconfigs cfg)))"

definition resolveContexts ::
  "('c, 'o, 'q, 'w) ToolServer \<Rightarrow> KubeconfigSource \<Rightarrow> (error + string list, 'w server_state) proc" where
  "resolveContexts ts src =
     (if length (srcContexts src) > 0 then Ret (Inr (srcContexts src))
      else try_proc (act (\<lambda>s. (tsReadFile ts (srcPath src) (get_world s), s))) (\<lambda>data.
        Ret (GetContexts (tsExt ts) data)))"

definition listClustersCached ::
  "('c, 'o, 'q, 'w) ToolServer \<Rightarrow> KubeconfigSource \<Rightarrow> string
    \<Rightarrow> (error + CAPICluster list, 'w server_state) proc" where
  "listClustersCached ts src contextName =
     (let key = ClusterListKey (srcName src) contextName in
      bind_proc (act (list_get key)) (\<lambda>cached.
        case cached of
          Some clusters \<Rightarrow> Ret (Inr clusters)
        | None \<Rightarrow>
            try_proc (on_world (act (clientsForContext ts src contextName))) (\<lambda>clients.
            try_proc (on_world (ListClustersForContext (tsExt ts) (cliDynamic clients) (srcName src)
              contextName (CustomFields (tsCfg ts)))) (\<lambda>clusters.
            bind_proc (act (list_set key clusters)) (\<lambda>_.
            Ret (Inr clusters))))))"

primrec list_contexts ::
  "('c, 'o, 'q, 'w) ToolServer \<Rightarrow> KubeconfigSource \<Rightarrow> string list \<Rightarrow> resolvedCluster list
    \<Rightarrow> (error + resolvedCluster list, 'w server_state) proc" where
  "list_contexts ts src [] result = Ret (Inr result)"
| "list_contexts ts src (contextName # rest) result =
     try_proc (listClustersCached ts src contextName) (\<lambda>clusters.
       list_contexts ts src rest
         (result @ map (\<lambda>c. \<lparr>rcCluster = c, rcSource = src\<rparr>) clusters))"

primrec list_sources ::
  "('c, 'o, 'q, 'w) ToolServer \<Rightarrow> KubeconfigSource list \<Rightarrow> resolvedCluster list
    \<Rightarrow> (error + resolvedCluster list, 'w server_state) proc" where
  "list_sources ts [] result = Ret (Inr result)"
| "list_sources ts (src # rest) result =
     try_proc (resolveContexts ts src) (\<lambda>contexts.
       try_proc (list_contexts ts src contexts result) (list_sources ts rest))"

definition allResolvedClusters ::
  "('c, 'o, 'q, 'w) ToolServer \<Rightarrow> (error + resolvedCluster list, 'w server_state) proc" where
  "allResolvedClusters ts = list_sources ts (sortedKubeconfigs (tsCfg ts)) []"

definition ListTargets ::
  "('c, 'o, 'q, 'w) ToolServer \<Rightarrow> (error + string list, 'w server_state) proc" where
  "ListTargets ts =
     try_proc (allResolvedClusters ts) (\<lambda>resolved.
       Ret (Inr (map (\<lambda>r. FormatTarget (rcCluster r)) resolved)))"

definition allKnownClusters ::
  "('c, 'o, 'q, 'w) ToolServer \<Rightarrow> (error + CAPICluster list, 'w server_state) proc" where
  "allKnownClusters ts =
     try_proc (allResolvedClusters ts) (\<lambda>resolved. Ret (Inr (map rcCluster resolved)))"

section \<open>Kubeconfigs\<close>

definition kubeconfigTTL :: "('c, 'o, 'q, 'w) ToolServer \<Rightarrow> duration" where
  "kubeconfigTTL ts = seconds (KubeconfigTTLSeconds (CacheCfg (tsCfg ts)))"

definition ensure_proxy ::
  "('c, 'o, 'q, 'w) ToolServer \<Rightarrow> string \<Rightarrow> string \<Rightarrow> string \<Rightarrow> (error + unit, 'w server_state) proc" where
  "ensure_proxy ts apiServerIP apiServerPort sshuttleHost =
     zoom get_proxy put_proxy
       (EnsureProxy (tsProxyOs ts) apiServerIP apiServerPort sshuttleHost (kubeconfigTTL ts))"

definition effective_host :: "('c, 'o, 'q, 'w) ToolServer \<Rightarrow> KubeconfigSource \<Rightarrow> string" where
  "effective_host ts src =
     (if srcSshuttleHost src = [] then cfgSshuttleHost (tsCfg ts) else srcSshuttleHost src)"

definition transformed ::
  "('c, 'o, 'q, 'w) ToolServer \<Rightarrow> string \<Rightarrow> error + string" where
  "transformed ts kc =
     (case Transforms (tsCfg ts) of
        None \<Rightarrow> Inr kc
      | Some t \<Rightarrow> ApplyKubeconfigTransform (tsExt ts) kc t)"

text \<open>The tunnel of a fresh kubeconfig, if a host is configured and the API server restricted.\<close>

definition open_tunnel ::
  "('c, 'o, 'q, 'w) ToolServer \<Rightarrow> 'c Clients \<Rightarrow> string \<Rightarrow> string \<Rightarrow> string
    \<Rightarrow> (error + ProxyTarget option, 'w server_state) proc" where
  "open_tunnel ts clients sshuttleHost namespace clusterName =
     (if sshuttleHost = [] then Ret (Inr None)
      else try_proc (on_world (FetchAPIServerInfo (tsExt ts) (cliDynamic clients) namespace clusterName))
        (\<lambda>info. case info of
            None \<Rightarrow> Ret (Inr None)
          | Some (host, port) \<Rightarrow>
              try_proc (ensure_proxy ts host port sshuttleHost) (\<lambda>_.
                Ret (Inr (Some \<lparr>ptSshuttleHost = sshuttleHost, ptAPIServerIP = host,
                  ptAPIServerPort = port\<rparr>)))))"

definition cachedKubeconfig ::
  "('c, 'o, 'q, 'w) ToolServer \<Rightarrow> KubeconfigSource \<Rightarrow> string \<Rightarrow> string \<Rightarrow> string
    \<Rightarrow> (error + string, 'w server_state) proc" where
  "cachedKubeconfig ts src contextName namespace clusterName =
     (let sshuttleHost = effective_host ts src;
          key = KubeconfigKey (srcName src) contextName namespace clusterName
      in bind_proc (act (kc_get key)) (\<lambda>cached.
        case cached of
          Some hit \<Rightarrow>
            (case ckProxyTarget hit of
               None \<Rightarrow> Ret (Inr (ckKubeconfig hit))
             | Some t \<Rightarrow>
                 try_proc (ensure_proxy ts (ptAPIServerIP t) (ptAPIServerPort t) (ptSshuttleHost t))
                   (\<lambda>_. Ret (Inr (ckKubeconfig hit))))
        | None \<Rightarrow>
            try_proc (on_world (act (clientsForContext ts src contextName))) (\<lambda>clients.
            try_proc (on_world (FetchWorkloadKubeconfig (tsExt ts) (cliCore clients) namespace clusterName))
              (\<lambda>raw.
            try_proc (Ret (transformed ts raw)) (\<lambda>kc.
            try_proc (open_tunnel ts clients sshuttleHost namespace clusterName) (\<lambda>proxyTarget.
            bind_proc (act (kc_set key \<lparr>ckKubeconfig = kc, ckProxyTarget = proxyTarget\<rparr>)) (\<lambda>_.
            Ret (Inr kc))))))))"

definition readOnlyKubeconfig ::
  "('c, 'o, 'q, 'w) ToolServer \<Rightarrow> string \<Rightarrow> (error + string, 'w server_state) proc" where
  "readOnlyKubeconfig ts adminKC =
     (case clientsFromReadonlySource ts adminKC of
        Inl e \<Rightarrow> Ret (Inl e)
      | Inr (core, rbac) \<Rightarrow>
          on_world (CreateReadOnlyKubeconfig (tsRbac ts) (tsAdminClusters ts) (xYamlMarshal (tsExt ts))
            core rbac adminKC (IntSeconds (kubeconfigTTL ts))))"

definition ResolveTarget ::
  "('c, 'o, 'q, 'w) ToolServer \<Rightarrow> string \<Rightarrow> (error + string, 'w server_state) proc" where
  "ResolveTarget ts target =
     (case ParseTarget target of
        Inl e \<Rightarrow> Ret (Inl e)
      | Inr (kubeconfigName, contextName, namespace, name) \<Rightarrow>
          (case map_of (Kubeconfigs (tsCfg ts)) kubeconfigName of
             None \<Rightarrow> Ret (Inl (Errorf [Txt (''unknown kubeconfig: '' @ kubeconfigName)]))
           | Some src \<Rightarrow> cachedKubeconfig ts src contextName namespace name))"

section \<open>Order of the configured kubeconfigs\<close>

text \<open>
  The order in which kubeconfigs are listed does not depend on the order Go happens to
  visit the configuration map in; it is the order of their names, and every entry is listed
  exactly once.
\<close>

lemma sortedKubeconfigs_deterministic:
  assumes "distinct (map fst (Kubeconfigs cfg))" and "distinct (map fst (Kubeconfigs cfg'))"
    and "set (Kubeconfigs cfg) = set (Kubeconfigs cfg')"
  shows "sortedKubeconfigs cfg = sortedKubeconfigs cfg'
     \<and> sortedKubeconfigs cfg
         = map (lookup_source (Kubeconfigs cfg)) (sorted_list_of_set (fst ` set (Kubeconfigs cfg)))
     \<and> mset (sortedKubeconfigs cfg) = mset (map snd (Kubeconfigs cfg))"
proof -
  have srt: "sort (map fst m) = sorted_list_of_set (fst ` set m)" if "distinct (map fst m)"
    for m :: "(string \<times> KubeconfigSource) list"
    using that sorted_list_of_set_sort_remdups [of "map fst m"] by (simp add: distinct_remdups_id)
  have look: "lookup_source m = lookup_source m'" if "map_of m = map_of m'" for m m'
    using that by (simp add: lookup_source_def fun_eq_iff)
  have "map_of (Kubeconfigs cfg) = map_of (Kubeconfigs cfg')"
    using assms by (simp add: map_of_inject_set)
  then have "lookup_source (Kubeconfigs cfg) = lookup_source (Kubeconfigs cfg')" by (rule look)
  moreover have "mset (sortedKubeconfigs cfg) = mset (map snd (Kubeconfigs cfg))"
  proof -
    let ?m = "Kubeconfigs cfg"
    have "lookup_source ?m (fst p) = snd p" if "p \<in> set ?m" for p
    proof -
      have "map_of ?m (fst p) = Some (snd p)" using that assms(1) by simp
      then show ?thesis by (simp add: lookup_source_def)
    qed
    then have "map (lookup_source ?m \<circ> fst) ?m = map snd ?m" by simp
    then have "image_mset (lookup_source ?m) (mset (map fst ?m)) = mset (map snd ?m)"
      by (metis mset_map map_map)
    then show ?thesis by (simp add: sortedKubeconfigs_def)
  qed
  ultimately show ?thesis using assms srt by (simp add: sortedKubeconfigs_def)
qed

section \<open>What the caches hold\<close>

text \<open>An answer of the API through the clients of a configured kubeconfig and a context.\<close>

definition api_clusters ::
  "('c, 'o, 'q, 'w) ToolServer \<Rightarrow> KubeconfigSource \<Rightarrow> string \<Rightarrow> CAPICluster list \<Rightarrow> bool" where
  "api_clusters ts src ctx cs =
     (\<exists>w w1 clients w2 w3 items.
        clientsForContext ts src ctx w = (Inr clients, w1)
        \<and> xListClusters (tsExt ts) (cliDynamic clients) w2 = (Inr items, w3)
        \<and> map path cs =
            map (\<lambda>i. [srcName src, ctx, xGetNamespace (tsExt ts) i, xGetName (tsExt ts) i]) items)"

definition api_kubeconfig ::
  "('c, 'o, 'q, 'w) ToolServer \<Rightarrow> KubeconfigSource \<Rightarrow> string \<Rightarrow> string \<Rightarrow> string \<Rightarrow> string \<Rightarrow> bool" where
  "api_kubeconfig ts src ctx ns name kc =
     (\<exists>w w1 clients w2 w3 data raw.
        clientsForContext ts src ctx w = (Inr clients, w1)
        \<and> xGetSecret (tsExt ts) (cliCore clients) ns (name @ ''-kubeconfig'') w2 = (Inr data, w3)
        \<and> map_of data ''value'' = Some raw \<and> transformed ts raw = Inr kc)"

text \<open>An API that follows the rules of Kubernetes for the names of namespaces and objects.\<close>

definition names_ok :: "('c, 'o, 'q, 'w) externals \<Rightarrow> bool" where
  "names_ok ext =
     (\<forall>core ns name w data w'.
        xGetSecret ext core ns (name @ ''-kubeconfig'') w = (Inr data, w') \<longrightarrow>
        colon_free ns \<and> colon_free name)"

definition list_entry_ok ::
  "('c, 'o, 'q, 'w) ToolServer \<Rightarrow> string \<Rightarrow> CAPICluster list \<Rightarrow> bool" where
  "list_entry_ok ts key cs =
     (\<exists>src ctx. (srcName src, src) \<in> set (Kubeconfigs (tsCfg ts))
        \<and> key = ClusterListKey (srcName src) ctx \<and> api_clusters ts src ctx cs)"

definition kc_entry_ok ::
  "('c, 'o, 'q, 'w) ToolServer \<Rightarrow> string \<Rightarrow> CachedKubeconfig \<Rightarrow> bool" where
  "kc_entry_ok ts key v =
     (\<exists>src ctx ns name. (srcName src, src) \<in> set (Kubeconfigs (tsCfg ts))
        \<and> key = KubeconfigKey (srcName src) ctx ns name \<and> colon_free ns \<and> colon_free name
        \<and> api_kubeconfig ts src ctx ns name (ckKubeconfig v))"

definition genuine :: "('c, 'o, 'q, 'w) ToolServer \<Rightarrow> 'w server_state \<Rightarrow> bool" where
  "genuine ts s =
     ((\<forall>t key v. visible t (stClusterList (svStore s)) key = Some v \<longrightarrow> list_entry_ok ts key v)
      \<and> (\<forall>t key v. visible t (stKubeconfig (svStore s)) key = Some v \<longrightarrow> kc_entry_ok ts key v))"

definition start_state :: "AppConfig \<Rightarrow> int \<Rightarrow> 'w machine \<Rightarrow> 'w server_state" where
  "start_state cfg t m =
     \<lparr>svNow = t, svStore = store_of_config cfg, svTunnels = new_manager, svMachine = m\<rparr>"

lemma genuine_start: "genuine ts (start_state cfg t m)"
  by (simp add: genuine_def start_state_def store_of_config_def NewStore_def ttl.vis_new)

lemma svStore_put [simp]:
  "svStore (put_world w s) = svStore s"
  "svStore (put_proxy p s) = svStore s"
  "svStore (put_machine m s) = svStore s"
  by (simp_all add: put_world_def put_proxy_def put_machine_def)

lemma svNow_put [simp]:
  "svNow (put_world w s) = svNow s"
  "svNow (put_proxy p s) = svNow s"
  "svNow (put_machine m s) = svNow s"
  by (simp_all add: put_world_def put_proxy_def put_machine_def)

lemma config_source:
  assumes "config_ok cfg" and "(k, src) \<in> set (Kubeconfigs cfg)"
  shows "srcName src = k" "colon_free k" "(srcName src, src) \<in> set (Kubeconfigs cfg)"
  using assms by (auto simp: config_ok_def list_all_iff)

lemma config_same_name:
  assumes "config_ok cfg" and "(k, src) \<in> set (Kubeconfigs cfg)" and "(k, src') \<in> set (Kubeconfigs cfg)"
  shows "src = src'"
  using assms by (metis config_ok_def map_of_eq_Some_iff option.inject)

text \<open>The entry of a key is an answer for exactly the cluster the key was made from.\<close>

lemma kc_entry_key:
  assumes "config_ok (tsCfg ts)" and "(srcName src, src) \<in> set (Kubeconfigs (tsCfg ts))"
    and "colon_free ns" and "colon_free name"
    and "kc_entry_ok ts (KubeconfigKey (srcName src) ctx ns name) v"
  shows "api_kubeconfig ts src ctx ns name (ckKubeconfig v)"
proof -
  obtain src' ctx' ns' name' where e: "(srcName src', src') \<in> set (Kubeconfigs (tsCfg ts))"
    "KubeconfigKey (srcName src) ctx ns name = KubeconfigKey (srcName src') ctx' ns' name'"
    "colon_free ns'" "colon_free name'" "api_kubeconfig ts src' ctx' ns' name' (ckKubeconfig v)"
    using assms(5) by (auto simp: kc_entry_ok_def)
  have "ClusterListKey (srcName src) ctx = ClusterListKey (srcName src') ctx' \<and> ns = ns' \<and> name = name'"
    using KubeconfigKey_split [OF assms(3,4) e(3,4)] e(2) by simp
  then have "srcName src = srcName src' \<and> ctx = ctx'" and "ns = ns'" and "name = name'"
    using config_source(2) [OF assms(1,2)] config_source(2) [OF assms(1) e(1)]
    by (auto simp: ClusterListKey_def colon_free_def append_sep_eq)
  moreover from this have "src = src'"
    using config_same_name [OF assms(1), of "srcName src" src src'] assms(2) e(1) by simp
  ultimately show ?thesis using e(5) by simp
qed

lemma list_entry_key:
  assumes "config_ok (tsCfg ts)" and "(srcName src, src) \<in> set (Kubeconfigs (tsCfg ts))"
    and "list_entry_ok ts (ClusterListKey (srcName src) ctx) v"
  shows "api_clusters ts src ctx v"
proof -
  obtain src' ctx' where e: "(srcName src', src') \<in> set (Kubeconfigs (tsCfg ts))"
    "ClusterListKey (srcName src) ctx = ClusterListKey (srcName src') ctx'" "api_clusters ts src' ctx' v"
    using assms(3) by (auto simp: list_entry_ok_def)
  then have "srcName src = srcName src' \<and> ctx = ctx'"
    using config_source(2) [OF assms(1,2)] config_source(2) [OF assms(1) e(1)]
    by (auto simp: ClusterListKey_def colon_free_def append_sep_eq)
  moreover from this have "src = src'"
    using config_same_name [OF assms(1), of "srcName src" src src'] assms(2) e(1) by simp
  ultimately show ?thesis using e(3) by simp
qed

section \<open>What a request keeps and gets\<close>

lemma keeps_on_world: "keeps (\<lambda>_. True) Q p \<Longrightarrow> keeps (genuine ts) Q (on_world p)"
  by (rule keeps_zoom [where J = "\<lambda>_. True"]) (simp_all add: genuine_def)

lemma keeps_ensure_proxy: "keeps (genuine ts) (\<lambda>_. True) (ensure_proxy ts ip port host)"
  unfolding ensure_proxy_def by (rule keeps_zoom [OF _ _ keeps_True]) (simp_all add: genuine_def)

lemma keeps_ensure_ok: "keeps (genuine ts) (okQ (\<lambda>_. True)) (ensure_proxy ts ip port host)"
  by (rule keeps_weaken [OF keeps_ensure_proxy]) (simp add: okQ_def split: sum.split)

lemma keeps_clients:
  "keeps (\<lambda>_. True) (okQ (\<lambda>clients. \<exists>w w1. clientsForContext ts src ctx w = (Inr clients, w1)))
     (act (clientsForContext ts src ctx))"
  by (rule keeps_call)

lemma keeps_fetch:
  "keeps (\<lambda>_. True) (okQ (\<lambda>raw. \<exists>w data w1.
      xGetSecret ext core ns (name @ ''-kubeconfig'') w = (Inr data, w1)
      \<and> map_of data ''value'' = Some raw))
     (FetchWorkloadKubeconfig ext core ns name)"
  unfolding FetchWorkloadKubeconfig_def Let_def
proof (rule keeps_try_wrap)
  show "keeps (\<lambda>_. True) (okQ (\<lambda>data. \<exists>w w1. xGetSecret ext core ns (name @ ''-kubeconfig'') w = (Inr data, w1)))
     (act (xGetSecret ext core ns (name @ ''-kubeconfig'')))"
    by (rule keeps_call)
qed (auto split: option.split)

lemma path_clusters:
  "map path (map (cluster_of_item ext k ctx) items) =
     map (\<lambda>i. [k, ctx, xGetNamespace ext i, xGetName ext i]) items"
  by (simp add: path_def cluster_of_item_def)

lemma keeps_list:
  "keeps (\<lambda>_. True) (okQ (\<lambda>cs. \<exists>w items w1. xListClusters ext dyn w = (Inr items, w1)
      \<and> map path cs = map (\<lambda>i. [k, ctx, xGetNamespace ext i, xGetName ext i]) items))
     (ListClustersForContext ext dyn k ctx cf)"
  unfolding ListClustersForContext_def Let_def
proof (rule keeps_try_wrap)
  show "keeps (\<lambda>_. True) (okQ (\<lambda>items. \<exists>w w1. xListClusters ext dyn w = (Inr items, w1)))
     (act (xListClusters ext dyn))"
    by (rule keeps_call)
next
  fix items
  assume "\<exists>w w1. xListClusters ext dyn w = (Inr items, w1)"
  then show "keeps (\<lambda>_. True) (okQ (\<lambda>cs. \<exists>w items w1. xListClusters ext dyn w = (Inr items, w1)
      \<and> map path cs = map (\<lambda>i. [k, ctx, xGetNamespace ext i, xGetName ext i]) items))
     (if map (cluster_of_item ext k ctx) items = [] \<or> cf = []
      then Ret (Inr (map (cluster_of_item ext k ctx) items))
      else case evalCustomFields ext items cf of
          Inl e \<Rightarrow> Ret (Inl (Errorf [Txt ''capi: evaluating custom_fields: '', Wrp e]))
        | Inr fieldValues \<Rightarrow> Ret (Inr (attach_fields (map (cluster_of_item ext k ctx) items) fieldValues)))"
    by (auto simp only: keeps.simps okQ_simps path_attach_fields path_clusters split: sum.split if_split)
qed

lemma keeps_list_get:
  "keeps (genuine ts) (\<lambda>v. \<forall>cs. v = Some cs \<longrightarrow> list_entry_ok ts key cs) (act (list_get key))"
proof (rule keeps_act)
  fix s
  assume g: "genuine ts s"
  then have old: "\<forall>t k v. visible t (stClusterList (svStore s)) k = Some v \<longrightarrow> list_entry_ok ts k v"
    by (simp add: genuine_def)
  from ttl.holds_get [OF old] ttl.get_holds [OF old] g
  show "(\<forall>cs. fst (list_get key s) = Some cs \<longrightarrow> list_entry_ok ts key cs) \<and> genuine ts (snd (list_get key s))"
    by (auto simp: list_get_def genuine_def prod.case_eq_if)
qed

lemma keeps_list_set:
  assumes e: "list_entry_ok ts key cs"
  shows "keeps (genuine ts) (\<lambda>_. True) (act (list_set key cs))"
proof (rule keeps_act)
  fix s
  assume g: "genuine ts s"
  then have old: "\<forall>t k v. visible t (stClusterList (svStore s)) k = Some v \<longrightarrow> list_entry_ok ts k v"
    by (simp add: genuine_def)
  from ttl.holds_set [OF old e] g show "True \<and> genuine ts (snd (list_set key cs s))"
    by (simp add: list_set_def genuine_def)
qed

lemma keeps_kc_get:
  "keeps (genuine ts) (\<lambda>v. \<forall>c. v = Some c \<longrightarrow> kc_entry_ok ts key c) (act (kc_get key))"
proof (rule keeps_act)
  fix s
  assume g: "genuine ts s"
  then have old: "\<forall>t k v. visible t (stKubeconfig (svStore s)) k = Some v \<longrightarrow> kc_entry_ok ts k v"
    by (simp add: genuine_def)
  from ttl.holds_get [OF old] ttl.get_holds [OF old] g
  show "(\<forall>c. fst (kc_get key s) = Some c \<longrightarrow> kc_entry_ok ts key c) \<and> genuine ts (snd (kc_get key s))"
    by (auto simp: kc_get_def genuine_def prod.case_eq_if)
qed

lemma keeps_kc_set:
  assumes e: "kc_entry_ok ts key v"
  shows "keeps (genuine ts) (\<lambda>_. True) (act (kc_set key v))"
proof (rule keeps_act)
  fix s
  assume g: "genuine ts s"
  then have old: "\<forall>t k v. visible t (stKubeconfig (svStore s)) k = Some v \<longrightarrow> kc_entry_ok ts k v"
    by (simp add: genuine_def)
  from ttl.holds_set [OF old e] g show "True \<and> genuine ts (snd (kc_set key v s))"
    by (simp add: kc_set_def genuine_def)
qed

lemma keeps_open_tunnel:
  "keeps (genuine ts) (okQ (\<lambda>_. True)) (open_tunnel ts clients host ns name)"
proof -
  have info: "keeps (genuine ts) (okQ (\<lambda>_. True))
      (on_world (FetchAPIServerInfo (tsExt ts) (cliDynamic clients) ns name))"
    by (rule keeps_weaken [OF keeps_on_world [OF keeps_True]]) (simp add: okQ_def split: sum.split)
  show ?thesis
    unfolding open_tunnel_def
    by (auto intro!: keeps_try [OF info] keeps_try [OF keeps_ensure_ok] split: option.split)
qed

lemma keeps_cachedKubeconfig:
  assumes "config_ok (tsCfg ts)" and "names_ok (tsExt ts)"
    and "(srcName src, src) \<in> set (Kubeconfigs (tsCfg ts))"
  shows "keeps (genuine ts)
     (okQ (\<lambda>kc. colon_free ns \<and> colon_free name \<longrightarrow> api_kubeconfig ts src ctx ns name kc))
     (cachedKubeconfig ts src ctx ns name)"
    (is "keeps _ (okQ ?Q) _")
  unfolding cachedKubeconfig_def Let_def
proof (rule keeps_bind [OF keeps_kc_get], split option.split, intro conjI allI impI)
  fix hit cached
  assume "\<forall>c. cached = Some c \<longrightarrow> kc_entry_ok ts (KubeconfigKey (srcName src) ctx ns name) c"
    and "cached = Some hit"
  then have ok: "?Q (ckKubeconfig hit)" using kc_entry_key [OF assms(1,3)] by simp
  show "keeps (genuine ts) (okQ ?Q)
     (case ckProxyTarget hit of
        None \<Rightarrow> Ret (Inr (ckKubeconfig hit))
      | Some t \<Rightarrow> try_proc (ensure_proxy ts (ptAPIServerIP t) (ptAPIServerPort t) (ptSshuttleHost t))
          (\<lambda>_. Ret (Inr (ckKubeconfig hit))))"
    using ok by (auto intro!: keeps_try [OF keeps_ensure_ok] split: option.split)
next
  let ?key = "KubeconfigKey (srcName src) ctx ns name"
  show "keeps (genuine ts) (okQ ?Q)
     (try_proc (on_world (act (clientsForContext ts src ctx))) (\<lambda>clients.
      try_proc (on_world (FetchWorkloadKubeconfig (tsExt ts) (cliCore clients) ns name)) (\<lambda>raw.
      try_proc (Ret (transformed ts raw)) (\<lambda>kc.
      try_proc (open_tunnel ts clients (effective_host ts src) ns name) (\<lambda>proxyTarget.
      bind_proc (act (kc_set ?key \<lparr>ckKubeconfig = kc, ckProxyTarget = proxyTarget\<rparr>)) (\<lambda>_.
      Ret (Inr kc)))))))"
  proof (rule keeps_try [OF keeps_on_world [OF keeps_clients]],
      rule keeps_try [OF keeps_on_world [OF keeps_fetch]])
    fix clients raw
    assume c: "\<exists>w w1. clientsForContext ts src ctx w = (Inr clients, w1)"
      and f: "\<exists>w data w1. xGetSecret (tsExt ts) (cliCore clients) ns (name @ ''-kubeconfig'') w = (Inr data, w1)
         \<and> map_of data ''value'' = Some raw"
    have free: "colon_free ns \<and> colon_free name" using f assms(2) unfolding names_ok_def by blast
    have "keeps (genuine ts) (okQ (api_kubeconfig ts src ctx ns name)) (Ret (transformed ts raw))"
      using c f by (cases "transformed ts raw") (simp_all add: api_kubeconfig_def, blast)
    then show "keeps (genuine ts) (okQ ?Q)
       (try_proc (Ret (transformed ts raw)) (\<lambda>kc.
        try_proc (open_tunnel ts clients (effective_host ts src) ns name) (\<lambda>proxyTarget.
        bind_proc (act (kc_set ?key \<lparr>ckKubeconfig = kc, ckProxyTarget = proxyTarget\<rparr>)) (\<lambda>_.
        Ret (Inr kc)))))"
    proof (rule keeps_try, intro keeps_try [OF keeps_open_tunnel])
      fix kc pt
      assume kc: "api_kubeconfig ts src ctx ns name kc"
      then have e: "kc_entry_ok ts ?key \<lparr>ckKubeconfig = kc, ckProxyTarget = pt\<rparr>"
        using assms(3) free by (auto simp: kc_entry_ok_def)
      show "keeps (genuine ts) (okQ ?Q)
         (bind_proc (act (kc_set ?key \<lparr>ckKubeconfig = kc, ckProxyTarget = pt\<rparr>)) (\<lambda>_. Ret (Inr kc)))"
        by (rule keeps_bind [OF keeps_kc_set [OF e]]) (simp add: kc)
    qed
  qed
qed

lemma keeps_listClustersCached:
  assumes "config_ok (tsCfg ts)" and "(srcName src, src) \<in> set (Kubeconfigs (tsCfg ts))"
  shows "keeps (genuine ts) (okQ (api_clusters ts src ctx)) (listClustersCached ts src ctx)"
  unfolding listClustersCached_def Let_def
proof (rule keeps_bind [OF keeps_list_get], split option.split, intro conjI allI impI)
  fix hit cached
  assume "\<forall>cs. cached = Some cs \<longrightarrow> list_entry_ok ts (ClusterListKey (srcName src) ctx) cs"
    and "cached = Some hit"
  then show "keeps (genuine ts) (okQ (api_clusters ts src ctx)) (Ret (Inr hit))"
    using list_entry_key [OF assms] by simp
next
  let ?key = "ClusterListKey (srcName src) ctx"
  show "keeps (genuine ts) (okQ (api_clusters ts src ctx))
     (try_proc (on_world (act (clientsForContext ts src ctx))) (\<lambda>clients.
      try_proc (on_world (ListClustersForContext (tsExt ts) (cliDynamic clients) (srcName src) ctx
        (CustomFields (tsCfg ts)))) (\<lambda>clusters.
      bind_proc (act (list_set ?key clusters)) (\<lambda>_. Ret (Inr clusters)))))"
  proof (rule keeps_try [OF keeps_on_world [OF keeps_clients]],
      rule keeps_try [OF keeps_on_world [OF keeps_list]])
    fix clients cs
    assume "\<exists>w w1. clientsForContext ts src ctx w = (Inr clients, w1)"
      and "\<exists>w items w1. xListClusters (tsExt ts) (cliDynamic clients) w = (Inr items, w1)
        \<and> map path cs = map (\<lambda>i. [srcName src, ctx, xGetNamespace (tsExt ts) i, xGetName (tsExt ts) i]) items"
    then have a: "api_clusters ts src ctx cs" unfolding api_clusters_def by blast
    then have e: "list_entry_ok ts ?key cs" using assms(2) by (auto simp: list_entry_ok_def)
    show "keeps (genuine ts) (okQ (api_clusters ts src ctx))
       (bind_proc (act (list_set ?key cs)) (\<lambda>_. Ret (Inr cs)))"
      by (rule keeps_bind [OF keeps_list_set [OF e]]) (simp add: a)
  qed
qed

section \<open>A server in memory\<close>

text \<open>An instance of everything the server calls, to apply the theorems to.\<close>

definition sample_source :: KubeconfigSource where
  "sample_source = \<lparr>srcName = ''prod'', srcPath = ''/k'', srcContexts = [''x''], srcSshuttleHost = []\<rparr>"

definition sample_cfg :: AppConfig where
  "sample_cfg = \<lparr>Kubeconfigs = [(''prod'', sample_source)], Transforms = None, CustomFields = [],
     cfgSshuttleHost = [], CacheCfg = \<lparr>ClusterListTTLSeconds = 300, KubeconfigTTLSeconds = 3600\<rparr>\<rparr>"

definition sample_os :: "'w os_calls" where
  "sample_os = \<lparr>osRand = (\<lambda>w. (Inr ''ab'', w)), osWriteFile = (\<lambda>p w. (None, w)),
     osRemove = (\<lambda>p w. (True, w)), osTempDir = ''/tmp'', osEnviron = []\<rparr>"

definition sample_spawn ::
  "string \<Rightarrow> string list \<Rightarrow> Options \<Rightarrow> 'w machine \<Rightarrow> child \<times> 'w machine" where
  "sample_spawn f args opts m =
     (\<lparr>childStartError = None, childWrites = [(Stdout, ''ok'')],
       childEnd = (\<lambda>cut. Exited (if f = ''false'' then 1 else 0) (ExtError ''exit status 1''))\<rparr>, m)"

definition sample_ts :: "(unit, string \<times> string, unit, rbac_objects) ToolServer" where
  "sample_ts =
     \<lparr>tsCfg = sample_cfg,
      clientsForContext = (\<lambda>src ctx w. (Inr \<lparr>cliDynamic = (), cliCore = (), cliRbac = ()\<rparr>, w)),
      clientsFromReadonlySource = (\<lambda>kc. Inr ((), ())),
      tsExt = sample_ext,
      tsRbac = memory_api ''tok'',
      tsAdminClusters = (\<lambda>kc. Inr [(''https://c'', ''CA'')]),
      tsReadFile = (\<lambda>p w. Inr ''file''),
      tsProxyOs = calm_os,
      tsOs = sample_os,
      tsExecFile = OSExecer_ExecFile sample_spawn\<rparr>"

definition sample_state :: "rbac_objects server_state" where
  "sample_state = start_state sample_cfg 0 \<lparr>mFiles = Map.empty, mWorld = foreign_objects\<rparr>"

lemma sample_ts_sel [simp]:
  "tsCfg sample_ts = sample_cfg"
  "clientsForContext sample_ts src ctx w = (Inr \<lparr>cliDynamic = (), cliCore = (), cliRbac = ()\<rparr>, w)"
  "clientsFromReadonlySource sample_ts kc = Inr ((), ())"
  "tsExt sample_ts = sample_ext"
  "tsRbac sample_ts = memory_api ''tok''"
  "tsAdminClusters sample_ts kc = Inr [(''https://c'', ''CA'')]"
  "tsOs sample_ts = sample_os"
  "tsExecFile sample_ts = OSExecer_ExecFile sample_spawn"
  by (simp_all add: sample_ts_def)

lemma sample_cfg_sel [simp]:
  "Kubeconfigs sample_cfg = [(''prod'', sample_source)]"
  "Transforms sample_cfg = None"
  "CustomFields sample_cfg = []"
  "cfgSshuttleHost sample_cfg = []"
  "srcName sample_source = ''prod''"
  "srcContexts sample_source = [''x'']"
  "srcSshuttleHost sample_source = []"
  by (simp_all add: sample_cfg_def sample_source_def)

lemma sample_config_ok: "config_ok sample_cfg"
  by (simp add: config_ok_def colon_free_def)

lemma sample_names_ok: "names_ok sample_ext"
proof -
  have len: "length name = 2" if "name @ ''-kubeconfig'' = n" "length n = 13" for name n :: string
    using that by auto
  have "colon_free name" if "name @ ''-kubeconfig'' \<in> {''c1-kubeconfig'', ''c2-kubeconfig''}" for name
  proof -
    from that have "take 2 (name @ ''-kubeconfig'') \<in> {''c1'', ''c2''}" and "length name = 2"
      by (auto dest: len)
    then have "name \<in> {''c1'', ''c2''}" by simp
    then show ?thesis by (auto simp: colon_free_def)
  qed
  moreover have "name @ ''-kubeconfig'' \<noteq> ''c1-cloud-config''" for name
  proof
    assume "name @ ''-kubeconfig'' = ''c1-cloud-config''"
    then have "rev (name @ ''-kubeconfig'') = rev ''c1-cloud-config''" by (rule arg_cong)
    then show False by simp
  qed
  ultimately show ?thesis by (auto simp: names_ok_def colon_free_def split: if_splits)
qed

lemma lens_world [simp]:
  "get_world (put_world w s) = w"
  "put_world (get_world s) s = s"
  "put_world w (put_world w' s) = put_world w s"
  by (simp_all add: get_world_def put_world_def)

lemma lens_proxy [simp]:
  "get_proxy (put_proxy p s) = p"
  "put_proxy (get_proxy s) s = s"
  "put_proxy p (put_proxy p' s) = put_proxy p s"
  by (simp_all add: get_proxy_def put_proxy_def get_world_def put_world_def)

lemma run_on_world [simp]:
  "run (on_world p) s = (case run p (get_world s) of (a, w) \<Rightarrow> (a, put_world w s))"
  by (rule run_zoom) simp_all

lemma run_ensure_proxy [simp]:
  "run (ensure_proxy ts ip port host) s =
     (case run (EnsureProxy (tsProxyOs ts) ip port host (kubeconfigTTL ts)) (get_proxy s) of
        (a, p) \<Rightarrow> (a, put_proxy p s))"
  unfolding ensure_proxy_def by (rule run_zoom) simp_all

section \<open>No request gets another cluster's kubeconfig\<close>

definition plain_target :: "string \<Rightarrow> bool" where
  "plain_target t =
     (case ParseTarget t of
        Inl _ \<Rightarrow> True
      | Inr (k, ctx, ns, name) \<Rightarrow> colon_free ns \<and> colon_free name)"

definition right_kubeconfig :: "('c, 'o, 'q, 'w) ToolServer \<Rightarrow> string \<Rightarrow> string \<Rightarrow> bool" where
  "right_kubeconfig ts t kc =
     (\<exists>k ctx ns name src. ParseTarget t = Inr (k, ctx, ns, name)
        \<and> map_of (Kubeconfigs (tsCfg ts)) k = Some src \<and> api_kubeconfig ts src ctx ns name kc)"

lemma keeps_ResolveTarget:
  assumes "config_ok (tsCfg ts)" and "names_ok (tsExt ts)"
  shows "keeps (genuine ts) (okQ (\<lambda>kc. plain_target t \<longrightarrow> right_kubeconfig ts t kc)) (ResolveTarget ts t)"
    (is "keeps _ (okQ ?Q) _")
proof (cases "ParseTarget t")
  case (Inl e)
  then show ?thesis by (simp add: ResolveTarget_def)
next
  case (Inr q)
  obtain k ctx ns name where q: "q = (k, ctx, ns, name)" by (cases q) auto
  show ?thesis
  proof (cases "map_of (Kubeconfigs (tsCfg ts)) k")
    case None
    with Inr q show ?thesis by (simp add: ResolveTarget_def)
  next
    case (Some src)
    have src: "(srcName src, src) \<in> set (Kubeconfigs (tsCfg ts))"
      by (rule config_source(3) [OF assms(1) map_of_SomeD [OF Some]])
    have "keeps (genuine ts) (okQ ?Q) (cachedKubeconfig ts src ctx ns name)"
    proof (rule keeps_weaken [OF keeps_cachedKubeconfig [OF assms src]])
      show "okQ ?Q r"
        if "okQ (\<lambda>kc. colon_free ns \<and> colon_free name \<longrightarrow> api_kubeconfig ts src ctx ns name kc) r" for r
        using that Inr q Some by (cases r) (simp_all add: right_kubeconfig_def plain_target_def)
    qed
    with Inr q Some show ?thesis by (simp add: ResolveTarget_def)
  qed
qed

text \<open>
  C2. No request ever gets another cluster's kubeconfig. However many targets are resolved at
  once, with whatever other requests, clock ticks, tunnel failures and cache expiries in
  between, each answer is an error or the transformed value of the secret that the API holds
  for exactly that target, read through the kubeconfig and context it names; unless the target's
  namespace or name holds a colon, which no name in Kubernetes does.
\<close>

theorem ResolveTarget_right_cluster:
  assumes "config_ok (tsCfg ts)" and "names_ok (tsExt ts)" and "genuine ts s"
    and "\<And>s s'. R s s' \<Longrightarrow> genuine ts s \<Longrightarrow> genuine ts s'"
    and "pool_steps R (map (ResolveTarget ts) targets, s) (ps, s')" and "outcome ps = Some answers"
  shows "genuine ts s' \<and> list_all2 (\<lambda>t. okQ (\<lambda>kc. plain_target t \<longrightarrow> right_kubeconfig ts t kc)) targets answers"
proof -
  have "\<forall>i < length (map (ResolveTarget ts) targets).
      keeps (genuine ts) (okQ (\<lambda>kc. plain_target (targets ! i) \<longrightarrow> right_kubeconfig ts (targets ! i) kc))
        (map (ResolveTarget ts) targets ! i)"
    using assms(1,2) by (auto intro: keeps_ResolveTarget)
  from pool_outcome [OF assms(5,3,6) this assms(4)]
  show ?thesis by (simp add: list_all2_conv_all_nth)
qed

section \<open>Every listed target is a cluster of the API\<close>

definition api_target :: "('c, 'o, 'q, 'w) ToolServer \<Rightarrow> resolvedCluster \<Rightarrow> bool" where
  "api_target ts rc =
     (\<exists>ctx cs. (srcName (rcSource rc), rcSource rc) \<in> set (Kubeconfigs (tsCfg ts))
        \<and> api_clusters ts (rcSource rc) ctx cs \<and> rcCluster rc \<in> set cs)"

lemma keeps_list_contexts:
  assumes "config_ok (tsCfg ts)" and "(srcName src, src) \<in> set (Kubeconfigs (tsCfg ts))"
  shows "list_all (api_target ts) result \<Longrightarrow>
     keeps (genuine ts) (okQ (list_all (api_target ts))) (list_contexts ts src ctxs result)"
proof (induction ctxs arbitrary: result)
  case (Cons ctx ctxs)
  show ?case
    unfolding list_contexts.simps
  proof (rule keeps_try [OF keeps_listClustersCached [OF assms]], rule Cons.IH)
    fix cs
    assume "api_clusters ts src ctx cs"
    with Cons.prems assms(2)
    show "list_all (api_target ts) (result @ map (\<lambda>c. \<lparr>rcCluster = c, rcSource = src\<rparr>) cs)"
      by (simp add: list_all_iff api_target_def ball_Un) blast
  qed
qed simp

lemma keeps_resolveContexts: "keeps (genuine ts) (okQ (\<lambda>_. True)) (resolveContexts ts src)"
proof -
  have "keeps (genuine ts) (okQ (\<lambda>_. True)) (act (\<lambda>s. (tsReadFile ts (srcPath src) (get_world s), s)))"
    by (rule keeps_act) (simp add: okQ_def split: sum.split)
  then show ?thesis
    unfolding resolveContexts_def by (auto intro!: keeps_try simp: okQ_def split: sum.split)
qed

lemma keeps_list_sources:
  assumes "config_ok (tsCfg ts)"
  shows "list_all (\<lambda>src. (srcName src, src) \<in> set (Kubeconfigs (tsCfg ts))) srcs \<Longrightarrow>
     list_all (api_target ts) result \<Longrightarrow>
     keeps (genuine ts) (okQ (list_all (api_target ts))) (list_sources ts srcs result)"
proof (induction srcs arbitrary: result)
  case (Cons src srcs)
  then show ?case
    by (auto intro!: keeps_try [OF keeps_resolveContexts] keeps_try [OF keeps_list_contexts [OF assms]])
qed simp

lemma sorted_sources:
  assumes "config_ok cfg"
  shows "list_all (\<lambda>src. (srcName src, src) \<in> set (Kubeconfigs cfg)) (sortedKubeconfigs cfg)"
proof -
  have "(srcName (lookup_source (Kubeconfigs cfg) k), lookup_source (Kubeconfigs cfg) k) \<in> set (Kubeconfigs cfg)"
    if "k \<in> fst ` set (Kubeconfigs cfg)" for k
  proof -
    from that obtain src where src: "(k, src) \<in> set (Kubeconfigs cfg)" by auto
    with assms have "map_of (Kubeconfigs cfg) k = Some src" by (simp add: config_ok_def)
    then show ?thesis using config_source(3) [OF assms src] by (simp add: lookup_source_def)
  qed
  then show ?thesis by (auto simp: sortedKubeconfigs_def list_all_iff)
qed

lemma keeps_allResolvedClusters:
  assumes "config_ok (tsCfg ts)"
  shows "keeps (genuine ts) (okQ (list_all (api_target ts))) (allResolvedClusters ts)"
  unfolding allResolvedClusters_def
  by (rule keeps_list_sources [OF assms sorted_sources [OF assms]]) simp

definition from_api :: "('c, 'o, 'q, 'w) ToolServer \<Rightarrow> string \<Rightarrow> bool" where
  "from_api ts t =
     (\<exists>src ctx w w1 clients w2 w3 items i.
        (srcName src, src) \<in> set (Kubeconfigs (tsCfg ts))
        \<and> clientsForContext ts src ctx w = (Inr clients, w1)
        \<and> xListClusters (tsExt ts) (cliDynamic clients) w2 = (Inr items, w3) \<and> i \<in> set items
        \<and> t = Join [slash] [srcName src, ctx, xGetNamespace (tsExt ts) i, xGetName (tsExt ts) i])"

lemma api_target_from_api:
  assumes "api_target ts rc"
  shows "from_api ts (FormatTarget (rcCluster rc))"
proof -
  obtain ctx cs w w1 clients w2 w3 items where
    a: "(srcName (rcSource rc), rcSource rc) \<in> set (Kubeconfigs (tsCfg ts))" "rcCluster rc \<in> set cs"
    "clientsForContext ts (rcSource rc) ctx w = (Inr clients, w1)"
    "xListClusters (tsExt ts) (cliDynamic clients) w2 = (Inr items, w3)"
    "map path cs = map (\<lambda>i. [srcName (rcSource rc), ctx, xGetNamespace (tsExt ts) i, xGetName (tsExt ts) i]) items"
    using assms unfolding api_target_def api_clusters_def by blast
  from a(2) have "path (rcCluster rc) \<in> set (map path cs)" by simp
  then obtain i where i: "i \<in> set items" "path (rcCluster rc) = [srcName (rcSource rc), ctx,
      xGetNamespace (tsExt ts) i, xGetName (tsExt ts) i]" unfolding a(5) by auto
  show ?thesis unfolding from_api_def FormatTarget_Join i(2) using a i(1) by blast
qed

lemma keeps_ListTargets:
  assumes "config_ok (tsCfg ts)"
  shows "keeps (genuine ts) (okQ (list_all (from_api ts))) (ListTargets ts)"
  unfolding ListTargets_def
  by (rule keeps_try [OF keeps_allResolvedClusters [OF assms]])
    (simp add: list_all_iff api_target_from_api)

text \<open>
  Every target the server lists, in any interleaving with other requests, is the formatted
  path of a cluster that the API reported through a configured kubeconfig and a context of it;
  the first two segments are that kubeconfig and context.
\<close>

theorem ListTargets_from_api:
  assumes "config_ok (tsCfg ts)" and "genuine ts s"
    and "\<And>s s'. R s s' \<Longrightarrow> genuine ts s \<Longrightarrow> genuine ts s'"
    and "pool_steps R ([ListTargets ts], s) ([Ret (Inr targets)], s')"
  shows "genuine ts s' \<and> list_all (from_api ts) targets"
proof -
  have "\<forall>i < length [ListTargets ts]. keeps (genuine ts) (okQ (list_all (from_api ts))) ([ListTargets ts] ! i)"
    using keeps_ListTargets [OF assms(1)] by simp
  from pool_outcome [OF assms(4,2) _ this assms(3), of "[Inr targets]"]
  show ?thesis by (simp add: outcome_Some)
qed

lemma sample_fetch:
  "run (ResolveTarget sample_ts ''prod/x/ns/c1'') sample_state =
     (Inr ''kc-c1'', snd (run (ResolveTarget sample_ts ''prod/x/ns/c1'') sample_state))"
  by (simp add: ResolveTarget_def ParseTarget_def slash_def cachedKubeconfig_def kc_get_def
      sample_state_def start_state_def store_of_config_def NewStore_def New_def Get_def
      FetchWorkloadKubeconfig_def transformed_def open_tunnel_def effective_host_def kc_set_def
      Let_def)

theorem ListTargets_from_api_witness:
  "from_api sample_ts ''prod/x/ns/c2''"
proof -
  have "run (ListTargets sample_ts) sample_state
      = (Inr [''prod/x/ns/c1'', ''prod/x/ns/c2''], snd (run (ListTargets sample_ts) sample_state))"
    by (simp add: ListTargets_def allResolvedClusters_def sortedKubeconfigs_def lookup_source_def
        resolveContexts_def listClustersCached_def list_get_def list_set_def sample_state_def
        start_state_def store_of_config_def NewStore_def New_def Get_def ListClustersForContext_def
        cluster_of_item_def FormatTarget_def slash_def Let_def)
  from pool_run_one [of 0 "[ListTargets sample_ts]" "ListTargets sample_ts", OF _ _ this,
      where R = "\<lambda>_ _. False"]
  have st: "pool_steps (\<lambda>_ _. False) ([ListTargets sample_ts], sample_state)
     ([Ret (Inr [''prod/x/ns/c1'', ''prod/x/ns/c2''])], snd (run (ListTargets sample_ts) sample_state))"
    by simp
  show ?thesis
    using ListTargets_from_api [OF _ _ _ st] sample_config_ok
    by (simp add: sample_state_def genuine_start)
qed

theorem ResolveTarget_right_cluster_witness:
  "right_kubeconfig sample_ts ''prod/x/ns/c1'' ''kc-c1''"
proof -
  from pool_run_one [of 0 "map (ResolveTarget sample_ts) [''prod/x/ns/c1'']"
      "ResolveTarget sample_ts ''prod/x/ns/c1''", OF _ _ sample_fetch, where R = "\<lambda>_ _. False"]
  have st: "pool_steps (\<lambda>_ _. False) (map (ResolveTarget sample_ts) [''prod/x/ns/c1''], sample_state)
     ([Ret (Inr ''kc-c1'')], snd (run (ResolveTarget sample_ts ''prod/x/ns/c1'') sample_state))"
    by simp
  have "plain_target ''prod/x/ns/c1''"
    by (simp add: plain_target_def ParseTarget_def slash_def colon_free_def)
  then show ?thesis
    using ResolveTarget_right_cluster [OF _ _ _ _ st, of "[Inr ''kc-c1'']"]
      sample_config_ok sample_names_ok
    by (auto simp: sample_state_def genuine_start outcome_Some)
qed

lemma lifetime_get: "lifetime (snd (Get t k c)) = lifetime c"
  by (rule ttl.life_get)

end
