(* ===== verification/Tunneled.thy ===== *)
theory Tunneled
  imports Server
begin

text \<open>
  Kubeconfigs that need a tunnel: \<open>cachedKubeconfig\<close> (\<open>server/resolve.go\<close>) together with
  \<open>EnsureProxy\<close> (\<open>proxy/manager.go\<close>), run alone over tunnels the daemon starts itself.

  The lemmas: what a call of \<open>EnsureProxy\<close> leaves of the entries and timers, and that a request for
  a kubeconfig is answered only with the tunnel of its cluster in place, on a miss and on
  every later hit, whatever became of the tunnel in between.
\<close>

section \<open>A tunnel in place\<close>

text \<open>The entry of the map points to an entry with an armed timer for its target.\<close>

definition tunnel_up :: "duration \<Rightarrow> string \<Rightarrow> tunnels \<Rightarrow> bool" where
  "tunnel_up ttl key m =
     (\<exists>r e. tnEntries m key = Some r \<and> tnHeap m r = Some e \<and> tnTimers m (peTimer e) = Some (key, ttl))"

definition entries_ok :: "tunnels \<Rightarrow> bool" where
  "entries_ok m = (\<forall>key r. tnEntries m key = Some r \<longrightarrow> tnHeap m r \<noteq> None)"

lemma refresh_up:
  assumes "entries_ok m" and "tnEntries m key = Some r"
  shows "tunnel_up ttl key (refresh_rearm ttl key r (refresh_stop r m))
    \<and> entries_ok (refresh_rearm ttl key r (refresh_stop r m))"
proof -
  obtain e where "tnHeap m r = Some e" using assms by (auto simp: entries_ok_def)
  with assms show ?thesis
    by (auto simp: tunnel_up_def entries_ok_def section_defs)
qed

lemma create_up:
  assumes "entries_ok m" and "arm_entry ttl key pid m = (r, m1)"
  shows "tunnel_up ttl key (insert_entry key r m1) \<and> entries_ok (insert_entry key r m1)
    \<and> entry_process (insert_entry key r m1) key = Some pid"
  using assms by (auto simp: tunnel_up_def entries_ok_def entry_process_def ref_process_def section_defs)

text \<open>
  A call of \<open>EnsureProxy\<close> that runs alone: with an entry it succeeds and starts nothing; without
  one it succeeds with a process of its own running, or fails and leaves no entry. The entries of
  other targets stay.
\<close>

definition ensured :: "duration \<Rightarrow> string \<Rightarrow> error + unit \<Rightarrow> 'w proxy_state \<Rightarrow> 'w proxy_state \<Rightarrow> bool" where
  "ensured ttl key r s s' =
     (entries_ok (pxTunnels s')
      \<and> (\<forall>k. k \<noteq> key \<longrightarrow> tnEntries (pxTunnels s') k = tnEntries (pxTunnels s) k)
      \<and> (case r of
           Inl _ \<Rightarrow> tnEntries (pxTunnels s) key = None \<and> tnEntries (pxTunnels s') key = None
         | Inr _ \<Rightarrow> tunnel_up ttl key (pxTunnels s')
             \<and> (if tnEntries (pxTunnels s) key = None
                then \<exists>pid. entry_process (pxTunnels s') key = Some pid \<and> running (pxTunnels s') key pid
                else pxWorld s' = pxWorld s)))"

lemma run_EnsureProxy:
  assumes "\<not> poUnderSystemd os" and "entries_ok (pxTunnels s)"
    and "run (EnsureProxy os ip port host ttl) s = (r, s')"
  shows "ensured ttl (targetKey ip port) r s s'"
proof (cases "tnEntries (pxTunnels s) (targetKey ip port)")
  case (Some x)
  with assms refresh_up [OF assms(2) Some, of ttl] show ?thesis
    by (auto simp: EnsureProxy_def ensureProcessProxy_def ensured_def)
next
  case None
  let ?key = "targetKey ip port"
  obtain a s1 where a: "spawn_process os host ip port s = (a, s1)" by fastforce
  have same: "s\<lparr>pxTunnels := pxTunnels s\<rparr> = s" by simp
  have run: "run (EnsureProxy os ip port host ttl) s =
     run (try_wrap ''proxy: spawning sshuttle: '' (act (spawn_process os host ip port)) (\<lambda>pid.
        bind_proc (act (select_startup os pid)) (\<lambda>exited.
          case exited of
            Some code \<Rightarrow> Ret (Inl (Errorf [Txt (''sshuttle exited early with code '' @ Itoa code)]))
          | None \<Rightarrow>
              bind_proc (on_tunnels (arm_entry ttl ?key pid)) (\<lambda>r.
              bind_proc (modify_tunnels (insert_entry ?key r)) (\<lambda>_. Ret (Inr ())))))) s"
    using assms(1) None same
    by (simp only: EnsureProxy_def ensureProcessProxy_def if_False run_bind run_on_tunnels prod.case
        option.case)
  show ?thesis
  proof (cases a)
    case (Inl e)
    then have "pxTunnels s1 = pxTunnels s"
      using a by (auto simp: spawn_process_def split: prod.splits option.splits)
    with run a Inl None assms show ?thesis by (auto simp: ensured_def)
  next
    case (Inr pid)
    from a Inr have "pxTunnels s1 = snd (start_process ?key (pxTunnels s))"
      and "pid = fst (start_process ?key (pxTunnels s))"
      by (auto simp: spawn_process_def split: prod.splits option.splits)
    then have heap: "tnHeap (pxTunnels s1) = tnHeap (pxTunnels s)"
      "tnEntries (pxTunnels s1) = tnEntries (pxTunnels s)" "running (pxTunnels s1) ?key pid"
      by (simp_all add: start_process_def running_def)
    then have ok: "entries_ok (pxTunnels s1)" using assms(2) by (simp add: entries_ok_def)
    obtain b s2 where b: "select_startup os pid s1 = (b, s2)" by fastforce
    show ?thesis
    proof (cases b)
      case (Some code)
      with b have "pxTunnels s2 = process_exits pid (pxTunnels s1)"
        by (auto simp: select_startup_def split: prod.splits option.splits)
      with run a b Inr Some heap(1,2) ok None assms(3) show ?thesis
        by (auto simp: ensured_def entries_ok_def process_exits_def)
    next
      case None': None
      with b have m2: "pxTunnels s2 = pxTunnels s1"
        by (auto simp: select_startup_def split: prod.splits option.splits)
      obtain r' m3 where r': "arm_entry ttl ?key pid (pxTunnels s1) = (r', m3)" by fastforce
      have res: "r = Inr ()" "pxTunnels s' = insert_entry ?key r' m3"
        using run a b Inr None' m2 r' assms(3) by auto
      have "running (pxTunnels s') ?key pid"
        using heap(3) arm_entry_eq [OF r'] running_procs [of "pxTunnels s'" "pxTunnels s1"] res by simp
      moreover have "\<forall>k. k \<noteq> ?key \<longrightarrow> tnEntries (pxTunnels s') k = tnEntries (pxTunnels s) k"
        using res heap(2) arm_entry_eq [OF r'] by simp
      ultimately show ?thesis
        using create_up [OF ok r'] res None by (auto simp: ensured_def)
    qed
  qed
qed

section \<open>A kubeconfig with its tunnel\<close>

definition proxy_key :: "ProxyTarget \<Rightarrow> string" where
  "proxy_key p = targetKey (ptAPIServerIP p) (ptAPIServerPort p)"

text \<open>The tunnel of a cache entry is in place, if it needs one.\<close>

definition reached :: "duration \<Rightarrow> ProxyTarget option \<Rightarrow> tunnels \<Rightarrow> bool" where
  "reached ttl pt m = (case pt of None \<Rightarrow> True | Some p \<Rightarrow> tunnel_up ttl (proxy_key p) m)"

lemma run_ensure_proxy_alone:
  assumes "\<not> poUnderSystemd (tsProxyOs ts)" and "entries_ok (svTunnels s)"
    and "run (ensure_proxy ts ip port host) s = (r, s')"
  shows "ensured (kubeconfigTTL ts) (targetKey ip port) r (get_proxy s) (get_proxy s')
    \<and> svStore s' = svStore s \<and> svNow s' = svNow s"
proof -
  obtain p where p: "run (EnsureProxy (tsProxyOs ts) ip port host (kubeconfigTTL ts)) (get_proxy s) = (r, p)"
    and s': "s' = put_proxy p s" using assms(3) by (auto split: prod.splits)
  have "entries_ok (pxTunnels (get_proxy s))" using assms(2) by (simp add: get_proxy_def)
  from run_EnsureProxy [OF assms(1) this p] show ?thesis
    unfolding s' lens_proxy by (simp add: put_proxy_def put_world_def)
qed

lemma run_open_tunnel:
  assumes "\<not> poUnderSystemd (tsProxyOs ts)" and "entries_ok (svTunnels s)"
    and "run (open_tunnel ts clients host ns name) s = (Inr pt, s')"
  shows "reached (kubeconfigTTL ts) pt (svTunnels s') \<and> entries_ok (svTunnels s')
    \<and> svStore s' = svStore s \<and> svNow s' = svNow s
    \<and> (pt = None \<longrightarrow> svTunnels s' = svTunnels s)
    \<and> (if host = [] then pt = None
       else \<exists>w. run (FetchAPIServerInfo (tsExt ts) (cliDynamic clients) ns name) (get_world s) =
           (Inr (map_option (\<lambda>p. (ptAPIServerIP p, ptAPIServerPort p)) pt), w)
         \<and> (\<forall>p. pt = Some p \<longrightarrow> ptSshuttleHost p = host))"
proof (cases "host = []")
  case True
  with assms show ?thesis by (auto simp: open_tunnel_def reached_def)
next
  case False
  obtain a w where a: "run (FetchAPIServerInfo (tsExt ts) (cliDynamic clients) ns name) (get_world s) = (a, w)"
    by fastforce
  with False assms(3) obtain info where info: "a = Inr info"
    by (cases a) (auto simp: open_tunnel_def)
  show ?thesis
  proof (cases info)
    case None
    with a info False assms show ?thesis
      by (auto simp: open_tunnel_def reached_def put_world_def)
  next
    case (Some q)
    obtain ip port where q: "q = (ip, port)" by fastforce
    obtain r s1 where e: "run (ensure_proxy ts ip port host) (put_world w s) = (r, s1)" by fastforce
    have "entries_ok (svTunnels (put_world w s))" using assms(2) by (simp add: put_world_def)
    note en = run_ensure_proxy_alone [OF assms(1) this e]
    obtain u where r: "r = Inr u" and pt: "s' = s1"
      "pt = Some \<lparr>ptSshuttleHost = host, ptAPIServerIP = ip, ptAPIServerPort = port\<rparr>"
      using assms(3) a info Some q False e
      by (cases r) (simp_all add: open_tunnel_def del: run_ensure_proxy)
    from en r pt a info Some q False show ?thesis
      by (auto simp: ensured_def reached_def proxy_key_def get_proxy_def put_world_def)
  qed
qed

text \<open>The two paths through \<open>cachedKubeconfig\<close>.\<close>

lemma run_cached_miss:
  assumes "kc_get (KubeconfigKey (srcName src) ctx ns name) s = (None, sa)"
    and "run (cachedKubeconfig ts src ctx ns name) s = (Inr kc, s1)"
  shows "\<exists>clients w0 w1 pt w sc. clientsForContext ts src ctx w0 = (Inr clients, w1)
     \<and> run (open_tunnel ts clients (effective_host ts src) ns name) (put_world w sa) = (Inr pt, sc)
     \<and> s1 = snd (kc_set (KubeconfigKey (srcName src) ctx ns name)
         \<lparr>ckKubeconfig = kc, ckProxyTarget = pt\<rparr> sc)"
proof -
  let ?key = "KubeconfigKey (srcName src) ctx ns name"
  from assms obtain clients w0 w1 pt w sc where
    "clientsForContext ts src ctx w0 = (Inr clients, w1)"
    "run (open_tunnel ts clients (effective_host ts src) ns name) (put_world w sa) = (Inr pt, sc)"
    "kc_set ?key \<lparr>ckKubeconfig = kc, ckProxyTarget = pt\<rparr> sc = ((), s1)"
    by (auto simp: cachedKubeconfig_def Let_def split: prod.splits sum.splits)
  then show ?thesis by (metis snd_conv)
qed

lemma run_cached_hit:
  assumes "kc_get (KubeconfigKey (srcName src) ctx ns name) s = (Some e, sa)"
  shows "run (cachedKubeconfig ts src ctx ns name) s =
     (case ckProxyTarget e of
        None \<Rightarrow> (Inr (ckKubeconfig e), sa)
      | Some p \<Rightarrow>
          (case run (ensure_proxy ts (ptAPIServerIP p) (ptAPIServerPort p) (ptSshuttleHost p)) sa of
             (Inl err, s1) \<Rightarrow> (Inl err, s1)
           | (Inr _, s1) \<Rightarrow> (Inr (ckKubeconfig e), s1)))"
  using assms by (auto simp: cachedKubeconfig_def Let_def simp del: run_ensure_proxy
      split: option.split sum.split prod.split)

lemma run_hit_reaches:
  assumes "\<not> poUnderSystemd (tsProxyOs ts)" and "entries_ok (svTunnels s)"
    and "kc_get (KubeconfigKey (srcName src) ctx ns name) s = (Some e, sa)"
    and "run (cachedKubeconfig ts src ctx ns name) s = (r, s')"
  shows "(case r of
        Inr kc \<Rightarrow> kc = ckKubeconfig e \<and> reached (kubeconfigTTL ts) (ckProxyTarget e) (svTunnels s')
      | Inl _ \<Rightarrow> \<exists>p. ckProxyTarget e = Some p \<and> tnEntries (svTunnels s) (proxy_key p) = None)
     \<and> ((\<forall>p. ckProxyTarget e = Some p \<longrightarrow> tnEntries (svTunnels s) (proxy_key p) \<noteq> None) \<longrightarrow>
          svMachine s' = svMachine s)"
proof -
  from assms(3) have sa: "svTunnels sa = svTunnels s" "svMachine sa = svMachine s"
    by (auto simp: kc_get_def split: prod.splits)
  show ?thesis
  proof (cases "ckProxyTarget e")
    case None
    with run_cached_hit [OF assms(3), of ts] assms(4) sa show ?thesis by (auto simp: reached_def)
  next
    case (Some p)
    obtain a s1 where en: "run (ensure_proxy ts (ptAPIServerIP p) (ptAPIServerPort p) (ptSshuttleHost p)) sa = (a, s1)"
      by fastforce
    have "ensured (kubeconfigTTL ts) (proxy_key p) a (get_proxy sa) (get_proxy s1)"
      using run_ensure_proxy_alone [OF assms(1) _ en] assms(2) sa by (simp add: proxy_key_def)
    moreover have "get_world s1 = get_world sa \<longrightarrow> svMachine s1 = svMachine sa"
      using en by (auto simp: put_proxy_def put_world_def get_world_def split: prod.splits)
    moreover have "(r, s') = (case a of Inl err \<Rightarrow> (Inl err, s1) | Inr _ \<Rightarrow> (Inr (ckKubeconfig e), s1))"
      using run_cached_hit [OF assms(3), of ts, unfolded assms(4) Some option.case en] by simp
    ultimately show ?thesis
      using Some sa by (cases a) (auto simp: ensured_def reached_def get_proxy_def)
  qed
qed

text \<open>What a fetch leaves in the cache, for every later instant within the lifetime.\<close>

lemma open_tunnel_frame:
  "run (open_tunnel ts clients host ns name) s = (r, s') \<Longrightarrow> svStore s' = svStore s \<and> svNow s' = svNow s"
  by (auto simp: open_tunnel_def split: if_splits prod.splits sum.splits option.splits)

lemma fetched_entry:
  assumes "run (cachedKubeconfig ts src ctx ns name) s = (Inr kc, s1)"
    and "fst (kc_get (KubeconfigKey (srcName src) ctx ns name) s) = None"
    and "svNow s \<le> t" and "t \<le> svNow s + lifetime (stKubeconfig (svStore s))"
  shows "\<exists>clients w0 w1 pt sb sc. clientsForContext ts src ctx w0 = (Inr clients, w1)
     \<and> run (open_tunnel ts clients (effective_host ts src) ns name) sb = (Inr pt, sc)
     \<and> svTunnels sb = svTunnels s \<and> svTunnels s1 = svTunnels sc
     \<and> (\<forall>m. fst (kc_get (KubeconfigKey (srcName src) ctx ns name) (s1\<lparr>svNow := t, svTunnels := m\<rparr>))
          = Some \<lparr>ckKubeconfig = kc, ckProxyTarget = pt\<rparr>)"
proof -
  let ?key = "KubeconfigKey (srcName src) ctx ns name" and ?c = "stKubeconfig (svStore s)"
  obtain sa where a: "kc_get ?key s = (None, sa)" using assms(2) by (metis prod.collapse)
  then have sa: "svNow sa = svNow s" "stKubeconfig (svStore sa) = snd (Get (svNow s) ?key ?c)"
      "svTunnels sa = svTunnels s"
    by (auto simp: kc_get_def split: prod.splits)
  obtain clients w0 w1 pt w sc where cl: "clientsForContext ts src ctx w0 = (Inr clients, w1)"
    and tun: "run (open_tunnel ts clients (effective_host ts src) ns name) (put_world w sa) = (Inr pt, sc)"
    and s1: "s1 = snd (kc_set ?key \<lparr>ckKubeconfig = kc, ckProxyTarget = pt\<rparr> sc)"
    using run_cached_miss [OF a assms(1)] by blast
  have c1: "stKubeconfig (svStore s1) = Set (svNow s) ?key \<lparr>ckKubeconfig = kc, ckProxyTarget = pt\<rparr>
      (snd (Get (svNow s) ?key ?c))"
    using open_tunnel_frame [OF tun] by (simp add: s1 kc_set_def sa)
  have "0 \<le> lifetime ?c" using assms(3,4) by simp
  then have "fst (Get t ?key (stKubeconfig (svStore s1))) = Some \<lparr>ckKubeconfig = kc, ckProxyTarget = pt\<rparr>"
    using assms(3,4) by (simp add: c1 ttl.get_result ttl.vis_set lifetime_get)
  then have "fst (kc_get ?key (s1\<lparr>svNow := t, svTunnels := m\<rparr>))
      = Some \<lparr>ckKubeconfig = kc, ckProxyTarget = pt\<rparr>" for m
    by (simp add: kc_get_def prod.case_eq_if)
  moreover have "svTunnels (put_world w sa) = svTunnels s" by (simp add: put_world_def sa)
  moreover have "svTunnels s1 = svTunnels sc" by (simp add: s1 kc_set_def)
  ultimately show ?thesis using cl tun by blast
qed


text \<open>The server in memory behind a host, its API server reachable through a tunnel only.\<close>

definition tunneled_ts :: "(unit, string \<times> string, unit, rbac_objects) ToolServer" where
  "tunneled_ts = sample_ts\<lparr>tsCfg := sample_cfg\<lparr>cfgSshuttleHost := ''bastion''\<rparr>\<rparr>"

lemma tunneled_info:
  "run (FetchAPIServerInfo (tsExt tunneled_ts) c ns name) w = (Inr (Some (''10.0.0.1'', ''5'')), w)"
proof -
  have "Itoa 5 = ''5''" by (simp add: Itoa_def nat_digits.simps [of 5] digit_def)
  then show ?thesis
    by (simp add: tunneled_ts_def FetchAPIServerInfo_def fetchOpenStackCluster_def nestedStringOrNumber_def Let_def)
qed

lemma tunneled_fetch:
  "fst (run (cachedKubeconfig tunneled_ts sample_source ''x'' ''ns'' ''c1'') sample_state) = Inr ''kc-c1''"
proof -
  have ts: "tsCfg tunneled_ts = sample_cfg\<lparr>cfgSshuttleHost := ''bastion''\<rparr>" "tsProxyOs tunneled_ts = calm_os"
    "clientsForContext tunneled_ts src ctx w = (Inr \<lparr>cliDynamic = (), cliCore = (), cliRbac = ()\<rparr>, w)"
    "run (FetchWorkloadKubeconfig (tsExt tunneled_ts) c ''ns'' ''c1'') w = (Inr ''kc-c1'', w)" for src ctx w c
    by (simp_all add: tunneled_ts_def sample_ts_def FetchWorkloadKubeconfig_def Let_def)
  show ?thesis
    by (simp add: cachedKubeconfig_def ts kc_get_def sample_state_def start_state_def
        store_of_config_def NewStore_def New_def Get_def transformed_def open_tunnel_def
        effective_host_def tunneled_info kc_set_def Let_def EnsureProxy_def ensureProcessProxy_def
        calm_os_def get_proxy_def new_manager_def spawn_process_def select_startup_def
        start_process_def arm_entry_def after_func_def)
qed


end
