(* ===== verification/Clash.thy ===== *)
theory Clash
  imports Tunneled
begin

text \<open>
  Names with colons. The caches of \<open>capi/store.go\<close> are keyed by names joined with colons, and
  \<open>config/config.go\<close> accepts any text as the name of a kubeconfig. Without a colon in the configured
  names no two clusters share a key (theories Store, Server); here is what happens with one.
\<close>

lemma KubeconfigKey_shifts:
  "KubeconfigKey k (c @ '':'' @ c') ns name = KubeconfigKey (k @ '':'' @ c) c' ns name"
  by (simp add: KubeconfigKey_def)

text \<open>
  C37. A colon in the name of a kubeconfig lets two clusters share a cache entry. When the name of
  one kubeconfig is that of another, a colon and more, a target of the one whose context
  begins with the rest and a target of the other can be different clusters with one cache key: once
  the first has been resolved, the second is answered with the kubeconfig of the first for as
  long as that is cached, and the API is not asked about it at all.
\<close>

theorem colon_names_share_entry:
  assumes "map_of (Kubeconfigs (tsCfg ts)) k = Some src" and "srcName src = k"
    and "map_of (Kubeconfigs (tsCfg ts)) (k @ '':'' @ c) = Some src'" and "srcName src' = k @ '':'' @ c"
    and "ParseTarget target = Inr (k, c @ '':'' @ c', ns, name)"
    and "ParseTarget target' = Inr (k @ '':'' @ c, c', ns, name)"
    and "effective_host ts src = []"
    and "run (ResolveTarget ts target) s = (Inr kc, s1)"
    and "fst (kc_get (KubeconfigKey k (c @ '':'' @ c') ns name) s) = None"
    and "svNow s \<le> t" and "t \<le> svNow s + lifetime (stKubeconfig (svStore s))"
  shows "target \<noteq> target' \<and>
    (\<exists>s2. run (ResolveTarget ts target') (s1\<lparr>svNow := t\<rparr>) = (Inr kc, s2)
       \<and> svMachine s2 = svMachine s1 \<and> svTunnels s2 = svTunnels s1)"
proof -
  have run1: "run (cachedKubeconfig ts src (c @ '':'' @ c') ns name) s = (Inr kc, s1)"
    using assms(1,5,8) by (simp add: ResolveTarget_def)
  obtain clients sb sc pt where tun: "run (open_tunnel ts clients (effective_host ts src) ns name) sb = (Inr pt, sc)"
    and hit: "\<And>m. fst (kc_get (KubeconfigKey k (c @ '':'' @ c') ns name) (s1\<lparr>svNow := t, svTunnels := m\<rparr>))
        = Some \<lparr>ckKubeconfig = kc, ckProxyTarget = pt\<rparr>"
    using fetched_entry [OF run1, unfolded assms(2), OF assms(9-11)] by blast
  have "pt = None" using tun assms(7) by (simp add: open_tunnel_def)
  then obtain sd where sd: "kc_get (KubeconfigKey (srcName src') c' ns name) (s1\<lparr>svNow := t\<rparr>)
      = (Some \<lparr>ckKubeconfig = kc, ckProxyTarget = None\<rparr>, sd)"
    using hit [of "svTunnels s1"] unfolding assms(4) KubeconfigKey_shifts
    by (cases "kc_get (KubeconfigKey (k @ '':'' @ c) c' ns name) (s1\<lparr>svNow := t\<rparr>)") simp
  then have "svMachine sd = svMachine s1 \<and> svTunnels sd = svTunnels s1"
    by (auto simp: kc_get_def prod.case_eq_if)
  moreover have "run (ResolveTarget ts target') (s1\<lparr>svNow := t\<rparr>) = (Inr kc, sd)"
    using run_cached_hit [OF sd, of ts] assms(3,6) by (simp add: ResolveTarget_def)
  moreover have "target \<noteq> target'" using assms(5,6) by auto
  ultimately show ?thesis by blast
qed

text \<open>A server with such names, whose second kubeconfig cannot be read.\<close>

definition clash_source :: "string \<Rightarrow> KubeconfigSource" where
  "clash_source n = sample_source\<lparr>srcName := n\<rparr>"

definition clash_ts :: "(unit, string \<times> string, unit, rbac_objects) ToolServer" where
  "clash_ts = sample_ts\<lparr>
     tsCfg := sample_cfg\<lparr>Kubeconfigs := [(''a'', clash_source ''a''), (''a:b'', clash_source ''a:b'')]\<rparr>,
     clientsForContext := (\<lambda>src ctx w.
       if srcName src = ''a:b'' then (Inl (ExtError ''no such file''), w)
       else (Inr \<lparr>cliDynamic = (), cliCore = (), cliRbac = ()\<rparr>, w))\<rparr>"

theorem colon_names_share_entry_witness:
  "\<exists>e s' s1 s2. run (ResolveTarget clash_ts ''a:b/x/ns/c1'') sample_state = (Inl e, s')
     \<and> run (ResolveTarget clash_ts ''a/b:x/ns/c1'') sample_state = (Inr ''kc-c1'', s1)
     \<and> run (ResolveTarget clash_ts ''a:b/x/ns/c1'') (s1\<lparr>svNow := 60\<rparr>) = (Inr ''kc-c1'', s2)"
proof -
  have ts: "Kubeconfigs (tsCfg clash_ts) = [(''a'', clash_source ''a''), (''a:b'', clash_source ''a:b'')]"
    "srcName (clash_source n) = n" "tsExt clash_ts = sample_ext" "Transforms (tsCfg clash_ts) = None"
    "effective_host clash_ts (clash_source n) = []"
    "clientsForContext clash_ts (clash_source n) ctx w =
       (if n = ''a:b'' then (Inl (ExtError ''no such file''), w)
        else (Inr \<lparr>cliDynamic = (), cliCore = (), cliRbac = ()\<rparr>, w))" for n ctx w
    by (simp_all add: clash_ts_def clash_source_def effective_host_def)
  have parse: "ParseTarget ''a/b:x/ns/c1'' = Inr (''a'', ''b'' @ '':'' @ ''x'', ''ns'', ''c1'')"
    "ParseTarget ''a:b/x/ns/c1'' = Inr (''a'' @ '':'' @ ''b'', ''x'', ''ns'', ''c1'')"
    by (simp_all add: ParseTarget_def slash_def)
  note start = kc_get_def sample_state_def start_state_def store_of_config_def NewStore_def New_def Get_def
  have "\<exists>e s'. run (ResolveTarget clash_ts ''a:b/x/ns/c1'') sample_state = (Inl e, s')"
    by (simp add: ResolveTarget_def parse ts cachedKubeconfig_def start Let_def)
  moreover have "fst (run (ResolveTarget clash_ts ''a/b:x/ns/c1'') sample_state) = Inr ''kc-c1''"
    by (simp add: ResolveTarget_def parse ts cachedKubeconfig_def start Let_def
        FetchWorkloadKubeconfig_def transformed_def open_tunnel_def kc_set_def)
  then obtain s1 where s1: "run (ResolveTarget clash_ts ''a/b:x/ns/c1'') sample_state = (Inr ''kc-c1'', s1)"
    by (metis prod.collapse)
  moreover have "\<exists>s2. run (ResolveTarget clash_ts ''a:b/x/ns/c1'') (s1\<lparr>svNow := 60\<rparr>) = (Inr ''kc-c1'', s2)"
  proof -
    have "fst (kc_get (KubeconfigKey ''a'' (''b'' @ '':'' @ ''x'') ''ns'' ''c1'') sample_state) = None"
      and "svNow sample_state \<le> 60" "60 \<le> svNow sample_state + lifetime (stKubeconfig (svStore sample_state))"
      by (simp_all add: start lifetime_def sample_cfg_def seconds_def Second_def)
    from colon_names_share_entry [OF _ _ _ _ parse _ s1 this, of "clash_source ''a''" "clash_source ''a:b''"]
    show ?thesis by (auto simp: ts)
  qed
  ultimately show ?thesis by blast
qed

end
