(* ===== verification/Tools.thy ===== *)
theory Tools
  imports Server
begin

text \<open>
  \<open>internal/server/tools.go\<close> and \<open>types.go\<close>: the five tools of the server.

  A tool's answer is a Go error or a call result; \<open>json.MarshalIndent\<close>, which cannot fail on
  these structs, yields the rendering of a \<open>json\<close> tree, kept as the tree. The tools that fan
  out are triples of a first computation, a worker per target and the collection of the
  results, run by \<^const>\<open>fan_out\<close> in any interleaving.

  The lemmas: in every schedule the i-th result is about the i-th target, a failure stays in
  its own entry, and the call is marked as an error exactly when some entry is; what
  \<open>list_clusters\<close> keeps; and that the read-only tools hand out minted kubeconfigs only.
\<close>

section \<open>Results\<close>

text \<open>\<open>JText j\<close> is a JSON string that holds the rendering of another tree.\<close>

datatype json =
    JBool bool
  | JInt int
  | JString message
  | JNull
  | JText json
  | JList "json list"
  | JObj "(string \<times> json) list"

datatype result_text = Plain message | Json json

datatype content = TextContent result_text | OtherContent

record CallToolResult =
  ctContent :: "content list"
  ctIsError :: bool

definition textResult :: "result_text \<Rightarrow> bool \<Rightarrow> CallToolResult" where
  "textResult t isError = \<lparr>ctContent = [TextContent t], ctIsError = isError\<rparr>"

text \<open>A field with \<open>omitempty\<close>.\<close>

definition omit_empty :: "string \<Rightarrow> message \<Rightarrow> (string \<times> json) list" where
  "omit_empty k t = (if text_empty t then [] else [(k, JString t)])"

section \<open>list_clusters\<close>

definition resolveClusterPatterns ::
  "('c, 'o, 'q, 'w) ToolServer \<Rightarrow> string list \<Rightarrow> bool \<Rightarrow> (error + string list, 'w server_state) proc" where
  "resolveClusterPatterns ts patterns strict =
     ResolveClusterPatterns patterns (allKnownClusters ts) strict"

record listClustersEntry =
  leCluster :: CAPICluster
  leTarget :: string

definition entry_of :: "resolvedCluster \<Rightarrow> listClustersEntry" where
  "entry_of r = \<lparr>leCluster = rcCluster r, leTarget = FormatTarget (rcCluster r)\<rparr>"

definition entry_json :: "listClustersEntry \<Rightarrow> json" where
  "entry_json e =
     (let c = leCluster e in
      JObj ([(''kubeconfig'', JString [Lit (cKubeconfigName c)]), (''context'', JString [Lit (cContext c)]),
         (''namespace'', JString [Lit (cNamespace c)]), (''name'', JString [Lit (cName c)])]
        @ (if cCustomFields c = [] then []
           else [(''custom_fields'', JObj (map (\<lambda>(k, v). (k, JString [Lit v])) (sort_key fst (cCustomFields c))))])
        @ [(''target'', JString [Lit (leTarget e)])]))"

definition list_result :: "resolvedCluster list \<Rightarrow> CallToolResult" where
  "list_result resolved = textResult (Json (JList (map (entry_json \<circ> entry_of) resolved))) False"

definition ListClusters ::
  "('c, 'o, 'q, 'w) ToolServer \<Rightarrow> string list \<Rightarrow> (error + CallToolResult, 'w server_state) proc" where
  "ListClusters ts inClusters =
     try_proc (allResolvedClusters ts) (\<lambda>resolved.
       if length inClusters > 0 then
         bind_proc (ResolveClusterPatterns inClusters (Ret (Inr (map rcCluster resolved))) False) (\<lambda>r.
           case r of
             Inl err \<Rightarrow> Ret (Inr (textResult (Plain (Error err)) True))
           | Inr matched \<Rightarrow>
               Ret (Inr (list_result (filter (\<lambda>r. FormatTarget (rcCluster r) \<in> set matched) resolved))))
       else Ret (Inr (list_result resolved)))"

section \<open>get_cluster_kubeconfig and its read-only variant\<close>

record kubeconfigResult =
  krCluster :: string
  krKubeconfig :: string
  krError :: message

definition kubeconfig_json :: "kubeconfigResult \<Rightarrow> json" where
  "kubeconfig_json r =
     JObj ([(''cluster'', JString [Lit (krCluster r)])]
       @ omit_empty ''kubeconfig'' [Lit (krKubeconfig r)] @ omit_empty ''error'' (krError r))"

definition kubeconfig_first ::
  "('c, 'o, 'q, 'w) ToolServer \<Rightarrow> string list \<Rightarrow> (CallToolResult + string list, 'w server_state) proc" where
  "kubeconfig_first ts inClusters =
     bind_proc (resolveClusterPatterns ts inClusters False) (\<lambda>r.
       case r of
         Inl err \<Rightarrow> Ret (Inl (textResult (Plain (Error err)) True))
       | Inr targets \<Rightarrow> Ret (Inr targets))"

definition kubeconfig_worker ::
  "('c, 'o, 'q, 'w) ToolServer \<Rightarrow> bool \<Rightarrow> string \<Rightarrow> (kubeconfigResult, 'w server_state) proc" where
  "kubeconfig_worker ts readonly target =
     bind_proc (ResolveTarget ts target) (\<lambda>r.
       case r of
         Inl err \<Rightarrow> Ret \<lparr>krCluster = target, krKubeconfig = [], krError = Error err\<rparr>
       | Inr adminKC \<Rightarrow>
           if \<not> readonly then Ret \<lparr>krCluster = target, krKubeconfig = adminKC, krError = []\<rparr>
           else
             bind_proc (readOnlyKubeconfig ts adminKC) (\<lambda>r.
               case r of
                 Inl err \<Rightarrow> Ret \<lparr>krCluster = target, krKubeconfig = [], krError = Error err\<rparr>
               | Inr roKC \<Rightarrow> Ret \<lparr>krCluster = target, krKubeconfig = roKC, krError = []\<rparr>))"

fun any_kubeconfig_error :: "kubeconfigResult list \<Rightarrow> bool" where
  "any_kubeconfig_error [] = False"
| "any_kubeconfig_error (r # rs) = (if \<not> text_empty (krError r) then True else any_kubeconfig_error rs)"

definition kubeconfig_finish :: "kubeconfigResult list \<Rightarrow> CallToolResult" where
  "kubeconfig_finish results =
     textResult (Json (JList (map kubeconfig_json results))) (any_kubeconfig_error results)"

text \<open>\<open>R\<close> is what the rest of the server may do meanwhile.\<close>

definition getClusterKubeconfigFanOut ::
  "('w server_state \<Rightarrow> 'w server_state \<Rightarrow> bool) \<Rightarrow> ('c, 'o, 'q, 'w) ToolServer \<Rightarrow> string list \<Rightarrow> bool
    \<Rightarrow> 'w server_state \<Rightarrow> CallToolResult \<Rightarrow> 'w server_state \<Rightarrow> bool" where
  "getClusterKubeconfigFanOut R ts inClusters readonly =
     fan_out R (kubeconfig_first ts inClusters) (kubeconfig_worker ts readonly) kubeconfig_finish"

definition GetClusterKubeconfig ::
  "('w server_state \<Rightarrow> 'w server_state \<Rightarrow> bool) \<Rightarrow> ('c, 'o, 'q, 'w) ToolServer \<Rightarrow> string list
    \<Rightarrow> 'w server_state \<Rightarrow> CallToolResult \<Rightarrow> 'w server_state \<Rightarrow> bool" where
  "GetClusterKubeconfig R ts inClusters = getClusterKubeconfigFanOut R ts inClusters False"

definition GetClusterKubeconfigReadonly ::
  "('w server_state \<Rightarrow> 'w server_state \<Rightarrow> bool) \<Rightarrow> ('c, 'o, 'q, 'w) ToolServer \<Rightarrow> string list
    \<Rightarrow> 'w server_state \<Rightarrow> CallToolResult \<Rightarrow> 'w server_state \<Rightarrow> bool" where
  "GetClusterKubeconfigReadonly R ts inClusters = getClusterKubeconfigFanOut R ts inClusters True"

section \<open>exec_in_cluster and its read-only variant\<close>

record ExecInput =
  eiClusters :: "string list"
  eiCommand :: "string list"
  eiStdin :: string

record clusterID =
  idKubeconfig :: string
  idContext :: string
  idNamespace :: string
  idName :: string

record clusterExecResult =
  erCluster :: clusterID
  erStdout :: "message option"
  erStderr :: "message option"
  erExitCode :: "int option"
  erError :: "message option"

definition no_cluster :: clusterID where
  "no_cluster = \<lparr>idKubeconfig = [], idContext = [], idNamespace = [], idName = []\<rparr>"

definition clusterErrResult :: "clusterID \<Rightarrow> error \<Rightarrow> clusterExecResult" where
  "clusterErrResult i err =
     \<lparr>erCluster = i, erStdout = None, erStderr = None, erExitCode = None, erError = Some (Error err)\<rparr>"

definition nonEmptyPtr :: "message \<Rightarrow> message option" where
  "nonEmptyPtr s = (if text_empty s then None else Some s)"

definition exec_ok :: "clusterID \<Rightarrow> Result \<Rightarrow> clusterExecResult" where
  "exec_ok i r =
     \<lparr>erCluster = i, erStdout = nonEmptyPtr [Lit (resStdout r)], erStderr = nonEmptyPtr (resStderr r),
      erExitCode = Some (resExitCode r), erError = None\<rparr>"

text \<open>\<open>x, err := p; if err != nil { return clusterErrResult(id, err) }\<close>.\<close>

definition or_result ::
  "clusterID \<Rightarrow> (error + 'a, 's) proc \<Rightarrow> ('a \<Rightarrow> (clusterExecResult, 's) proc)
    \<Rightarrow> (clusterExecResult, 's) proc" where
  "or_result i p k =
     bind_proc p (\<lambda>r. case r of Inl err \<Rightarrow> Ret (clusterErrResult i err) | Inr a \<Rightarrow> k a)"

definition run_command ::
  "('c, 'o, 'q, 'w) ToolServer \<Rightarrow> string \<Rightarrow> (string \<times> string) list \<Rightarrow> string list \<Rightarrow> string
    \<Rightarrow> (error + Result, 'w server_state) proc" where
  "run_command ts kc osEnv command stdin =
     zoom svMachine put_machine (WithKubeconfig (tsOs ts) (tsExecFile ts) kc osEnv command stdin)"

text \<open>The kubeconfig and the environment of the command: minted, or the admin one with OpenStack's.\<close>

definition exec_access ::
  "('c, 'o, 'q, 'w) ToolServer \<Rightarrow> KubeconfigSource \<Rightarrow> string \<Rightarrow> string \<Rightarrow> string \<Rightarrow> bool \<Rightarrow> string
    \<Rightarrow> (error + string \<times> (string \<times> string) list, 'w server_state) proc" where
  "exec_access ts src contextName namespace name readonly kc =
     (if readonly then
        try_proc (readOnlyKubeconfig ts kc) (\<lambda>roKC. Ret (Inr (roKC, [])))
      else
        try_proc (on_world (act (clientsForContext ts src contextName))) (\<lambda>clients.
        try_proc (on_world (FetchOpenStackEnv (tsExt ts) (cliDynamic clients) (cliCore clients) namespace name))
          (\<lambda>osEnv. Ret (Inr (kc, osEnv)))))"

definition execOneTarget ::
  "('c, 'o, 'q, 'w) ToolServer \<Rightarrow> string list \<Rightarrow> string \<Rightarrow> bool \<Rightarrow> string
    \<Rightarrow> (clusterExecResult, 'w server_state) proc" where
  "execOneTarget ts command stdin readonly target =
     (case ParseTarget target of
        Inl err \<Rightarrow> Ret (clusterErrResult no_cluster err)
      | Inr (kubeconfigName, contextName, namespace, name) \<Rightarrow>
        let i = \<lparr>idKubeconfig = kubeconfigName, idContext = contextName,
                 idNamespace = namespace, idName = name\<rparr>
        in case map_of (Kubeconfigs (tsCfg ts)) kubeconfigName of
            None \<Rightarrow> Ret (clusterErrResult i (Errorf [Txt (''unknown kubeconfig: '' @ kubeconfigName)]))
          | Some src \<Rightarrow>
              or_result i (cachedKubeconfig ts src contextName namespace name) (\<lambda>kc.
              or_result i (exec_access ts src contextName namespace name readonly kc) (\<lambda>(kc, osEnv).
              or_result i (run_command ts kc osEnv command stdin) (\<lambda>r.
              Ret (exec_ok i r)))))"

definition exec_first ::
  "ExecInput \<Rightarrow> ((error + CallToolResult) + string list, 'w server_state) proc" where
  "exec_first inp =
     (if eiCommand inp = [] then
        Ret (Inl (Inl (Errorf [Txt ''exec_in_cluster: command must be non-empty''])))
      else if eiClusters inp = [] then
        Ret (Inl (Inr (textResult (Plain [Lit ''clusters is required and must be a non-empty array of full kubeconfig/context/namespace/name paths'']) True)))
      else
        bind_proc (ResolveClusterPatterns (eiClusters inp) (Ret (Inr [])) True) (\<lambda>r.
          case r of
            Inl err \<Rightarrow> Ret (Inl (Inr (textResult (Plain (Error err)) True)))
          | Inr targets \<Rightarrow> Ret (Inr targets)))"

definition opt_json :: "('a \<Rightarrow> json) \<Rightarrow> 'a option \<Rightarrow> json" where
  "opt_json f x = (case x of None \<Rightarrow> JNull | Some a \<Rightarrow> f a)"

definition exec_json :: "clusterExecResult \<Rightarrow> json" where
  "exec_json r =
     (let i = erCluster r in
      JObj [(''cluster'', JObj [(''kubeconfig'', JString [Lit (idKubeconfig i)]),
              (''context'', JString [Lit (idContext i)]), (''namespace'', JString [Lit (idNamespace i)]),
              (''name'', JString [Lit (idName i)])]),
            (''stdout'', opt_json JString (erStdout r)), (''stderr'', opt_json JString (erStderr r)),
            (''exit_code'', opt_json JInt (erExitCode r)), (''error'', opt_json JString (erError r))])"

definition exec_failed :: "clusterExecResult \<Rightarrow> bool" where
  "exec_failed r = (erError r \<noteq> None \<or> (case erExitCode r of None \<Rightarrow> False | Some c \<Rightarrow> c \<noteq> 0))"

fun any_exec_error :: "clusterExecResult list \<Rightarrow> bool" where
  "any_exec_error [] = False"
| "any_exec_error (r # rs) = (if exec_failed r then True else any_exec_error rs)"

definition exec_finish :: "clusterExecResult list \<Rightarrow> error + CallToolResult" where
  "exec_finish results =
     Inr (textResult (Json (JList (map exec_json results))) (any_exec_error results))"

definition execInClusterFanOut ::
  "('w server_state \<Rightarrow> 'w server_state \<Rightarrow> bool) \<Rightarrow> ('c, 'o, 'q, 'w) ToolServer \<Rightarrow> ExecInput \<Rightarrow> bool
    \<Rightarrow> 'w server_state \<Rightarrow> error + CallToolResult \<Rightarrow> 'w server_state \<Rightarrow> bool" where
  "execInClusterFanOut R ts inp readonly =
     fan_out R (exec_first inp) (execOneTarget ts (eiCommand inp) (eiStdin inp) readonly) exec_finish"

definition ExecInCluster ::
  "('w server_state \<Rightarrow> 'w server_state \<Rightarrow> bool) \<Rightarrow> ('c, 'o, 'q, 'w) ToolServer \<Rightarrow> ExecInput
    \<Rightarrow> 'w server_state \<Rightarrow> error + CallToolResult \<Rightarrow> 'w server_state \<Rightarrow> bool" where
  "ExecInCluster R ts inp = execInClusterFanOut R ts inp False"

definition ExecInClusterReadonly ::
  "('w server_state \<Rightarrow> 'w server_state \<Rightarrow> bool) \<Rightarrow> ('c, 'o, 'q, 'w) ToolServer \<Rightarrow> ExecInput
    \<Rightarrow> 'w server_state \<Rightarrow> error + CallToolResult \<Rightarrow> 'w server_state \<Rightarrow> bool" where
  "ExecInClusterReadonly R ts inp = execInClusterFanOut R ts inp True"

section \<open>exec_in_cluster: one entry per target, failures in their own entry\<close>

definition id_of :: "string \<Rightarrow> clusterID option" where
  "id_of t =
     (case ParseTarget t of
        Inl _ \<Rightarrow> None
      | Inr (k, ctx, ns, name) \<Rightarrow>
          Some \<lparr>idKubeconfig = k, idContext = ctx, idNamespace = ns, idName = name\<rparr>)"

text \<open>An entry about a target: an exit code with the output, or an error and no output.\<close>

definition exec_entry_for :: "string \<Rightarrow> clusterExecResult \<Rightarrow> bool" where
  "exec_entry_for t e =
     (id_of t = Some (erCluster e)
      \<and> (case erError e of
           None \<Rightarrow> erExitCode e \<noteq> None
         | Some _ \<Rightarrow> erExitCode e = None \<and> erStdout e = None \<and> erStderr e = None))"

lemma exec_entry_err: "id_of t = Some i \<Longrightarrow> exec_entry_for t (clusterErrResult i err)"
  by (simp add: exec_entry_for_def clusterErrResult_def)

lemma exec_entry_ok: "id_of t = Some i \<Longrightarrow> exec_entry_for t (exec_ok i r)"
  by (simp add: exec_entry_for_def exec_ok_def)

lemma keeps_or_result:
  assumes "keeps I (okQ P) p" and "\<And>err. Q (clusterErrResult i err)" and "\<And>a. P a \<Longrightarrow> keeps I Q (k a)"
  shows "keeps I Q (or_result i p k)"
  unfolding or_result_def
  by (rule keeps_bind [OF assms(1)]) (auto simp: assms(2,3) split: sum.split)

lemma genuine_or_result:
  assumes "keeps I (okQ P) p" and "\<And>a. P a \<Longrightarrow> keeps I (\<lambda>_. True) (k a)"
  shows "keeps I (\<lambda>_. True) (or_result i p k)"
  by (rule keeps_or_result [OF assms(1)]) (simp_all add: assms(2))

lemma okQ_True [simp]: "okQ (\<lambda>_. True) = (\<lambda>_. True)"
  by (auto simp: okQ_def split: sum.split)

lemma keeps_execOneTarget:
  assumes "id_of t \<noteq> None"
  shows "keeps (\<lambda>_. True) (exec_entry_for t) (execOneTarget ts command stdin readonly t)"
proof -
  obtain k ctx ns name where p: "ParseTarget t = Inr (k, ctx, ns, name)"
    using assms by (auto simp: id_of_def split: sum.splits)
  let ?i = "\<lparr>idKubeconfig = k, idContext = ctx, idNamespace = ns, idName = name\<rparr>"
  have i: "id_of t = Some ?i" by (simp add: id_of_def p)
  have any: "keeps (\<lambda>_. True) (okQ (\<lambda>_. True)) q" for q :: "(error + 'z, 'y) proc"
    by (simp add: keeps_True)
  show ?thesis
  proof (cases "map_of (Kubeconfigs (tsCfg ts)) k")
    case None
    with p show ?thesis by (simp add: execOneTarget_def exec_entry_err [OF i])
  next
    case (Some src)
    have "keeps (\<lambda>_. True) (exec_entry_for t)
       (or_result ?i (cachedKubeconfig ts src ctx ns name) (\<lambda>kc.
        or_result ?i (exec_access ts src ctx ns name readonly kc) (\<lambda>(kc, osEnv).
        or_result ?i (run_command ts kc osEnv command stdin) (\<lambda>r. Ret (exec_ok ?i r)))))"
      by (auto intro!: keeps_or_result [OF any] simp: exec_entry_err [OF i] exec_entry_ok [OF i])
    with p Some show ?thesis by (simp add: execOneTarget_def Let_def)
  qed
qed

lemma keeps_exact_target:
  assumes "exact_path t"
  shows "keeps (\<lambda>_. True) (exec_entry_for t) (execOneTarget ts command stdin readonly t)"
proof -
  have "id_of t \<noteq> None"
    using assms ParseTarget_length [of t] by (auto simp: exact_path_def id_of_def)
  then show ?thesis by (rule keeps_execOneTarget)
qed

lemma any_exec_error_ex: "any_exec_error rs = list_ex exec_failed rs"
  by (induction rs) auto

text \<open>The first computation of the tool in closed form.\<close>

definition exec_answer :: "ExecInput \<Rightarrow> (error + CallToolResult) + string list" where
  "exec_answer inp =
     (if eiCommand inp = [] then
        Inl (Inl (Errorf [Txt ''exec_in_cluster: command must be non-empty'']))
      else if eiClusters inp = [] then
        Inl (Inr (textResult (Plain [Lit ''clusters is required and must be a non-empty array of full kubeconfig/context/namespace/name paths'']) True))
      else case check_strict (eiClusters inp) of
          Inl err \<Rightarrow> Inl (Inr (textResult (Plain (Error err)) True))
        | Inr _ \<Rightarrow> Inr (first_seen (eiClusters inp)))"

lemma exec_first_Ret: "exec_first inp = Ret (exec_answer inp)"
  by (simp add: exec_first_def exec_answer_def resolve_strict split: sum.split)

lemma exec_answer_Inr:
  "exec_answer inp = Inr targets \<longleftrightarrow>
     eiCommand inp \<noteq> [] \<and> eiClusters inp \<noteq> [] \<and> list_all exact_path (eiClusters inp)
     \<and> targets = first_seen (eiClusters inp)"
proof (cases "list_all exact_path (eiClusters inp)")
  case True
  then have "find (\<lambda>p. \<not> exact_path p) (eiClusters inp) = None"
    by (auto simp: find_None_iff list_all_iff)
  with True show ?thesis by (auto simp: exec_answer_def check_strict_find)
next
  case False
  then obtain p where "find (\<lambda>p. \<not> exact_path p) (eiClusters inp) = Some p"
    by (cases "find (\<lambda>p. \<not> exact_path p) (eiClusters inp)") (auto simp: find_None_iff list_all_iff)
  with False show ?thesis by (auto simp: exec_answer_def check_strict_find)
qed

lemma exec_answer_Inl:
  assumes "exec_answer inp = Inl r"
  shows "if eiCommand inp = [] then \<exists>err. r = Inl err else \<exists>t. r = Inr (textResult (Plain t) True)"
  using assms by (auto simp: exec_answer_def split: if_splits sum.splits)

lemma run_exec_in_cluster:
  assumes "execInClusterFanOut R ts inp readonly s r s'"
  shows "if eiCommand inp = [] then \<exists>err. r = Inl err
    else if eiClusters inp = [] \<or> \<not> list_all exact_path (eiClusters inp)
      then \<exists>t. r = Inr (textResult (Plain t) True)
    else \<exists>results. r = Inr (textResult (Json (JList (map exec_json results))) (list_ex exec_failed results))
      \<and> list_all2 exec_entry_for (first_seen (eiClusters inp)) results"
proof -
  have "keeps (\<lambda>_. True) (\<lambda>x. x = exec_answer inp) (exec_first inp)" by (simp add: exec_first_Ret)
  moreover have "keeps (\<lambda>_. True) (\<lambda>e. id_of t \<noteq> None \<longrightarrow> exec_entry_for t e)
      (execOneTarget ts (eiCommand inp) (eiStdin inp) readonly t)" for t
    by (cases "id_of t = None")
      (auto simp: keeps_True intro: keeps_weaken [OF keeps_execOneTarget])
  ultimately have "Inl r = exec_answer inp \<or> (\<exists>targets results. Inr targets = exec_answer inp
      \<and> r = exec_finish results
      \<and> list_all2 (\<lambda>t e. id_of t \<noteq> None \<longrightarrow> exec_entry_for t e) targets results)"
    using fan_out_rule [OF assms [unfolded execInClusterFanOut_def], of "\<lambda>_. True"
      "\<lambda>x. x = exec_answer inp" "\<lambda>t e. id_of t \<noteq> None \<longrightarrow> exec_entry_for t e"] by auto
  then show ?thesis
  proof (elim disjE exE conjE)
    assume 1: "Inl r = exec_answer inp"
    have "\<not> (eiCommand inp \<noteq> [] \<and> eiClusters inp \<noteq> [] \<and> list_all exact_path (eiClusters inp))"
      using exec_answer_Inr [of inp "first_seen (eiClusters inp)"] 1 [symmetric] by auto
    with exec_answer_Inl [OF 1 [symmetric]] show ?thesis by auto
  next
    fix targets results
    assume 2: "Inr targets = exec_answer inp" "r = exec_finish results"
      and all: "list_all2 (\<lambda>t e. id_of t \<noteq> None \<longrightarrow> exec_entry_for t e) targets results"
    then have c: "eiCommand inp \<noteq> []" "eiClusters inp \<noteq> []" "list_all exact_path (eiClusters inp)"
      and t: "targets = first_seen (eiClusters inp)"
      using exec_answer_Inr [of inp targets] by simp_all
    have "id_of t \<noteq> None" if "t \<in> set targets" for t
      using c(3) that t ParseTarget_length [of t] by (auto simp: exact_path_def id_of_def list_all_iff)
    with all have "list_all2 exec_entry_for targets results"
      by (auto simp: list_all2_conv_all_nth)
    with 2(2) c t show ?thesis by (auto simp: exec_finish_def any_exec_error_ex)
  qed
qed

text \<open>
  The instructions of \<open>server/build.go\<close> call the entries of the configuration valid targets. They are
  not: the name of a kubeconfig alone is refused, whatever is configured.
\<close>

lemma bare_kubeconfig_refused:
  assumes "execInClusterFanOut R ts inp readonly s r s'"
    and "eiCommand inp \<noteq> []" and "eiClusters inp = [k]" and "slash \<notin> set k"
  shows "\<exists>t. r = Inr (textResult (Plain t) True)"
proof -
  have "\<not> exact_path k" using assms(4) by (simp add: exact_path_def Split_free)
  with run_exec_in_cluster [OF assms(1)] assms(2,3) show ?thesis by simp
qed





section \<open>exec_in_cluster_readonly runs with a minted kubeconfig\<close>

definition minted :: "('c, 'o, 'q, 'w) ToolServer \<Rightarrow> string \<Rightarrow> bool" where
  "minted ts kc =
     (\<exists>server ca token. token \<noteq> [] \<and> xYamlMarshal (tsExt ts) (readonly_config server ca token) = Inr kc)"

lemma mintedI:
  "token \<noteq> [] \<Longrightarrow> xYamlMarshal (tsExt ts) (readonly_config server ca token) = Inr kc \<Longrightarrow> minted ts kc"
  by (auto simp: minted_def)

lemma keeps_minted:
  "keeps (\<lambda>_. True) (okQ (minted ts))
     (CreateReadOnlyKubeconfig api parse (xYamlMarshal (tsExt ts)) core rbac kc d)"
proof -
  have any: "keeps (\<lambda>_. True) (okQ (\<lambda>_. True)) q" for q :: "(error + 'z, 'y) proc"
    by (simp add: keeps_True)
  show ?thesis
    unfolding CreateReadOnlyKubeconfig_def Let_def
    by (auto split: sum.split list.split intro: mintedI
        intro!: keeps_try [OF any] keeps_try_wrap [OF any])
qed

lemma keeps_readOnlyKubeconfig: "keeps (\<lambda>_. True) (okQ (minted ts)) (readOnlyKubeconfig ts kc)"
proof -
  have "keeps (\<lambda>_. True) (okQ (minted ts)) (on_world
      (CreateReadOnlyKubeconfig (tsRbac ts) (tsAdminClusters ts) (xYamlMarshal (tsExt ts)) core rbac kc
        (IntSeconds (kubeconfigTTL ts))))" for core rbac
    by (rule keeps_zoom [where J = "\<lambda>_. True", OF _ _ keeps_minted]) simp_all
  then show ?thesis by (simp add: readOnlyKubeconfig_def split: sum.split)
qed

lemma genuine_readOnlyKubeconfig: "keeps (genuine ts) (okQ (minted ts)) (readOnlyKubeconfig ts kc)"
proof -
  have "keeps (genuine ts) (okQ (minted ts)) (on_world
      (CreateReadOnlyKubeconfig (tsRbac ts) (tsAdminClusters ts) (xYamlMarshal (tsExt ts)) core rbac kc
        (IntSeconds (kubeconfigTTL ts))))" for core rbac
    by (rule keeps_on_world [OF keeps_minted])
  then show ?thesis by (simp add: readOnlyKubeconfig_def split: sum.split)
qed

lemma run_or_result [simp]:
  "run (or_result i p k) s =
     (case run p s of
        (Inl err, s') \<Rightarrow> (clusterErrResult i err, s')
      | (Inr a, s') \<Rightarrow> run (k a) s')"
  by (simp add: or_result_def split: prod.split sum.split)

text \<open>
  C4. When \<open>exec_in_cluster_readonly\<close> reports an exit code for a target, the command was run with a
  kubeconfig minted for it: the rendering of the minimal read-only configuration with a
  non-empty token, never the admin kubeconfig it was minted from, and with no OpenStack
  credentials in its environment. The admin kubeconfig went to minting only.
\<close>

theorem exec_readonly_is_minted:
  assumes "run (execOneTarget ts command stdin True target) s = (e, s')" and "erExitCode e = Some code"
  shows "\<exists>k ctx ns name src admin s1 ro s2 res.
     ParseTarget target = Inr (k, ctx, ns, name)
     \<and> map_of (Kubeconfigs (tsCfg ts)) k = Some src
     \<and> run (cachedKubeconfig ts src ctx ns name) s = (Inr admin, s1)
     \<and> run (readOnlyKubeconfig ts admin) s1 = (Inr ro, s2) \<and> minted ts ro
     \<and> run (run_command ts ro [] command stdin) s2 = (Inr res, s')
     \<and> code = resExitCode res"
proof -
  obtain k ctx ns name where p: "ParseTarget target = Inr (k, ctx, ns, name)"
    using assms by (auto simp: execOneTarget_def clusterErrResult_def split: sum.splits)
  obtain src where src: "map_of (Kubeconfigs (tsCfg ts)) k = Some src"
    using assms p by (auto simp: execOneTarget_def clusterErrResult_def Let_def split: option.splits)
  obtain a s1 where a: "run (cachedKubeconfig ts src ctx ns name) s = (a, s1)" by fastforce
  obtain admin where admin: "a = Inr admin"
    using assms p src a by (cases a) (auto simp: execOneTarget_def clusterErrResult_def Let_def)
  obtain b s2 where b: "run (readOnlyKubeconfig ts admin) s1 = (b, s2)" by fastforce
  obtain ro where ro: "b = Inr ro"
    using assms p src a admin b
    by (cases b) (auto simp: execOneTarget_def exec_access_def clusterErrResult_def Let_def)
  obtain c s3 where c: "run (run_command ts ro [] command stdin) s2 = (c, s3)" by fastforce
  obtain res where res: "c = Inr res"
    using assms p src a admin b ro c
    by (cases c) (auto simp: execOneTarget_def exec_access_def clusterErrResult_def Let_def)
  have "minted ts ro"
    using keeps_run [OF keeps_readOnlyKubeconfig TrueI b] ro by simp
  moreover have "code = resExitCode res" "s3 = s'"
    using assms p src a admin b ro c res
    by (auto simp: execOneTarget_def exec_access_def exec_ok_def Let_def)
  ultimately show ?thesis using p src a admin b ro c res by metis
qed

lemma run_run_command [simp]:
  "run (run_command ts kc osEnv command stdin) s =
     (case run (WithKubeconfig (tsOs ts) (tsExecFile ts) kc osEnv command stdin) (svMachine s) of
        (a, m) \<Rightarrow> (a, put_machine m s))"
  unfolding run_command_def by (rule run_zoom) (simp_all add: put_machine_def)

lemma sample_token: "TrimSpace ''tok'' = ''tok''"
  by (simp add: TrimSpace_def trim_left_id space_runes_def byte_def char_of_def)

lemma sample_readonly: "\<exists>s2. run (readOnlyKubeconfig sample_ts kc) s1 = (Inr [], s2)"
proof -
  obtain r w' where e: "run (EnsureReadOnlyRBAC (memory_api ''tok'') () ()) (get_world s1) = (r, w')"
    by fastforce
  from run_ensure_all [OF memory_api_serves this] obtain u where "r = Inr u" by (cases r) auto
  with e sample_token show ?thesis
    by (simp add: readOnlyKubeconfig_def CreateReadOnlyKubeconfig_def memory_api_def Let_def
        readonly_config_def) (simp add: sample_ext_def)
qed

lemma sample_run: "\<exists>res s2. run (run_command sample_ts kc osEnv [''ls''] []) s1 = (Inr res, s2)"
  by (simp add: run_WithKubeconfig run_writeTemp rand_read_def WriteFile_def sample_os_def
      split: prod.split)

theorem exec_readonly_is_minted_witness:
  "\<exists>e s' ro. run (execOneTarget sample_ts [''ls''] [] True ''prod/x/ns/c1'') sample_state = (e, s')
     \<and> erExitCode e \<noteq> None \<and> minted sample_ts ro"
proof -
  let ?p = "cachedKubeconfig sample_ts sample_source ''x'' ''ns'' ''c1''"
  have fetch: "run ?p sample_state = (Inr ''kc-c1'', snd (run ?p sample_state))"
    using sample_fetch by (simp add: ResolveTarget_def ParseTarget_def slash_def)
  define s1 where "s1 = snd (run ?p sample_state)"
  obtain s2 where ro: "run (readOnlyKubeconfig sample_ts ''kc-c1'') s1 = (Inr [], s2)"
    using sample_readonly by blast
  obtain res s3 where cmd: "run (run_command sample_ts [] [] [''ls''] []) s2 = (Inr res, s3)"
    using sample_run by blast
  define e where "e = exec_ok \<lparr>idKubeconfig = ''prod'', idContext = ''x'', idNamespace = ''ns'', idName = ''c1''\<rparr> res"
  have run: "run (execOneTarget sample_ts [''ls''] [] True ''prod/x/ns/c1'') sample_state = (e, s3)"
    using fetch [folded s1_def] ro cmd
    by (simp add: execOneTarget_def ParseTarget_def slash_def exec_access_def e_def Let_def
        del: run_run_command)
  have code: "erExitCode e = Some (resExitCode res)" by (simp add: e_def exec_ok_def)
  from exec_readonly_is_minted [OF run code] obtain ro where "minted sample_ts ro" by blast
  with run code show ?thesis by auto
qed

text \<open>
  C5. The same in every interleaving. Take any property of the state that fetching and minting
  kubeconfigs keep, that the rest of the process keeps, and that running the command with a
  minted kubeconfig and no credentials keeps; say, that no command has run with an admin
  kubeconfig. Then a whole call of \<open>exec_in_cluster_readonly\<close> keeps it, for any targets: there is
  no other action it could take.
\<close>

theorem exec_readonly_keeps:
  assumes "execInClusterFanOut R ts inp True s r s'" and "I s"
    and "\<And>s s'. R s s' \<Longrightarrow> I s \<Longrightarrow> I s'"
    and "\<And>k src ctx ns name. map_of (Kubeconfigs (tsCfg ts)) k = Some src \<Longrightarrow>
       keeps I (\<lambda>_. True) (cachedKubeconfig ts src ctx ns name)"
    and "\<And>kc. keeps I (\<lambda>_. True) (readOnlyKubeconfig ts kc)"
    and "\<And>ro. minted ts ro \<Longrightarrow> keeps I (\<lambda>_. True) (run_command ts ro [] (eiCommand inp) (eiStdin inp))"
  shows "I s'"
proof -
  have mint: "keeps I (okQ (minted ts)) (readOnlyKubeconfig ts kc)" for kc
    using keeps_conj [OF assms(5) keeps_readOnlyKubeconfig] by simp
  have access: "keeps I (okQ (\<lambda>(ro, env). minted ts ro \<and> env = []))
      (exec_access ts src ctx ns name True kc)" for src ctx ns name kc
    unfolding exec_access_def by (simp, rule keeps_try [OF mint]) simp
  have "keeps I (\<lambda>_. True) (execOneTarget ts (eiCommand inp) (eiStdin inp) True t)" for t
  proof -
    have "keeps I (\<lambda>_. True) (or_result i (cachedKubeconfig ts src ctx ns name) (\<lambda>kc.
        or_result i (exec_access ts src ctx ns name True kc) (\<lambda>(kc, osEnv).
        or_result i (run_command ts kc osEnv (eiCommand inp) (eiStdin inp)) (\<lambda>r. Ret (exec_ok i r)))))"
      if "map_of (Kubeconfigs (tsCfg ts)) k = Some src" for i k src ctx ns name
    proof (rule genuine_or_result [OF ok_anything [OF assms(4) [OF that]]], rule genuine_or_result [OF access], clarify)
      fix ro
      assume "minted ts ro"
      from genuine_or_result [OF ok_anything [OF assms(6) [OF this]]]
      show "keeps I (\<lambda>_. True) (or_result i (run_command ts ro [] (eiCommand inp) (eiStdin inp)) (\<lambda>r. Ret (exec_ok i r)))"
        by simp
    qed
    then show ?thesis
      by (auto simp: execOneTarget_def Let_def split: sum.split prod.split option.split)
  qed
  moreover have "keeps I (\<lambda>_. True) (exec_first inp)" by (simp add: exec_first_Ret)
  ultimately show ?thesis
    using fan_out_rule [where I = I and F = "\<lambda>_. True" and Q = "\<lambda>_ _. True",
        OF assms(1) [unfolded execInClusterFanOut_def] assms(2)] assms(3) by blast
qed

lemma genuine_run_command: "keeps (genuine ts) (\<lambda>_. True) (run_command ts kc env command stdin)"
  unfolding run_command_def by (rule keeps_zoom [OF _ _ keeps_True]) (simp_all add: genuine_def)

theorem exec_readonly_keeps_witness:
  "\<exists>r s'. execInClusterFanOut (\<lambda>_ _. False) sample_ts
       \<lparr>eiClusters = [''prod/x/ns/c1''], eiCommand = [''ls''], eiStdin = []\<rparr> True sample_state r s'
     \<and> genuine sample_ts s'"
proof -
  let ?inp = "\<lparr>eiClusters = [''prod/x/ns/c1''], eiCommand = [''ls''], eiStdin = []\<rparr>"
  obtain r s' where "fan_out_run (exec_first ?inp) (execOneTarget sample_ts [''ls''] [] True)
      exec_finish sample_state = (r, s')" by fastforce
  then have run: "execInClusterFanOut (\<lambda>_ _. False) sample_ts ?inp True sample_state r s'"
    by (simp add: execInClusterFanOut_def fan_out_run_is_schedule)
  have "genuine sample_ts sample_state" by (simp add: sample_state_def genuine_start)
  moreover have "keeps (genuine sample_ts) (\<lambda>_. True) (cachedKubeconfig sample_ts src ctx ns name)"
    if "map_of (Kubeconfigs (tsCfg sample_ts)) k = Some src" for k src ctx ns name
  proof -
    have ok: "config_ok (tsCfg sample_ts)" "names_ok (tsExt sample_ts)"
      using sample_config_ok sample_names_ok by simp_all
    show ?thesis
      by (rule keeps_weaken [OF keeps_cachedKubeconfig [OF ok config_source(3) [OF ok(1) map_of_SomeD [OF that]]]]) simp
  qed
  moreover have "keeps (genuine sample_ts) (\<lambda>_. True) (readOnlyKubeconfig sample_ts kc)" for kc
    by (rule keeps_weaken [OF genuine_readOnlyKubeconfig]) simp
  ultimately have "genuine sample_ts s'"
    using exec_readonly_keeps [OF run, of "genuine sample_ts"] genuine_run_command by blast
  with run show ?thesis by blast
qed

section \<open>get_cluster_kubeconfig\<close>

text \<open>An entry about a target: the right kubeconfig, admin or minted, or an error.\<close>

definition kubeconfig_entry_for ::
  "('c, 'o, 'q, 'w) ToolServer \<Rightarrow> bool \<Rightarrow> string \<Rightarrow> kubeconfigResult \<Rightarrow> bool" where
  "kubeconfig_entry_for ts readonly t e =
     (krCluster e = t
      \<and> (krKubeconfig e = [] \<and> (\<exists>err. krError e = Error err)
         \<or> krError e = []
           \<and> (if readonly then minted ts (krKubeconfig e)
               else plain_target t \<longrightarrow> right_kubeconfig ts t (krKubeconfig e))))"

lemma keeps_kubeconfig_worker:
  assumes "config_ok (tsCfg ts)" and "names_ok (tsExt ts)"
  shows "keeps (genuine ts) (kubeconfig_entry_for ts readonly t) (kubeconfig_worker ts readonly t)"
proof -
  have inner: "keeps (genuine ts) (kubeconfig_entry_for ts True t)
     (bind_proc (readOnlyKubeconfig ts adminKC) (\<lambda>r. case r of
         Inl err \<Rightarrow> Ret \<lparr>krCluster = t, krKubeconfig = [], krError = Error err\<rparr>
       | Inr roKC \<Rightarrow> Ret \<lparr>krCluster = t, krKubeconfig = roKC, krError = []\<rparr>))" for adminKC
    by (rule keeps_bind [OF genuine_readOnlyKubeconfig])
      (auto simp: kubeconfig_entry_for_def split: sum.split)
  show ?thesis
    unfolding kubeconfig_worker_def
  proof (rule keeps_bind [OF keeps_ResolveTarget [OF assms]])
    fix r
    assume "okQ (\<lambda>kc. plain_target t \<longrightarrow> right_kubeconfig ts t kc) r"
    then show "keeps (genuine ts) (kubeconfig_entry_for ts readonly t)
      (case r of
         Inl err \<Rightarrow> Ret \<lparr>krCluster = t, krKubeconfig = [], krError = Error err\<rparr>
       | Inr adminKC \<Rightarrow>
           if \<not> readonly then Ret \<lparr>krCluster = t, krKubeconfig = adminKC, krError = []\<rparr>
           else bind_proc (readOnlyKubeconfig ts adminKC) (\<lambda>r. case r of
                 Inl err \<Rightarrow> Ret \<lparr>krCluster = t, krKubeconfig = [], krError = Error err\<rparr>
               | Inr roKC \<Rightarrow> Ret \<lparr>krCluster = t, krKubeconfig = roKC, krError = []\<rparr>))"
      using inner by (cases r; cases readonly) (auto simp: kubeconfig_entry_for_def)
  qed
qed

definition target_source :: "('c, 'o, 'q, 'w) ToolServer \<Rightarrow> string list \<Rightarrow> string list \<Rightarrow> bool" where
  "target_source ts patterns targets =
     (distinct targets \<and> (patterns = [] \<longrightarrow> targets = [])
      \<and> list_all (\<lambda>t. t \<in> set patterns \<or> from_api ts t) targets)"

lemma keeps_kubeconfig_first:
  assumes "config_ok (tsCfg ts)"
  shows "keeps (genuine ts)
     (\<lambda>x. case x of Inl r \<Rightarrow> \<exists>t. r = textResult (Plain t) True | Inr targets \<Rightarrow> target_source ts patterns targets)
     (kubeconfig_first ts patterns)"
proof -
  have known: "keeps (genuine ts) (okQ (list_all (\<lambda>c. from_api ts (FormatTarget c)))) (allKnownClusters ts)"
    unfolding allKnownClusters_def
    by (rule keeps_try [OF keeps_allResolvedClusters [OF assms]])
      (simp add: list_all_iff api_target_from_api)
  show ?thesis
    unfolding kubeconfig_first_def resolveClusterPatterns_def
  proof (rule keeps_bind [OF keeps_resolve [OF known]])
    fix r
    assume "okQ (\<lambda>targets. distinct targets \<and> (patterns = [] \<longrightarrow> targets = [])
        \<and> (\<exists>known. (known = [] \<or> list_all (\<lambda>c. from_api ts (FormatTarget c)) known)
             \<and> set targets \<subseteq> set patterns \<union> FormatTarget ` set known)) r"
    then show "keeps (genuine ts)
       (\<lambda>x. case x of Inl r \<Rightarrow> \<exists>t. r = textResult (Plain t) True | Inr targets \<Rightarrow> target_source ts patterns targets)
       (case r of Inl err \<Rightarrow> Ret (Inl (textResult (Plain (Error err)) True)) | Inr targets \<Rightarrow> Ret (Inr targets))"
      by (cases r) (auto simp: target_source_def list_all_iff)
  qed
qed

lemma any_kubeconfig_error_ex: "any_kubeconfig_error rs = list_ex (\<lambda>r. \<not> text_empty (krError r)) rs"
  by (induction rs) auto



text \<open>
  Without patterns, or with an empty array of them, \<open>get_cluster_kubeconfig\<close> and its
  read-only variant select no cluster: the answer is an empty JSON array, in every schedule.
\<close>

theorem getClusterKubeconfig_omitted_selects_none:
  assumes "getClusterKubeconfigFanOut R ts [] readonly s r s'"
  shows "r = textResult (Json (JList [])) False"
proof -
  have "keeps (\<lambda>_. True) (\<lambda>x. x = Inr []) (kubeconfig_first ts [])"
    by (simp add: kubeconfig_first_def resolveClusterPatterns_def ResolveClusterPatterns_def)
  from fan_out_rule [OF assms [unfolded getClusterKubeconfigFanOut_def] TrueI this,
      of "\<lambda>_ _. True"] show ?thesis
    by (auto simp: keeps_True kubeconfig_finish_def)
qed

theorem getClusterKubeconfig_omitted_selects_none_witness:
  "\<exists>s'. getClusterKubeconfigFanOut (\<lambda>_ _. False) sample_ts [] False sample_state
     (textResult (Json (JList [])) False) s'"
proof -
  obtain r s' where "fan_out_run (kubeconfig_first sample_ts []) (kubeconfig_worker sample_ts False)
      kubeconfig_finish sample_state = (r, s')" by fastforce
  then have run: "getClusterKubeconfigFanOut (\<lambda>_ _. False) sample_ts [] False sample_state r s'"
    by (simp add: getClusterKubeconfigFanOut_def fan_out_run_is_schedule)
  with getClusterKubeconfig_omitted_selects_none [OF run] show ?thesis by auto
qed

section \<open>What list_clusters keeps\<close>

text \<open>
  C30. \<open>list_clusters\<close> with well-formed patterns answers, in listing order, exactly the clusters
  whose path one of the patterns is a prefix of, a full path selecting the cluster it names if
  that is listed; for names without slashes.
\<close>

theorem ListClusters_filter:
  assumes "run (allResolvedClusters ts) s = (Inr resolved, s')"
    and "inClusters \<noteq> []" and "list_all valid_pattern inClusters"
    and "list_all (\<lambda>r. slash_free (rcCluster r)) resolved"
  shows "run (ListClusters ts inClusters) s =
     (Inr (list_result (filter
        (\<lambda>r. list_ex (\<lambda>p. prefix (Split slash p) (path (rcCluster r))) inClusters) resolved)), s')"
proof -
  let ?known = "map rcCluster resolved"
  have exact: "concat (map (selected ?known) inClusters) = inClusters"
    if "\<forall>p\<in>set inClusters. exact_path p" by (rule concat_selected_exact [OF that])
  have valid: "\<forall>p\<in>set inClusters. valid_pattern p" using assms(3) by (simp add: list_all_iff)
  have matched: "run (ResolveClusterPatterns inClusters (Ret (Inr ?known)) False) s' =
      (Inr (first_seen (concat (map (selected ?known) inClusters))), s')"
    using resolve_expand [OF valid, of "Ret (Inr ?known)" s'] exact by (auto split: if_splits)
  have "FormatTarget (rcCluster r) \<in> set (first_seen (concat (map (selected ?known) inClusters)))
      \<longleftrightarrow> list_ex (\<lambda>p. prefix (Split slash p) (path (rcCluster r))) inClusters"
    if "r \<in> set resolved" for r
    using FormatTarget_selected [of "rcCluster r" ?known] that assms(4)
    by (auto simp: list_ex_iff list_all_iff)
  then have "filter (\<lambda>r. FormatTarget (rcCluster r)
        \<in> set (first_seen (concat (map (selected ?known) inClusters)))) resolved =
      filter (\<lambda>r. list_ex (\<lambda>p. prefix (Split slash p) (path (rcCluster r))) inClusters) resolved"
    by (rule filter_cong [OF refl])
  with assms(1,2) matched show ?thesis by (simp add: ListClusters_def)
qed

theorem ListClusters_filter_witness:
  "\<exists>s'. run (ListClusters sample_ts [''prod/x'']) sample_state
     = (Inr (list_result [\<lparr>rcCluster = \<lparr>cKubeconfigName = ''prod'', cContext = ''x'', cNamespace = ''ns'',
          cName = ''c1'', cCustomFields = []\<rparr>, rcSource = sample_source\<rparr>,
        \<lparr>rcCluster = \<lparr>cKubeconfigName = ''prod'', cContext = ''x'', cNamespace = ''ns'',
          cName = ''c2'', cCustomFields = []\<rparr>, rcSource = sample_source\<rparr>]), s')"
proof -
  let ?rs = "[\<lparr>rcCluster = \<lparr>cKubeconfigName = ''prod'', cContext = ''x'', cNamespace = ''ns'',
          cName = ''c1'', cCustomFields = []\<rparr>, rcSource = sample_source\<rparr>,
        \<lparr>rcCluster = \<lparr>cKubeconfigName = ''prod'', cContext = ''x'', cNamespace = ''ns'',
          cName = ''c2'', cCustomFields = []\<rparr>, rcSource = sample_source\<rparr>]"
  have "\<exists>s'. run (allResolvedClusters sample_ts) sample_state = (Inr ?rs, s')"
    by (simp add: allResolvedClusters_def sortedKubeconfigs_def lookup_source_def
        resolveContexts_def listClustersCached_def list_get_def list_set_def sample_state_def
        start_state_def store_of_config_def NewStore_def New_def Get_def ListClustersForContext_def
        cluster_of_item_def Let_def)
  then obtain s' where all: "run (allResolvedClusters sample_ts) sample_state = (Inr ?rs, s')" by blast
  have "list_all valid_pattern [''prod/x'']" by (simp add: valid_pattern_def slash_def)
  moreover have "list_all (\<lambda>r. slash_free (rcCluster r)) ?rs"
    by (simp add: slash_free_def path_def slash_def)
  ultimately show ?thesis
    using ListClusters_filter [OF all, of "[''prod/x'']"] by (simp add: slash_def path_def)
qed

section \<open>A listed target is accepted by the other tools\<close>

text \<open>
  C34. What \<open>list_clusters\<close> shows as the target of a cluster is what the other tools accept for it,
  when no part of it holds a slash: \<open>exec_in_cluster\<close> and \<open>get_cluster_kubeconfig\<close> take it as the
  one target of the call, without a lookup, and the entry of the answer names the cluster by the
  same four fields. If a part holds a slash, as the names of contexts of some providers do, the
  cluster is listed, but both tools refuse its target, and it can be resolved by no route.
\<close>

theorem listed_target_round_trip:
  fixes ts :: "('c, 'o, 'q, 'w) ToolServer"
  assumes "[] \<notin> set (path c)" and "eiCommand inp \<noteq> []" and "eiClusters inp = [FormatTarget c]"
  shows "if slash_free c
    then (exec_first inp :: (_, 'w server_state) proc) = Ret (Inr [FormatTarget c])
       \<and> kubeconfig_first ts [FormatTarget c] = Ret (Inr [FormatTarget c])
       \<and> id_of (FormatTarget c) = Some \<lparr>idKubeconfig = cKubeconfigName c, idContext = cContext c,
           idNamespace = cNamespace c, idName = cName c\<rparr>
    else (\<exists>r r' e. (exec_first inp :: (_, 'w server_state) proc) = Ret (Inl (Inr r)) \<and> ctIsError r
       \<and> kubeconfig_first ts [FormatTarget c] = Ret (Inl r') \<and> ctIsError r'
       \<and> ResolveTarget ts (FormatTarget c) = Ret (Inl e))"
proof (cases "slash_free c")
  case True
  have sp: "Split slash (FormatTarget c) = path c" by (rule Split_Format [OF True])
  have len: "length (path c) = 4" by (simp add: path_def)
  have strict: "ResolveClusterPatterns [FormatTarget c] listKnown True = Ret (Inr [FormatTarget c])"
    for listKnown :: "(error + CAPICluster list, 'w server_state) proc"
    by (simp add: ResolveClusterPatterns_def check_strict_find exact_path_def sp len
          dedupePreserveOrder_def dedup_into_first_seen first_seen_def)
  have "valid_pattern (FormatTarget c)" "exact_path (FormatTarget c)"
    using assms(1) by (simp_all add: valid_pattern_def exact_path_def sp len)
  then have "ResolveClusterPatterns [FormatTarget c] listKnown False = Ret (Inr [FormatTarget c])"
    for listKnown :: "(error + CAPICluster list, 'w server_state) proc"
    by (rule resolve_exact)
  with True strict assms show ?thesis
    by (simp add: exec_first_def kubeconfig_first_def resolveClusterPatterns_def id_of_def ParseTarget_FormatTarget)
next
  case False
  then have len: "length (Split slash (FormatTarget c)) \<noteq> 4" "\<not> length (Split slash (FormatTarget c)) \<le> 4"
    by (simp_all add: length_Split count_slashes_Format slash_free_count)
  have "\<exists>e. ResolveClusterPatterns [FormatTarget c] listKnown True = Ret (Inl e)"
    for listKnown :: "(error + CAPICluster list, 'w server_state) proc"
    using len by (auto simp: ResolveClusterPatterns_def check_strict_find exact_path_def)
  moreover obtain e1 where "ParseTargetPattern (FormatTarget c) = Inl e1"
    using len ParseTargetPattern_Inl [of "FormatTarget c"] by (auto simp: valid_pattern_def)
  then have "\<exists>e. ResolveClusterPatterns [FormatTarget c] listKnown False = Ret (Inl e)"
    for listKnown :: "(error + CAPICluster list, 'w server_state) proc"
    by (simp add: ResolveClusterPatterns_def)
  moreover have "\<exists>e. ResolveTarget ts (FormatTarget c) = Ret (Inl e)"
    using False by (simp add: ResolveTarget_def ParseTarget_FormatTarget)
  ultimately show ?thesis using False assms(2,3)
    by (simp add: exec_first_def kubeconfig_first_def resolveClusterPatterns_def textResult_def)
      (metis CallToolResult.select_convs(2) bind_proc.simps(1) sum.case(1))
qed

theorem listed_target_round_trip_witness:
  defines "c \<equiv> \<lambda>ctx. \<lparr>cKubeconfigName = ''prod'', cContext = ctx, cNamespace = ''ns'', cName = ''c1'',
      cCustomFields = []\<rparr>"
    and "inp \<equiv> \<lambda>t. \<lparr>eiClusters = [t], eiCommand = [''ls''], eiStdin = []\<rparr>"
  shows "kubeconfig_first sample_ts [FormatTarget (c ''eu'')] = Ret (Inr [FormatTarget (c ''eu'')])
     \<and> (\<exists>r. kubeconfig_first sample_ts [FormatTarget (c ''arn:aws:eks:eu:1:cluster/x'')] = Ret (Inl r) \<and> ctIsError r)"
  using listed_target_round_trip [of "c ''eu''" "inp (FormatTarget (c ''eu''))" sample_ts]
    listed_target_round_trip [of "c ''arn:aws:eks:eu:1:cluster/x''"
      "inp (FormatTarget (c ''arn:aws:eks:eu:1:cluster/x''))" sample_ts]
  by (auto simp: c_def inp_def path_def slash_free_def slash_def)

end
