(* ===== verification/Bounded.thy ===== *)
theory Bounded
  imports Tools
begin

text \<open>
  How much a call does. \<open>at_most n p\<close>: whatever happens between its actions, the computation
  \<open>p\<close> makes at most \<open>n\<close> of them. Each operation of the server has such a bound, so the work of
  a wait group is bounded by its number of targets, in every schedule.
\<close>

section \<open>Bounded computations\<close>

primrec acts_le :: "('a, 's) proc \<Rightarrow> nat \<Rightarrow> bool" where
  "acts_le (Ret a) = (\<lambda>n. True)"
| "acts_le (Atom f) = (\<lambda>n. 0 < n \<and> (\<forall>s. fst ((map_prod acts_le id \<circ> f) s) (n - 1)))"

abbreviation at_most :: "nat \<Rightarrow> ('a, 's) proc \<Rightarrow> bool" where
  "at_most n p \<equiv> acts_le p n"

named_theorems bounded \<open>bounds on the number of actions\<close>

lemma at_most_Atom: "at_most n (Atom f) \<longleftrightarrow> 0 < n \<and> (\<forall>s. at_most (n - 1) (fst (f s)))"
  by (simp add: prod.case_eq_if)

declare acts_le.simps(2) [simp del]

lemma at_most_mono: "at_most m p \<Longrightarrow> m \<le> n \<Longrightarrow> at_most n p"
proof (induction p arbitrary: m n rule: proc_induct)
  case (Ret a)
  then show ?case by simp
next
  case (Atom f)
  have "at_most (n - 1) (fst (f s))" for s
    by (rule Atom.IH [of s "m - 1"]) (use Atom.prems in \<open>auto simp: at_most_Atom\<close>)
  with Atom.prems show ?case by (auto simp: at_most_Atom)
qed

lemma at_most_bind_add:
  assumes "at_most m p" and "\<And>a. at_most n (k a)"
  shows "at_most (m + n) (bind_proc p k)"
  using assms(1)
proof (induction p arbitrary: m rule: proc_induct)
  case (Ret a)
  with assms(2) [of a] show ?case by (simp add: at_most_mono)
next
  case (Atom f)
  have "at_most (m - 1 + n) (bind_proc (fst (f s)) k)" for s
    by (rule Atom.IH) (use Atom.prems in \<open>simp add: at_most_Atom\<close>)
  with Atom.prems show ?case by (auto simp: at_most_Atom bind_Atom prod.case_eq_if)
qed

text \<open>The rules spend a budget \<open>n\<close> from the front.\<close>

lemma at_most_bind:
  assumes "at_most m p" and "m \<le> n" and "\<And>a. at_most (n - m) (k a)"
  shows "at_most n (bind_proc p k)"
  using at_most_bind_add [OF assms(1,3)] assms(2) by simp

lemma at_most_act: "at_most 1 (act f)"
  by (simp add: act_def at_most_Atom prod.case_eq_if)

lemma at_most_try:
  assumes "at_most m p" and "m \<le> n" and "\<And>a. at_most (n - m) (k a)"
  shows "at_most n (try_proc p k)"
  unfolding try_proc_def
  by (rule at_most_bind [OF assms(1,2)]) (auto simp: assms(3) split: sum.split)

lemma at_most_try_wrap:
  assumes "at_most m p" and "m \<le> n" and "\<And>a. at_most (n - m) (k a)"
  shows "at_most n (try_wrap e p k)"
  unfolding try_wrap_def
  by (rule at_most_try [OF _ assms(2,3)], rule at_most_bind [OF assms(1)]) simp_all

lemma at_most_zoom: "at_most n p \<Longrightarrow> at_most n (zoom g u p)"
proof (induction p arbitrary: n rule: proc_induct)
  case (Ret a)
  then show ?case by simp
next
  case (Atom f)
  have "at_most (n - 1) (zoom g u (fst (f s)))" for s
    by (rule Atom.IH) (use Atom.prems in \<open>simp add: at_most_Atom\<close>)
  with Atom.prems show ?case by (auto simp: at_most_Atom prod.case_eq_if)
qed

lemma at_most_or_result:
  assumes "at_most m p" and "m \<le> n" and "\<And>a. at_most (n - m) (k a)"
  shows "at_most n (or_result i p k)"
  unfolding or_result_def
  by (rule at_most_bind [OF assms(1,2)]) (auto simp: assms(3) split: sum.split)

lemmas at_most_acts = at_most_bind [OF at_most_act] at_most_try [OF at_most_act] at_most_try_wrap [OF at_most_act]
  at_most_try [OF at_most_zoom [OF at_most_act]]

section \<open>The operations\<close>

lemma at_most_FetchWorkloadKubeconfig: "at_most 1 (FetchWorkloadKubeconfig ext core ns name)"
  by (auto simp: FetchWorkloadKubeconfig_def Let_def split: option.split intro!: at_most_acts)

lemma at_most_fetchOpenStackCluster: "at_most 1 (fetchOpenStackCluster ext dyn ns name)"
  by (auto simp: fetchOpenStackCluster_def split: list.split intro!: at_most_acts)

lemma at_most_FetchAPIServerInfo: "at_most 1 (FetchAPIServerInfo ext dyn ns name)"
  by (auto simp: FetchAPIServerInfo_def Let_def split: option.split
      intro!: at_most_try [OF at_most_fetchOpenStackCluster])

lemma at_most_FetchOpenStackEnv: "at_most 2 (FetchOpenStackEnv ext dyn core ns name)"
  by (auto simp: FetchOpenStackEnv_def Let_def split: option.split sum.split
      intro!: at_most_try [OF at_most_fetchOpenStackCluster] at_most_acts)

lemma at_most_EnsureReadOnlyRBAC: "at_most 7 (EnsureReadOnlyRBAC api core rbac)"
proof -
  have a: "at_most 1 (ensure_account api core)"
    by (auto simp: ensure_account_def split: sum.split intro!: at_most_acts)
  have r: "at_most 2 (ensure_role api rbac)"
    by (auto simp: ensure_role_def split: sum.split intro!: at_most_acts)
  have b: "at_most 4 (ensure_binding api rbac)"
    by (auto simp: ensure_binding_def split: sum.split intro!: at_most_acts)
  show ?thesis
    unfolding EnsureReadOnlyRBAC_def
    by (rule at_most_try [OF a], simp, rule at_most_try [OF r]) (simp_all add: b)
qed

lemma at_most_CreateReadOnlyKubeconfig:
  "at_most 8 (CreateReadOnlyKubeconfig api parse marshal core rbac kc d)"
  by (auto simp: CreateReadOnlyKubeconfig_def Let_def split: sum.split list.split
      intro!: at_most_try [OF at_most_EnsureReadOnlyRBAC] at_most_acts)

lemma at_most_EnsureProxy: "at_most 5 (EnsureProxy os ip port host ttl)"
  by (auto simp: EnsureProxy_def ensureProcessProxy_def ensureSystemdProxy_def isUnitActive_def
      exec_command_def on_tunnels_def Let_def split: option.split sum.split
      intro!: at_most_acts at_most_bind [OF at_most_bind [OF at_most_act]])

lemma at_most_cachedKubeconfig: "at_most 10 (cachedKubeconfig ts src ctx ns name)"
proof -
  have p: "at_most 5 (ensure_proxy ts ip port host)" for ip port host
    unfolding ensure_proxy_def by (rule at_most_zoom [OF at_most_EnsureProxy])
  have t: "at_most 6 (open_tunnel ts clients host ns name)" for clients host
    by (auto simp: open_tunnel_def split: option.split
        intro!: at_most_try [OF at_most_zoom [OF at_most_FetchAPIServerInfo]] at_most_try [OF p])
  have k: "at_most 1 (on_world (FetchWorkloadKubeconfig (tsExt ts) (cliCore c) ns name))" for c
    by (rule at_most_zoom [OF at_most_FetchWorkloadKubeconfig])
  show ?thesis
    by (auto simp: cachedKubeconfig_def Let_def split: option.split
        intro!: at_most_acts at_most_try [OF p] at_most_try [OF t] at_most_try [OF k]
          at_most_try [where m = 0 and p = "Ret x" for x])
qed

lemma at_most_readOnlyKubeconfig: "at_most 8 (readOnlyKubeconfig ts kc)"
  by (auto simp: readOnlyKubeconfig_def split: sum.split
      intro!: at_most_zoom at_most_CreateReadOnlyKubeconfig)

lemma at_most_run_command: "at_most 4 (run_command ts kc env command stdin)"
  by (auto simp: run_command_def WithKubeconfig_def writeTempKubeconfig_def split: list.split
      intro!: at_most_zoom at_most_try_wrap [where m = 2] at_most_acts)

lemma at_most_exec_access: "at_most 8 (exec_access ts src ctx ns name readonly kc)"
  by (auto simp: exec_access_def intro!: at_most_try [OF at_most_readOnlyKubeconfig] at_most_acts
      at_most_try [OF at_most_zoom [OF at_most_FetchOpenStackEnv]])

text \<open>Fetching, minting and running: at most 22 actions for a target.\<close>

lemma at_most_execOneTarget: "at_most 22 (execOneTarget ts command stdin readonly target)"
  by (auto simp: execOneTarget_def Let_def split: sum.split option.split prod.split
      intro!: at_most_or_result [OF at_most_cachedKubeconfig] at_most_or_result [OF at_most_exec_access]
        at_most_or_result [OF at_most_run_command])

section \<open>The work of a wait group\<close>

text \<open>The instants at which a goroutine acts, and budgets that cover what is left.\<close>

definition acting :: "(nat \<Rightarrow> ('a, 's) proc list \<times> 's) \<Rightarrow> nat \<Rightarrow> bool" where
  "acting c n = (fst (c (Suc n)) \<noteq> fst (c n))"

definition budgets :: "nat list \<Rightarrow> ('a, 's) proc list \<Rightarrow> bool" where
  "budgets bs ps = list_all2 at_most bs ps"

lemma budget_step:
  assumes "pool_step R (ps, s) (ps', s')" and "budgets bs ps"
  shows "\<exists>bs'. budgets bs' ps' \<and> sum_list bs' + (if ps' = ps then 0 else 1) \<le> sum_list bs"
  using assms(1)
proof (cases rule: pool_stepE)
  case (goroutine i f p)
  have i: "i < length bs" "at_most (bs ! i) (Atom f)"
    using assms(2) goroutine(1,2) by (auto simp: budgets_def list_all2_conv_all_nth)
  then have b: "0 < bs ! i" "at_most (bs ! i - 1) p"
    using goroutine(3) by (auto simp: at_most_Atom) (metis fst_conv)
  have "budgets (bs[i := bs ! i - 1]) ps'"
    using assms(2) b(2) goroutine(1,4) i(1) by (auto simp: budgets_def intro: list_all2_update_cong)
  moreover have "sum_list (bs[i := bs ! i - 1]) + 1 = sum_list bs"
    using b(1) i(1) elem_le_sum_list [OF i(1)] by (simp add: sum_list_update)
  ultimately show ?thesis by (intro exI [of _ "bs[i := bs ! i - 1]"]) auto
next
  case environment
  with assms(2) show ?thesis by (intro exI [of _ bs]) simp
qed

lemma budget_run:
  assumes "\<And>n. pool_step R (c n) (c (Suc n))" and "budgets bs (fst (c 0))"
  shows "\<exists>bs'. budgets bs' (fst (c n)) \<and> sum_list bs' + card {k. k < n \<and> acting c k} \<le> sum_list bs"
proof (induction n)
  case 0
  with assms(2) show ?case by auto
next
  case (Suc n)
  then obtain bs1 where bs1: "budgets bs1 (fst (c n))"
    "sum_list bs1 + card {k. k < n \<and> acting c k} \<le> sum_list bs" by blast
  from budget_step [OF _ bs1(1), of R "snd (c n)" "fst (c (Suc n))" "snd (c (Suc n))"] assms(1) [of n]
  obtain bs2 where bs2: "budgets bs2 (fst (c (Suc n)))"
    "sum_list bs2 + (if fst (c (Suc n)) = fst (c n) then 0 else 1) \<le> sum_list bs1" by auto
  have "{k. k < Suc n \<and> acting c k} = {k. k < n \<and> acting c k} \<union> (if acting c n then {n} else {})"
    by (auto simp: less_Suc_eq)
  then have "card {k. k < Suc n \<and> acting c k}
      = card {k. k < n \<and> acting c k} + (if fst (c (Suc n)) = fst (c n) then 0 else 1)"
    by (auto simp: acting_def)
  with bs1(2) bs2 show ?case by (intro exI [of _ bs2]) auto
qed

lemma bounded_instants:
  fixes P :: "nat \<Rightarrow> bool"
  assumes "\<And>n. card {k. k < n \<and> P k} \<le> B"
  shows "finite (Collect P) \<and> card (Collect P) \<le> B"
proof (rule ccontr)
  assume no: "\<not> ?thesis"
  have "\<exists>T \<subseteq> Collect P. finite T \<and> card T = Suc B"
  proof (cases "finite (Collect P)")
    case True
    with no show ?thesis by (meson not_less_eq_eq obtain_subset_with_card_n finite_subset)
  next
    case False
    then show ?thesis using infinite_arbitrarily_large [of "Collect P" "Suc B"] by blast
  qed
  then obtain T where T: "T \<subseteq> Collect P" "finite T" "card T = Suc B" by blast
  then have "T \<subseteq> {k. k < Suc (Max T) \<and> P k}" by (auto simp: less_Suc_eq_le)
  from card_mono [OF _ this] assms [of "Suc (Max T)"] T(3) show False by simp
qed

lemma pool_work_bounded:
  assumes "\<And>n. pool_step R (c n) (c (Suc n))" and "fst (c 0) = map worker ts"
    and "\<And>t. at_most K (worker t)"
  shows "finite {n. acting c n} \<and> card {n. acting c n} \<le> K * length ts"
proof -
  have "budgets (replicate (length ts) K) (fst (c 0))"
    using assms(2,3) by (simp add: budgets_def list_all2_conv_all_nth)
  note run = budget_run [OF assms(1) this]
  have "card {k. k < n \<and> acting c k} \<le> K * length ts" for n
    using run [of n] by (auto simp: sum_list_replicate mult.commute)
  from bounded_instants [OF this] show ?thesis by blast
qed

text \<open>
  C33. The work of \<open>exec_in_cluster\<close> is bounded: whatever the rest of the process does and for
  however long, its goroutines act at most 22 times per target (look up, fetch, mint or read
  the credentials, tunnel, write, run, remove), after which all of them have returned or are
  never scheduled again. No retry, loop or answer of the API makes them do more.
\<close>

theorem execOneTarget_work_bounded:
  assumes "\<And>n. pool_step R (c n) (c (Suc n))"
    and "fst (c 0) = map (execOneTarget ts command stdin readonly) targets"
  shows "finite {n. acting c n} \<and> card {n. acting c n} \<le> 22 * length targets"
  by (rule pool_work_bounded [OF assms at_most_execOneTarget])

theorem execOneTarget_work_bounded_witness:
  "\<exists>c. c 0 = (map (execOneTarget sample_ts [''ls''] [] False) [''prod/x/ns/c1'', ''dev/x/ns/c1''], sample_state)
     \<and> finite {n. acting c n} \<and> card {n. acting c n} \<le> 44"
proof -
  let ?ps = "map (execOneTarget sample_ts [''ls''] [] False) [''prod/x/ns/c1'', ''dev/x/ns/c1'']"
  obtain rs s1 where "run_all ?ps sample_state = (rs, s1)" by fastforce
  from pool_run_all [OF this] obtain c where c: "fair_run (=) c" "c 0 = (?ps, sample_state)"
    using fair_run_exists [of "(=)" ?ps sample_state rs s1] by auto
  then have st: "pool_step (=) (c n) (c (Suc n))" for n by (simp add: fair_run_def)
  have first: "fst (c 0) = ?ps" by (simp add: c(2))
  from execOneTarget_work_bounded [OF st first] c(2) show ?thesis by (intro exI [of _ c]) simp
qed

end
