(* ===== verification/MapOrder.thy ===== *)
theory MapOrder
  imports Tools
begin

text \<open>
  Go visits a map in an order of its own choice, a new one each time. The configuration holds
  two: the kubeconfigs and the custom fields. Here two configurations are the same settings if
  they differ in the order of these two only, and every operation of the server is shown to be
  the same computation for both: the sort in \<open>sortedKubeconfigs\<close> and \<open>evalCustomFields\<close>, and the
  look-ups by key everywhere else, keep the order from being observed.
\<close>

section \<open>Maps in another order\<close>

definition same_map :: "('k \<times> 'v) list \<Rightarrow> ('k \<times> 'v) list \<Rightarrow> bool" where
  "same_map m m' = (distinct (map fst m) \<and> distinct (map fst m') \<and> set m = set m')"

definition same_settings :: "AppConfig \<Rightarrow> AppConfig \<Rightarrow> bool" where
  "same_settings cfg cfg' =
     (same_map (Kubeconfigs cfg) (Kubeconfigs cfg') \<and> same_map (CustomFields cfg) (CustomFields cfg')
      \<and> Transforms cfg = Transforms cfg' \<and> cfgSshuttleHost cfg = cfgSshuttleHost cfg'
      \<and> CacheCfg cfg = CacheCfg cfg')"

lemma same_map_of: "same_map m m' \<Longrightarrow> map_of m = map_of m'"
  by (simp add: same_map_def map_of_inject_set)

lemma same_map_Nil: "same_map m m' \<Longrightarrow> m = [] \<longleftrightarrow> m' = []"
  by (auto simp: same_map_def)

lemma same_settings_parts:
  assumes "same_settings cfg cfg'"
  shows "map_of (Kubeconfigs cfg) = map_of (Kubeconfigs cfg')" "Transforms cfg = Transforms cfg'"
    "cfgSshuttleHost cfg = cfgSshuttleHost cfg'" "CacheCfg cfg = CacheCfg cfg'"
    "same_map (CustomFields cfg) (CustomFields cfg')"
  using assms by (simp_all add: same_settings_def same_map_of)

lemma same_sorted: "same_settings cfg cfg' \<Longrightarrow> sortedKubeconfigs cfg = sortedKubeconfigs cfg'"
  by (simp add: same_settings_def same_map_def sortedKubeconfigs_deterministic [of cfg cfg'])

section \<open>The queries of a cluster list\<close>

lemma same_fields: "same_map m m' \<Longrightarrow> evalCustomFields ext items m = evalCustomFields ext items m'"
  by (simp add: evalCustomFields_def same_map_def custom_query_order [of m m'])

lemma same_clusters:
  "same_map m m' \<Longrightarrow>
   ListClustersForContext ext dyn k ctx m = ListClustersForContext ext dyn k ctx m'"
  by (simp only: ListClustersForContext_def same_map_Nil [of m m'] same_fields [of m m'])

section \<open>The operations of the server\<close>

text \<open>Every operation reads the settings through the facts of \<open>same_settings_parts\<close> only.\<close>

lemma with_settings:
  "tsCfg (ts\<lparr>tsCfg := c\<rparr>) = c" "clientsForContext (ts\<lparr>tsCfg := c\<rparr>) = clientsForContext ts"
  "tsExt (ts\<lparr>tsCfg := c\<rparr>) = tsExt ts" "tsRbac (ts\<lparr>tsCfg := c\<rparr>) = tsRbac ts"
  "tsAdminClusters (ts\<lparr>tsCfg := c\<rparr>) = tsAdminClusters ts"
  "clientsFromReadonlySource (ts\<lparr>tsCfg := c\<rparr>) = clientsFromReadonlySource ts"
  by simp_all

lemma same_listing:
  assumes "same_settings cfg cfg'"
  shows "listClustersCached (ts\<lparr>tsCfg := cfg\<rparr>) = listClustersCached (ts\<lparr>tsCfg := cfg'\<rparr>)"
proof -
  note clusters = same_clusters [OF same_settings_parts(5) [OF assms]]
  show ?thesis by (intro ext) (simp add: listClustersCached_def clusters)
qed

lemma same_list_sources:
  assumes "same_settings cfg cfg'"
  shows "list_sources (ts\<lparr>tsCfg := cfg\<rparr>) srcs = list_sources (ts\<lparr>tsCfg := cfg'\<rparr>) srcs"
proof -
  have ctxs: "list_contexts (ts\<lparr>tsCfg := cfg\<rparr>) src cs r = list_contexts (ts\<lparr>tsCfg := cfg'\<rparr>) src cs r"
    for src cs r
    by (induction cs arbitrary: r) (simp_all add: same_listing [OF assms])
  have src: "resolveContexts (ts\<lparr>tsCfg := c\<rparr>) = resolveContexts ts" for c
    by (intro ext) (simp add: resolveContexts_def)
  show ?thesis
  proof (induction srcs)
    case Nil
    show ?case by (simp add: fun_eq_iff)
  next
    case (Cons s srcs)
    then show ?case by (intro ext) (simp add: ctxs src)
  qed
qed

lemma same_resolved:
  assumes "same_settings cfg cfg'"
  shows "allResolvedClusters (ts\<lparr>tsCfg := cfg\<rparr>) = allResolvedClusters (ts\<lparr>tsCfg := cfg'\<rparr>)"
  by (simp add: allResolvedClusters_def same_sorted [OF assms] same_list_sources [OF assms])

lemma same_kubeconfig:
  assumes "same_settings cfg cfg'"
  shows "cachedKubeconfig (ts\<lparr>tsCfg := cfg\<rparr>) = cachedKubeconfig (ts\<lparr>tsCfg := cfg'\<rparr>)"
    "readOnlyKubeconfig (ts\<lparr>tsCfg := cfg\<rparr>) = readOnlyKubeconfig (ts\<lparr>tsCfg := cfg'\<rparr>)"
    "ResolveTarget (ts\<lparr>tsCfg := cfg\<rparr>) = ResolveTarget (ts\<lparr>tsCfg := cfg'\<rparr>)"
proof -
  note same = same_settings_parts [OF assms]
  have parts: "effective_host (ts\<lparr>tsCfg := cfg\<rparr>) = effective_host (ts\<lparr>tsCfg := cfg'\<rparr>)"
    "transformed (ts\<lparr>tsCfg := cfg\<rparr>) = transformed (ts\<lparr>tsCfg := cfg'\<rparr>)"
    "kubeconfigTTL (ts\<lparr>tsCfg := cfg\<rparr>) = kubeconfigTTL (ts\<lparr>tsCfg := cfg'\<rparr>)"
    by (simp_all add: fun_eq_iff effective_host_def transformed_def kubeconfigTTL_def same(2,3,4)
        split: option.split)
  have tunnel: "ensure_proxy (ts\<lparr>tsCfg := cfg\<rparr>) = ensure_proxy (ts\<lparr>tsCfg := cfg'\<rparr>)"
    by (intro ext) (simp add: ensure_proxy_def parts)
  then have open_t: "open_tunnel (ts\<lparr>tsCfg := cfg\<rparr>) = open_tunnel (ts\<lparr>tsCfg := cfg'\<rparr>)"
    by (intro ext) (simp add: open_tunnel_def)
  show kc: "cachedKubeconfig (ts\<lparr>tsCfg := cfg\<rparr>) = cachedKubeconfig (ts\<lparr>tsCfg := cfg'\<rparr>)"
    by (intro ext) (unfold cachedKubeconfig_def with_settings parts tunnel open_t, rule refl)
  show "readOnlyKubeconfig (ts\<lparr>tsCfg := cfg\<rparr>) = readOnlyKubeconfig (ts\<lparr>tsCfg := cfg'\<rparr>)"
    by (intro ext) (unfold readOnlyKubeconfig_def with_settings parts, rule refl)
  show "ResolveTarget (ts\<lparr>tsCfg := cfg\<rparr>) = ResolveTarget (ts\<lparr>tsCfg := cfg'\<rparr>)"
    by (intro ext) (unfold ResolveTarget_def with_settings kc same(1), rule refl)
qed

lemma same_exec:
  assumes "same_settings cfg cfg'"
  shows "execOneTarget (ts\<lparr>tsCfg := cfg\<rparr>) = execOneTarget (ts\<lparr>tsCfg := cfg'\<rparr>)"
proof -
  note kc = same_kubeconfig [OF assms] and src = same_settings_parts(1) [OF assms]
  have access: "exec_access (ts\<lparr>tsCfg := cfg\<rparr>) = exec_access (ts\<lparr>tsCfg := cfg'\<rparr>)"
    by (intro ext) (simp add: exec_access_def kc)
  have cmd: "run_command (ts\<lparr>tsCfg := c\<rparr>) = run_command ts" for c
    by (intro ext) (simp add: run_command_def)
  show ?thesis
    by (intro ext) (unfold execOneTarget_def with_settings src kc(1) access cmd, rule refl)
qed

lemma same_fan_outs:
  assumes "same_settings cfg cfg'"
  shows "getClusterKubeconfigFanOut R (ts\<lparr>tsCfg := cfg\<rparr>) = getClusterKubeconfigFanOut R (ts\<lparr>tsCfg := cfg'\<rparr>)"
    "execInClusterFanOut R (ts\<lparr>tsCfg := cfg\<rparr>) = execInClusterFanOut R (ts\<lparr>tsCfg := cfg'\<rparr>)"
proof -
  have "kubeconfig_first (ts\<lparr>tsCfg := cfg\<rparr>) = kubeconfig_first (ts\<lparr>tsCfg := cfg'\<rparr>)"
    by (intro ext)
      (simp add: kubeconfig_first_def resolveClusterPatterns_def allKnownClusters_def same_resolved [OF assms])
  moreover have "kubeconfig_worker (ts\<lparr>tsCfg := cfg\<rparr>) = kubeconfig_worker (ts\<lparr>tsCfg := cfg'\<rparr>)"
    by (intro ext) (unfold kubeconfig_worker_def same_kubeconfig [OF assms], rule refl)
  ultimately show "getClusterKubeconfigFanOut R (ts\<lparr>tsCfg := cfg\<rparr>)
      = getClusterKubeconfigFanOut R (ts\<lparr>tsCfg := cfg'\<rparr>)"
    by (intro ext) (simp add: getClusterKubeconfigFanOut_def)
  show "execInClusterFanOut R (ts\<lparr>tsCfg := cfg\<rparr>) = execInClusterFanOut R (ts\<lparr>tsCfg := cfg'\<rparr>)"
    by (intro ext) (simp add: execInClusterFanOut_def same_exec [OF assms])
qed

text \<open>
  C31. Nothing a client can see depends on the order Go visits the configuration's maps in: for
  two configurations that differ in it only, each of the five tools, the listing of targets and the
  resolution of a target are the same computation, with the same calls to the outside in the
  same order, the same answers and, for the tools that fan out, the same schedules.
\<close>

theorem answers_ignore_map_order:
  assumes "same_settings cfg cfg'"
  shows "ListClusters (ts\<lparr>tsCfg := cfg\<rparr>) = ListClusters (ts\<lparr>tsCfg := cfg'\<rparr>)
     \<and> GetClusterKubeconfig R (ts\<lparr>tsCfg := cfg\<rparr>) = GetClusterKubeconfig R (ts\<lparr>tsCfg := cfg'\<rparr>)
     \<and> GetClusterKubeconfigReadonly R (ts\<lparr>tsCfg := cfg\<rparr>) = GetClusterKubeconfigReadonly R (ts\<lparr>tsCfg := cfg'\<rparr>)
     \<and> ExecInCluster R (ts\<lparr>tsCfg := cfg\<rparr>) = ExecInCluster R (ts\<lparr>tsCfg := cfg'\<rparr>)
     \<and> ExecInClusterReadonly R (ts\<lparr>tsCfg := cfg\<rparr>) = ExecInClusterReadonly R (ts\<lparr>tsCfg := cfg'\<rparr>)
     \<and> ListTargets (ts\<lparr>tsCfg := cfg\<rparr>) = ListTargets (ts\<lparr>tsCfg := cfg'\<rparr>)
     \<and> ResolveTarget (ts\<lparr>tsCfg := cfg\<rparr>) = ResolveTarget (ts\<lparr>tsCfg := cfg'\<rparr>)"
  by (intro conjI ext)
    (simp_all add: ListClusters_def ListTargets_def GetClusterKubeconfig_def GetClusterKubeconfigReadonly_def
      ExecInCluster_def ExecInClusterReadonly_def same_resolved [OF assms] same_fan_outs [OF assms]
      same_kubeconfig [OF assms])

theorem answers_ignore_map_order_witness:
  defines "src \<equiv> \<lambda>n. \<lparr>srcName = n, srcPath = ''/p'', srcContexts = [''c''], srcSshuttleHost = []\<rparr>"
    and "cfg \<equiv> \<lambda>ks fs. \<lparr>Kubeconfigs = ks, Transforms = None, CustomFields = fs, cfgSshuttleHost = [],
      CacheCfg = \<lparr>ClusterListTTLSeconds = 300, KubeconfigTTLSeconds = 3600\<rparr>\<rparr>"
  shows "ListTargets (sample_ts\<lparr>tsCfg :=
      cfg [(''b'', src ''b''), (''a'', src ''a'')] [(''x'', ''.x''), (''y'', ''.y'')]\<rparr>)
    = ListTargets (sample_ts\<lparr>tsCfg :=
      cfg [(''a'', src ''a''), (''b'', src ''b'')] [(''y'', ''.y''), (''x'', ''.x'')]\<rparr>)"
proof -
  have "same_settings
      (cfg [(''b'', src ''b''), (''a'', src ''a'')] [(''x'', ''.x''), (''y'', ''.y'')])
      (cfg [(''a'', src ''a''), (''b'', src ''b'')] [(''y'', ''.y''), (''x'', ''.x'')])"
    by (auto simp: same_settings_def same_map_def cfg_def)
  from answers_ignore_map_order [OF this] show ?thesis by blast
qed

end
