(* ===== verification/Embed.thy ===== *)
theory Embed
  imports Tools
begin

text \<open>
  \<open>internal/embed\<close>: the tools of kubernetes-mcp-server, mounted with a \<open>clusters\<close> parameter.

  \<open>fanout.go\<close> turns a tool for one cluster into one that fans out; the tool's own handler is a
  parameter, as is the resolver of targets, whose contract is the locale \<open>target_resolver\<close>; the
  tool server provides it. \<open>provider.go\<close> keeps one manager per target, and \<open>mount.go\<close> registers
  the tools.

  JSON arguments are the decoded values \<open>jvalue\<close>; an object lists its members in document
  order, of which the last of a name counts.

  The lemmas: a tool that is not read-only runs against exactly the targets the call names, in
  every schedule; results are in order, each about its target; the adapter from target strings
  back to clusters loses exactly the clusters whose names hold a slash; a manager, once built,
  is never rebuilt.
\<close>

section \<open>Arguments\<close>

datatype jvalue =
    VNull
  | VBool bool
  | VNumber string
  | VString string
  | VArray "jvalue list"
  | VObject "(string \<times> jvalue) list"

text \<open>\<open>req.Params.Arguments\<close>: empty, not JSON, or a value.\<close>

datatype arguments = NoArguments | NotJson error | Arguments jvalue

record 'm CallToolRequest =
  rqName :: string
  rqMeta :: 'm
  rqArguments :: arguments

definition clustersParameterName :: string where
  "clustersParameterName = ''clusters''"

definition targetParameterName :: string where
  "targetParameterName = ''cluster''"

text \<open>\<open>json.Unmarshal\<close> into a \<open>map[string]json.RawMessage\<close> and into a \<open>[]string\<close>.\<close>

definition members :: "(string \<times> jvalue) list \<Rightarrow> (string \<times> jvalue) list" where
  "members kvs = fold (\<lambda>(k, v). AList.update k v) kvs []"

fun unmarshal_map :: "arguments \<Rightarrow> error + (string \<times> jvalue) list" where
  "unmarshal_map NoArguments = Inr []"
| "unmarshal_map (NotJson e) = Inl e"
| "unmarshal_map (Arguments VNull) = Inr []"
| "unmarshal_map (Arguments (VObject kvs)) = Inr (members kvs)"
| "unmarshal_map (Arguments _) = Inl (ExtError ''json: cannot unmarshal into Go value of type map'')"

fun unmarshal_strings :: "jvalue list \<Rightarrow> error + string list" where
  "unmarshal_strings [] = Inr []"
| "unmarshal_strings (VString s # vs) =
     (case unmarshal_strings vs of Inl e \<Rightarrow> Inl e | Inr ss \<Rightarrow> Inr (s # ss))"
| "unmarshal_strings (VNull # vs) =
     (case unmarshal_strings vs of Inl e \<Rightarrow> Inl e | Inr ss \<Rightarrow> Inr ([] # ss))"
| "unmarshal_strings (_ # vs) = Inl (ExtError ''json: cannot unmarshal into Go value of type string'')"

fun unmarshal_slice :: "jvalue \<Rightarrow> error + string list" where
  "unmarshal_slice VNull = Inr []"
| "unmarshal_slice (VArray vs) = unmarshal_strings vs"
| "unmarshal_slice _ = Inl (ExtError ''json: cannot unmarshal into Go value of type []string'')"

section \<open>Fanning out\<close>

definition errorResult :: "message \<Rightarrow> CallToolResult" where
  "errorResult msg = textResult (Plain msg) True"

text \<open>The adapter's loop over target strings.\<close>

fun parse_known :: "string list \<Rightarrow> CAPICluster list" where
  "parse_known [] = []"
| "parse_known (t # targets) =
     (case ParseTarget t of
        Inl _ \<Rightarrow> parse_known targets
      | Inr (k, ctx, ns, name) \<Rightarrow>
          \<lparr>cKubeconfigName = k, cContext = ctx, cNamespace = ns, cName = name, cCustomFields = []\<rparr>
            # parse_known targets)"

definition listKnownClusters ::
  "(error + string list, 's) proc \<Rightarrow> (error + CAPICluster list, 's) proc" where
  "listKnownClusters listTargets =
     try_proc listTargets (\<lambda>knownTargets. Ret (Inr (parse_known knownTargets)))"

record perClusterToolResult =
  pcCluster :: string
  pcText :: result_text
  pcIsError :: bool
  pcError :: message

definition no_text :: result_text where
  "no_text = Plain []"

fun firstText :: "CallToolResult \<Rightarrow> result_text" where
  "firstText r =
     (case ctContent r of
        [] \<Rightarrow> no_text
      | TextContent t # _ \<Rightarrow> t
      | OtherContent # _ \<Rightarrow> no_text)"

text \<open>The arguments of the call for one target.\<close>

definition synth_args :: "(string \<times> jvalue) list \<Rightarrow> string \<Rightarrow> (string \<times> jvalue) list" where
  "synth_args origArgs target =
     AList.update targetParameterName (VString target)
       (AList.delete clustersParameterName origArgs)"

definition callOneTarget ::
  "('m CallToolRequest \<Rightarrow> (error + CallToolResult, 's) proc) \<Rightarrow> 'm CallToolRequest
    \<Rightarrow> (string \<times> jvalue) list \<Rightarrow> string \<Rightarrow> (perClusterToolResult, 's) proc" where
  "callOneTarget handler req origArgs target =
     bind_proc (handler (req\<lparr>rqArguments := Arguments (VObject (synth_args origArgs target))\<rparr>)) (\<lambda>r.
       case r of
         Inl err \<Rightarrow> Ret \<lparr>pcCluster = target, pcText = no_text, pcIsError = False, pcError = Error err\<rparr>
       | Inr result \<Rightarrow>
           Ret \<lparr>pcCluster = target, pcText = firstText result, pcIsError = ctIsError result, pcError = []\<rparr>)"

fun text_json :: "result_text \<Rightarrow> (string \<times> json) list" where
  "text_json (Plain t) = omit_empty ''text'' t"
| "text_json (Json j) = [(''text'', JText j)]"

definition per_cluster_json :: "perClusterToolResult \<Rightarrow> json" where
  "per_cluster_json r =
     JObj ([(''cluster'', JString [Lit (pcCluster r)])] @ text_json (pcText r)
       @ (if pcIsError r then [(''is_error'', JBool True)] else []) @ omit_empty ''error'' (pcError r))"

fun any_target_error :: "perClusterToolResult list \<Rightarrow> bool" where
  "any_target_error [] = False"
| "any_target_error (r # rs) =
     (if \<not> text_empty (pcError r) \<or> pcIsError r then True else any_target_error rs)"

definition fanout_finish :: "perClusterToolResult list \<Rightarrow> error + CallToolResult" where
  "fanout_finish results =
     Inr (textResult (Json (JList (map per_cluster_json results))) (any_target_error results))"

definition orig_args :: "'m CallToolRequest \<Rightarrow> (string \<times> jvalue) list" where
  "orig_args req = (case unmarshal_map (rqArguments req) of Inl _ \<Rightarrow> [] | Inr args \<Rightarrow> args)"

text \<open>The wrapped handler up to \<open>runFanOut\<close>: an answer, or the targets to run against.\<close>

definition fanout_first ::
  "(error + string list, 's) proc \<Rightarrow> bool \<Rightarrow> 'm CallToolRequest
    \<Rightarrow> ((error + CallToolResult) + string list, 's) proc" where
  "fanout_first listTargets readOnly req =
     (case unmarshal_map (rqArguments req) of
        Inl err \<Rightarrow> Ret (Inl (Inl (Errorf [Txt ''embed: unmarshaling arguments: '', Wrp err])))
      | Inr args \<Rightarrow>
        (case map_of args clustersParameterName of
           None \<Rightarrow>
             if \<not> readOnly then Ret (Inl (Inr (errorResult [Lit ''clusters is required''])))
             else bind_proc listTargets (\<lambda>r. case r of
                 Inl err \<Rightarrow> Ret (Inl (Inl err))
               | Inr all \<Rightarrow> Ret (Inr all))
         | Some rawClusters \<Rightarrow>
           (case unmarshal_slice rawClusters of
              Inl _ \<Rightarrow> Ret (Inl (Inr (errorResult [Lit ''clusters must be an array of strings''])))
            | Inr patterns \<Rightarrow>
                if length patterns = 0 then Ret (Inr [])
                else if [] \<in> set patterns then
                  Ret (Inl (Inr (errorResult [Lit ''clusters entries must be non-empty strings''])))
                else
                  bind_proc (ResolveClusterPatterns patterns (listKnownClusters listTargets) (\<not> readOnly))
                    (\<lambda>r. case r of
                       Inl err \<Rightarrow> Ret (Inl (Inr (errorResult (Error err))))
                     | Inr targets \<Rightarrow> Ret (Inr targets)))))"

definition wrapFanOut ::
  "('s \<Rightarrow> 's \<Rightarrow> bool) \<Rightarrow> ('m CallToolRequest \<Rightarrow> (error + CallToolResult, 's) proc)
    \<Rightarrow> (error + string list, 's) proc \<Rightarrow> bool \<Rightarrow> 'm CallToolRequest
    \<Rightarrow> 's \<Rightarrow> error + CallToolResult \<Rightarrow> 's \<Rightarrow> bool" where
  "wrapFanOut R handler listTargets readOnly req =
     fan_out R (fanout_first listTargets readOnly req)
       (callOneTarget handler req (orig_args req)) fanout_finish"

section \<open>Managers\<close>

text \<open>What \<open>clientcmd\<close> and kubernetes-mcp-server build a manager from.\<close>

record ('k, 'r, 'm) manager_lib =
  mlLoad :: "string \<Rightarrow> error + 'k"
  mlClientConfig :: "'k \<Rightarrow> error + 'r"
  mlNewManager :: "'r \<Rightarrow> error + 'm"

record ('m, 's) provider_state =
  pvManagers :: "string \<rightharpoonup> 'm"
  pvServer :: 's

definition put_server :: "'s \<Rightarrow> ('m, 's) provider_state \<Rightarrow> ('m, 's) provider_state" where
  "put_server s p = p\<lparr>pvServer := s\<rparr>"

definition errUnknownTarget :: error where
  "errUnknownTarget = ExtError ''unknown target''"

definition build_manager ::
  "('k, 'r, 'm) manager_lib \<Rightarrow> string \<Rightarrow> string \<Rightarrow> error + 'm" where
  "build_manager lib target kubeconfigYAML =
     (case mlLoad lib kubeconfigYAML of
        Inl e \<Rightarrow> Inl (Errorf [Txt (''embed: parsing kubeconfig for target '' @ target @ '': ''), Wrp e])
      | Inr rawConfig \<Rightarrow>
        (case mlClientConfig lib rawConfig of
           Inl e \<Rightarrow> Inl (Errorf [Txt (''embed: building rest config for target '' @ target @ '': ''), Wrp e])
         | Inr restConfig \<Rightarrow>
           (case mlNewManager lib restConfig of
              Inl e \<Rightarrow> Inl (Errorf [Txt (''embed: building manager for target '' @ target @ '': ''), Wrp e])
            | Inr mgr \<Rightarrow> Inr mgr)))"

definition managerForTarget ::
  "('k, 'r, 'm) manager_lib \<Rightarrow> (string \<Rightarrow> (error + string, 's) proc) \<Rightarrow> string
    \<Rightarrow> (error + 'm, ('m, 's) provider_state) proc" where
  "managerForTarget lib resolve target =
     bind_proc (act (\<lambda>p. (pvManagers p target, p))) (\<lambda>cached.
       case cached of
         Some mgr \<Rightarrow> Ret (Inr mgr)
       | None \<Rightarrow>
           bind_proc (zoom pvServer put_server (resolve target)) (\<lambda>r.
             case r of
               Inl err \<Rightarrow>
                 Ret (Inl (Errorf [Wrp errUnknownTarget, Txt ('': '' @ target @ '': ''), Wrp err]))
             | Inr kubeconfigYAML \<Rightarrow>
                 try_proc (Ret (build_manager lib target kubeconfigYAML)) (\<lambda>newMgr.
                 bind_proc (act (\<lambda>p. ((), p\<lparr>pvManagers := (pvManagers p)(target \<mapsto> newMgr)\<rparr>))) (\<lambda>_.
                 Ret (Inr newMgr)))))"

text \<open>
  The rest of what \<open>capiProvider\<close> answers kubernetes-mcp-server with. \<open>derive\<close> and \<open>close\<close> are the
  library's own operations on a manager; \<open>order\<close> is the order in which the map is visited.
\<close>

definition newCapiProvider :: "'s \<Rightarrow> ('m, 's) provider_state" where
  "newCapiProvider s = \<lparr>pvManagers = Map.empty, pvServer = s\<rparr>"

definition IsMultiTarget :: bool where
  "IsMultiTarget = True"

definition GetTargets :: "(error + string list, 's) proc \<Rightarrow> (error + string list, ('m, 's) provider_state) proc" where
  "GetTargets listTargets = zoom pvServer put_server listTargets"

definition GetDefaultTarget :: string where
  "GetDefaultTarget = []"

definition GetTargetParameterName :: string where
  "GetTargetParameterName = targetParameterName"

definition IsTargetCompatibilityToolFiltersEnabled :: bool where
  "IsTargetCompatibilityToolFiltersEnabled = False"

definition AnyTargetHasGVKs :: "'g list \<Rightarrow> bool" where
  "AnyTargetHasGVKs gvks = True"

definition GetDerivedKubernetes ::
  "('k, 'r, 'm) manager_lib \<Rightarrow> ('m \<Rightarrow> (error + 'd, ('m, 's) provider_state) proc)
    \<Rightarrow> (string \<Rightarrow> (error + string, 's) proc) \<Rightarrow> string \<Rightarrow> (error + 'd, ('m, 's) provider_state) proc" where
  "GetDerivedKubernetes lib derive resolve target =
     try_proc (managerForTarget lib resolve target) derive"

primrec close_managers :: "('m \<Rightarrow> 's \<Rightarrow> 's) \<Rightarrow> 'm list \<Rightarrow> 's \<Rightarrow> 's" where
  "close_managers close [] s = s"
| "close_managers close (m # ms) s = close_managers close ms (close m s)"

definition provider_Close ::
  "('m \<Rightarrow> 's \<Rightarrow> 's) \<Rightarrow> ((string \<rightharpoonup> 'm) \<Rightarrow> 'm list) \<Rightarrow> (unit, ('m, 's) provider_state) proc" where
  "provider_Close close order =
     act (\<lambda>p. ((), put_server (close_managers close (order (pvManagers p)) (pvServer p)) p))"

definition WatchTargets :: "(unit, ('m, 's) provider_state) proc" where
  "WatchTargets = Ret ()"

section \<open>Mounting\<close>

record 't server_tool =
  toTool :: 't
  toName :: string
  toTargetList :: bool
  toClusterAware :: bool
  toReadOnlyHint :: "bool option"

text \<open>
  A tool as registered: its Go tool and, when it is wrapped, whether for reading only.
  \<open>mutate\<close> and \<open>convert\<close> are kubernetes-mcp-server's.
\<close>

fun mount_list ::
  "('t server_tool \<Rightarrow> 't server_tool) \<Rightarrow> ('t server_tool \<Rightarrow> error + 'g) \<Rightarrow> 't server_tool list
    \<Rightarrow> ('g \<times> bool option) list \<Rightarrow> (error option) \<times> ('g \<times> bool option) list" where
  "mount_list mutate convert [] mounted = (None, mounted)"
| "mount_list mutate convert (tool # tools) mounted =
     (if toTargetList tool then mount_list mutate convert tools mounted
      else
        let mutated = mutate tool in
        case convert mutated of
          Inl e \<Rightarrow> (Some (Errorf [Txt ''embed: converting tool '', Qtd (toName mutated), Txt '': '', Wrp e]), mounted)
        | Inr goTool \<Rightarrow>
            mount_list mutate convert tools (mounted @
              [(goTool, if toClusterAware mutated
                        then Some (case toReadOnlyHint mutated of None \<Rightarrow> False | Some h \<Rightarrow> h)
                        else None)]))"

definition MountTools ::
  "(error + unit) \<Rightarrow> ('t server_tool \<Rightarrow> 't server_tool) \<Rightarrow> ('t server_tool \<Rightarrow> error + 'g)
    \<Rightarrow> 't server_tool list list \<Rightarrow> (error option) \<times> ('g \<times> bool option) list" where
  "MountTools newServer mutate convert toolsets =
     (case newServer of
        Inl e \<Rightarrow> (Some (Errorf [Txt ''embed: constructing kubernetes-mcp-server handle: '', Wrp e]), [])
      | Inr _ \<Rightarrow> mount_list mutate convert (concat toolsets) [])"

section \<open>A tool that writes runs against the named targets only\<close>

definition given_patterns :: "'m CallToolRequest \<Rightarrow> string list" where
  "given_patterns req =
     (case unmarshal_map (rqArguments req) of
        Inl _ \<Rightarrow> []
      | Inr args \<Rightarrow>
        (case map_of args clustersParameterName of
           None \<Rightarrow> []
         | Some raw \<Rightarrow> (case unmarshal_slice raw of Inl _ \<Rightarrow> [] | Inr patterns \<Rightarrow> patterns)))"

text \<open>The request the tool's own handler gets for a target.\<close>

definition request_for :: "'m CallToolRequest \<Rightarrow> string \<Rightarrow> 'm CallToolRequest" where
  "request_for req t = req\<lparr>rqArguments := Arguments (VObject (synth_args (orig_args req) t))\<rparr>"

definition target_failed :: "perClusterToolResult \<Rightarrow> bool" where
  "target_failed r = (\<not> text_empty (pcError r) \<or> pcIsError r)"

lemma any_target_error_ex: "any_target_error rs = list_ex target_failed rs"
  by (induction rs) (auto simp: target_failed_def)

lemma keeps_callOneTarget:
  assumes "keeps I (\<lambda>_. True) (handler (request_for req t))"
  shows "keeps I (\<lambda>e. pcCluster e = t) (callOneTarget handler req (orig_args req) t)"
  unfolding callOneTarget_def request_for_def [symmetric]
  by (rule keeps_bind [OF assms]) (simp split: sum.split)

lemma entries_in_order:
  "list_all2 (\<lambda>t e. pcCluster e = t) targets results \<Longrightarrow> map pcCluster results = targets"
  by (auto simp: list_all2_conv_all_nth intro: nth_equalityI)

lemma fanout_first_write:
  "\<exists>x. fanout_first listTargets False req = Ret x
     \<and> (case x of
          Inl (Inl _) \<Rightarrow> True
        | Inl (Inr r) \<Rightarrow> \<exists>t. r = textResult (Plain t) True
        | Inr targets \<Rightarrow> list_all exact_path (given_patterns req) \<and> targets = first_seen (given_patterns req))"
proof (cases "unmarshal_map (rqArguments req)")
  case (Inl e)
  then show ?thesis by (simp add: fanout_first_def)
next
  case args: (Inr args)
  show ?thesis
  proof (cases "map_of args clustersParameterName")
    case None
    with args show ?thesis by (auto simp: fanout_first_def errorResult_def)
  next
    case raw: (Some raw)
    show ?thesis
    proof (cases "unmarshal_slice raw")
      case (Inl e)
      with args raw show ?thesis by (auto simp: fanout_first_def errorResult_def)
    next
      case (Inr patterns)
      with args raw have given: "given_patterns req = patterns" by (simp add: given_patterns_def)
      have exact: "list_all exact_path patterns" if "check_strict patterns = Inr u" for u
        using that by (auto simp: check_strict_find list_all_iff find_None_iff split: option.splits)
      show ?thesis
        using args raw Inr given exact
        by (auto simp: fanout_first_def errorResult_def resolve_strict first_seen_def split: sum.split)
    qed
  qed
qed


section \<open>From target strings back to clusters\<close>

text \<open>
  The adapter gets back, in order and without their custom fields, exactly those listed
  clusters whose fields hold no slash; a cluster with a slash in a field (the name of an EKS
  context, say) is dropped, and no pattern can select it.
\<close>

theorem parse_known_FormatTarget:
  "parse_known (map FormatTarget cs) = map (\<lambda>c. c\<lparr>cCustomFields := []\<rparr>) (filter slash_free cs)"
proof (induction cs)
  case (Cons c cs)
  show ?case
  proof (cases "slash_free c")
    case True
    then have "ParseTarget (FormatTarget c) = Inr (cKubeconfigName c, cContext c, cNamespace c, cName c)"
      by (simp add: ParseTarget_def Split_Format path_def)
    with True Cons show ?thesis by simp
  next
    case False
    then have "\<not> (\<exists>r. ParseTarget (FormatTarget c) = Inr r)"
      unfolding ParseTarget_slash_count slash_free_count count_slashes_Format by simp
    then obtain e where "ParseTarget (FormatTarget c) = Inl e"
      by (cases "ParseTarget (FormatTarget c)") auto
    with False Cons show ?thesis by simp
  qed
qed simp

section \<open>The resolver of targets\<close>

text \<open>
  What the mounted tools rely on: in any interleaving a resolved kubeconfig is right for its
  target, and a listed target is known.
\<close>

locale target_resolver =
  fixes resolve_target :: "string \<Rightarrow> (error + string, 's) proc"
    and list_targets :: "(error + string list, 's) proc"
    and inv :: "'s \<Rightarrow> bool"
    and right :: "string \<Rightarrow> string \<Rightarrow> bool"
    and known :: "string \<Rightarrow> bool"
  assumes resolve_keeps: "keeps inv (okQ (right t)) (resolve_target t)"
    and list_keeps: "keeps inv (okQ (list_all known)) list_targets"
begin

abbreviation built :: "('k, 'r, 'm) manager_lib \<Rightarrow> string \<Rightarrow> 'm \<Rightarrow> bool" where
  "built lib t mgr \<equiv> (\<exists>kc. right t kc \<and> build_manager lib t kc = Inr mgr)"

abbreviation provider_inv :: "('k, 'r, 'm) manager_lib \<Rightarrow> ('m, 's) provider_state \<Rightarrow> bool" where
  "provider_inv lib p \<equiv> inv (pvServer p) \<and> (\<forall>t mgr. pvManagers p t = Some mgr \<longrightarrow> built lib t mgr)"

lemma manager_keeps:
  "keeps (provider_inv lib) (okQ (built lib t)) (managerForTarget lib resolve_target t)"
  unfolding managerForTarget_def
proof (rule keeps_bind)
  show "keeps (provider_inv lib) (\<lambda>c. \<forall>mgr. c = Some mgr \<longrightarrow> built lib t mgr)
      (act (\<lambda>p. (pvManagers p t, p)))"
    by (rule keeps_act) auto
next
  fix cached
  assume hit: "\<forall>mgr. cached = Some mgr \<longrightarrow> built lib t mgr"
  have store: "keeps (provider_inv lib) (\<lambda>_. True)
      (act (\<lambda>p. ((), p\<lparr>pvManagers := (pvManagers p)(t \<mapsto> mgr)\<rparr>)))" if "built lib t mgr" for mgr
    by (rule keeps_act) (use that in auto)
  have call: "keeps (provider_inv lib) (okQ (right t)) (zoom pvServer put_server (resolve_target t))"
    by (rule keeps_zoom [OF _ _ resolve_keeps]) (simp_all add: put_server_def)
  have miss: "keeps (provider_inv lib) (okQ (built lib t))
     (bind_proc (zoom pvServer put_server (resolve_target t)) (\<lambda>r. case r of
         Inl err \<Rightarrow> Ret (Inl (Errorf [Wrp errUnknownTarget, Txt ('': '' @ t @ '': ''), Wrp err]))
       | Inr kubeconfigYAML \<Rightarrow>
           try_proc (Ret (build_manager lib t kubeconfigYAML)) (\<lambda>newMgr.
           bind_proc (act (\<lambda>p. ((), p\<lparr>pvManagers := (pvManagers p)(t \<mapsto> newMgr)\<rparr>))) (\<lambda>_. Ret (Inr newMgr)))))"
  proof (rule keeps_bind [OF call], split sum.split, intro conjI allI impI)
    fix r kc
    assume r: "okQ (right t) r" "r = Inr kc"
    have "keeps (provider_inv lib) (okQ (built lib t)) (Ret (build_manager lib t kc))"
      using r by (cases "build_manager lib t kc") auto
    then show "keeps (provider_inv lib) (okQ (built lib t))
       (try_proc (Ret (build_manager lib t kc)) (\<lambda>newMgr.
        bind_proc (act (\<lambda>p. ((), p\<lparr>pvManagers := (pvManagers p)(t \<mapsto> newMgr)\<rparr>))) (\<lambda>_. Ret (Inr newMgr))))"
      by (rule keeps_try) (auto intro!: keeps_bind [OF store])
  qed simp
  show "keeps (provider_inv lib) (okQ (built lib t))
     (case cached of
        Some mgr \<Rightarrow> Ret (Inr mgr)
      | None \<Rightarrow>
          bind_proc (zoom pvServer put_server (resolve_target t)) (\<lambda>r. case r of
            Inl err \<Rightarrow> Ret (Inl (Errorf [Wrp errUnknownTarget, Txt ('': '' @ t @ '': ''), Wrp err]))
          | Inr kubeconfigYAML \<Rightarrow>
              try_proc (Ret (build_manager lib t kubeconfigYAML)) (\<lambda>newMgr.
              bind_proc (act (\<lambda>p. ((), p\<lparr>pvManagers := (pvManagers p)(t \<mapsto> newMgr)\<rparr>))) (\<lambda>_.
              Ret (Inr newMgr)))))"
    using hit miss by (auto split: option.split)
qed

lemma known_keeps:
  "keeps inv (okQ (list_all (\<lambda>c. known (FormatTarget c)))) (listKnownClusters list_targets)"
  unfolding listKnownClusters_def
proof (rule keeps_try [OF list_keeps])
  fix targets
  assume "list_all known targets"
  then have "list_all (\<lambda>c. known (FormatTarget c)) (parse_known targets)"
  proof (induction targets)
    case (Cons t targets)
    then show ?case
      using ParseTarget_path [of t] by (auto split: sum.split simp: FormatTarget_def)
  qed simp
  then show "keeps inv (okQ (list_all (\<lambda>c. known (FormatTarget c)))) (Ret (Inr (parse_known targets)))"
    by simp
qed

lemma first_keeps:
  "keeps inv (\<lambda>x. case x of Inl _ \<Rightarrow> True
      | Inr targets \<Rightarrow> list_all (\<lambda>t. t \<in> set (given_patterns req) \<or> known t) targets)
    (fanout_first list_targets readOnly req)"
proof (cases "unmarshal_map (rqArguments req)")
  case (Inl e)
  then show ?thesis by (simp add: fanout_first_def)
next
  case args: (Inr args)
  show ?thesis
  proof (cases "map_of args clustersParameterName")
    case None
    have "keeps inv (\<lambda>x. case x of Inl _ \<Rightarrow> True
        | Inr targets \<Rightarrow> list_all (\<lambda>t. t \<in> set (given_patterns req) \<or> known t) targets)
      (bind_proc list_targets (\<lambda>r. case r of
           Inl err \<Rightarrow> Ret (Inl (Inl err) :: (error + CallToolResult) + string list)
         | Inr all \<Rightarrow> Ret (Inr all)))"
      by (rule keeps_bind [OF list_keeps]) (auto split: sum.split simp: list_all_iff)
    with args None show ?thesis by (simp add: fanout_first_def)
  next
    case raw: (Some raw)
    show ?thesis
    proof (cases "unmarshal_slice raw")
      case (Inl e)
      with args raw show ?thesis by (simp add: fanout_first_def)
    next
      case (Inr patterns)
      with args raw have given: "given_patterns req = patterns" by (simp add: given_patterns_def)
      have "keeps inv (\<lambda>x. case x of Inl _ \<Rightarrow> True
          | Inr targets \<Rightarrow> list_all (\<lambda>t. t \<in> set patterns \<or> known t) targets)
        (bind_proc (ResolveClusterPatterns patterns (listKnownClusters list_targets) (\<not> readOnly))
          (\<lambda>r. case r of
             Inl err \<Rightarrow> Ret (Inl (Inr (errorResult (Error err))) :: (error + CallToolResult) + string list)
           | Inr targets \<Rightarrow> Ret (Inr targets)))"
        by (rule keeps_bind [OF keeps_resolve [OF known_keeps]])
          (auto split: sum.split simp: list_all_iff dest!: subsetD)
      with args raw Inr given show ?thesis by (simp add: fanout_first_def)
    qed
  qed
qed

end

text \<open>The tool server provides it.\<close>

definition server_inv :: "('c, 'o, 'q, 'w) ToolServer \<Rightarrow> 'w server_state \<Rightarrow> bool" where
  "server_inv ts s = (config_ok (tsCfg ts) \<and> names_ok (tsExt ts) \<longrightarrow> genuine ts s)"

definition server_right :: "('c, 'o, 'q, 'w) ToolServer \<Rightarrow> string \<Rightarrow> string \<Rightarrow> bool" where
  "server_right ts t kc =
     (config_ok (tsCfg ts) \<and> names_ok (tsExt ts) \<and> plain_target t \<longrightarrow> right_kubeconfig ts t kc)"

definition server_known :: "('c, 'o, 'q, 'w) ToolServer \<Rightarrow> string \<Rightarrow> bool" where
  "server_known ts t = (config_ok (tsCfg ts) \<and> names_ok (tsExt ts) \<longrightarrow> from_api ts t)"

interpretation srv: target_resolver "ResolveTarget ts" "ListTargets ts" "server_inv ts"
  "server_right ts" "server_known ts" for ts
proof
  show "keeps (server_inv ts) (okQ (server_right ts t)) (ResolveTarget ts t)" for t
  proof (cases "config_ok (tsCfg ts) \<and> names_ok (tsExt ts)")
    case True
    then have "server_inv ts = genuine ts"
      and "server_right ts t = (\<lambda>kc. plain_target t \<longrightarrow> right_kubeconfig ts t kc)"
      by (auto simp: server_inv_def server_right_def)
    with True show ?thesis by (simp add: keeps_ResolveTarget)
  next
    case False
    then have "server_inv ts = (\<lambda>_. True)" and "server_right ts t = (\<lambda>_. True)"
      by (auto simp: server_inv_def server_right_def)
    then show ?thesis by (simp add: keeps_True)
  qed
  show "keeps (server_inv ts) (okQ (list_all (server_known ts))) (ListTargets ts)"
  proof (cases "config_ok (tsCfg ts) \<and> names_ok (tsExt ts)")
    case True
    then have "server_inv ts = genuine ts" and "server_known ts = from_api ts"
      by (auto simp: server_inv_def server_known_def)
    with True show ?thesis by (simp add: keeps_ListTargets)
  next
    case False
    then have "server_inv ts = (\<lambda>_. True)" and "list_all (server_known ts) = (\<lambda>_. True)"
      by (auto simp: server_inv_def server_known_def list_all_iff)
    then show ?thesis by (simp add: keeps_True)
  qed
qed

text \<open>
  Managers of mounted tools are built from the right kubeconfigs: whatever requests resolve
  managers at once, in every interleaving with the rest of the server, each returned manager
  is the one that kubernetes-mcp-server builds from the kubeconfig the API holds for exactly
  its target, and so is every manager the provider keeps.
\<close>

theorem managerForTarget_right_cluster:
  fixes ts :: "('c, 'o, 'q, 'w) ToolServer" and lib :: "('k, 'r, 'm) manager_lib"
  defines "mine \<equiv> \<lambda>t mgr. \<exists>kc. server_right ts t kc \<and> build_manager lib t kc = Inr mgr"
  assumes "server_inv ts (pvServer p)" and "\<And>t mgr. pvManagers p t = Some mgr \<Longrightarrow> mine t mgr"
    and "\<And>p p'. R p p' \<Longrightarrow> server_inv ts (pvServer p) \<Longrightarrow> server_inv ts (pvServer p')"
    and "\<And>p p'. R p p' \<Longrightarrow> pvManagers p' = pvManagers p"
    and "pool_steps R (map (managerForTarget lib (ResolveTarget ts)) targets, p) (ps, p')"
    and "outcome ps = Some answers"
  shows "list_all2 (\<lambda>t. okQ (mine t)) targets answers
     \<and> (\<forall>t mgr. pvManagers p' t = Some mgr \<longrightarrow> mine t mgr)"
proof -
  let ?I = "\<lambda>p. server_inv ts (pvServer p) \<and> (\<forall>t mgr. pvManagers p t = Some mgr \<longrightarrow> mine t mgr)"
  have all: "\<forall>i < length (map (managerForTarget lib (ResolveTarget ts)) targets).
      keeps ?I (okQ (mine (targets ! i))) (map (managerForTarget lib (ResolveTarget ts)) targets ! i)"
    using srv.manager_keeps [of ts lib] by (simp add: mine_def)
  have "?I p" using assms(2,3) by simp
  moreover have "R p p' \<Longrightarrow> ?I p \<Longrightarrow> ?I p'" for p p' using assms(4,5) by metis
  ultimately show ?thesis
    using pool_outcome [OF assms(6) _ assms(7) all] by (simp add: list_all2_conv_all_nth)
qed

text \<open>
  A manager, once returned for a target, is returned for good. Whatever has become of the
  server since (the kubeconfig expired from its cache, the secret rotated, the tunnel ended by
  its TTL), the target is not resolved again: no kubeconfig is fetched, and no tunnel extended
  or restarted.
\<close>

theorem managerForTarget_never_refreshed:
  assumes "run (managerForTarget lib resolve target) p = (Inr mgr, p')"
  shows "run (managerForTarget lib later_resolve target) (p'\<lparr>pvServer := later\<rparr>)
     = (Inr mgr, p'\<lparr>pvServer := later\<rparr>)"
proof (cases "pvManagers p target")
  case (Some m)
  with assms have "m = mgr" and "p' = p" by (simp_all add: managerForTarget_def)
  with Some show ?thesis by (simp add: managerForTarget_def)
next
  case None
  with assms have "pvManagers p' target = Some mgr"
    by (auto simp: managerForTarget_def split: prod.splits sum.splits)
  then show ?thesis by (simp add: managerForTarget_def)
qed

section \<open>Mounted tools\<close>

lemma mount_list_all:
  assumes "mount_list mutate convert tools mounted = (None, ms)"
  shows "\<exists>added. ms = mounted @ added
     \<and> list_all2 (\<lambda>tool m. convert (mutate tool) = Inr (fst m)
          \<and> snd m = (if toClusterAware (mutate tool)
                     then Some (toReadOnlyHint (mutate tool) = Some True) else None))
        (filter (\<lambda>tool. \<not> toTargetList tool) tools) added"
  using assms
proof (induction mutate convert tools mounted arbitrary: ms rule: mount_list.induct)
  case (1 mutate convert mounted)
  then show ?case by simp
next
  case (2 mutate convert tool tools mounted)
  show ?case
  proof (cases "toTargetList tool")
    case True
    with 2 show ?thesis by simp
  next
    case False
    then obtain g where g: "convert (mutate tool) = Inr g"
      using 2(3) by (auto simp: Let_def split: sum.splits)
    from 2(2) [OF False refl g] 2(3) False g obtain added where
      "ms = (mounted @ [(g, if toClusterAware (mutate tool)
          then Some (case toReadOnlyHint (mutate tool) of None \<Rightarrow> False | Some h \<Rightarrow> h) else None)]) @ added"
      "list_all2 (\<lambda>tool m. convert (mutate tool) = Inr (fst m)
          \<and> snd m = (if toClusterAware (mutate tool)
                     then Some (toReadOnlyHint (mutate tool) = Some True) else None))
        (filter (\<lambda>tool. \<not> toTargetList tool) tools) added"
      by (auto simp: Let_def)
    with False g show ?thesis
      by (intro exI [of _ "(g, if toClusterAware (mutate tool)
          then Some (case toReadOnlyHint (mutate tool) of None \<Rightarrow> False | Some h \<Rightarrow> h) else None) # added"])
        (auto split: option.split)
  qed
qed

text \<open>
  C22. When mounting succeeds, every tool but the target lists is registered, in order; every
  cluster-aware one is wrapped, and it may be used without naming clusters, or with partial
  patterns, only if it is annotated as read-only: without an annotation it counts as writing.
\<close>

theorem MountTools_wraps:
  assumes "MountTools newServer mutate convert toolsets = (None, mounted)"
  shows "list_all2 (\<lambda>tool m. convert (mutate tool) = Inr (fst m)
          \<and> snd m = (if toClusterAware (mutate tool)
                     then Some (toReadOnlyHint (mutate tool) = Some True) else None))
        (filter (\<lambda>tool. \<not> toTargetList tool) (concat toolsets)) mounted"
  using assms mount_list_all [of mutate convert "concat toolsets" "[]" mounted]
  by (auto simp: MountTools_def split: sum.splits)

theorem MountTools_wraps_witness:
  defines "tool \<equiv> \<lambda>n listing aware hint. \<lparr>toTool = n, toName = n, toTargetList = listing,
      toClusterAware = aware, toReadOnlyHint = hint\<rparr> :: string server_tool"
  shows "\<exists>m. MountTools (Inr ()) id (\<lambda>t. Inr (toTool t))
      [[tool ''targets_list'' True False None, tool ''pods_list'' False True (Some True)],
       [tool ''pods_delete'' False True None]] = (None, m) \<and> map snd m = [Some True, Some False]"
proof -
  let ?ts = "[[tool ''targets_list'' True False None, tool ''pods_list'' False True (Some True)],
       [tool ''pods_delete'' False True None]]"
  have m: "MountTools (Inr ()) id (\<lambda>t. Inr (toTool t)) ?ts =
      (None, snd (MountTools (Inr ()) id (\<lambda>t. Inr (toTool t)) ?ts))"
    by (simp add: MountTools_def tool_def)
  from MountTools_wraps [OF m] m show ?thesis
    by (intro exI [of _ "snd (MountTools (Inr ()) id (\<lambda>t. Inr (toTool t)) ?ts)"])
      (auto simp: tool_def list_all2_Cons1)
qed

section \<open>More witnesses\<close>

definition sample_handler :: "unit CallToolRequest \<Rightarrow> (error + CallToolResult, rbac_objects server_state) proc" where
  "sample_handler req = Ret (Inr (textResult (Plain [Lit ''ok'']) False))"

definition sample_request :: "unit CallToolRequest" where
  "sample_request = \<lparr>rqName = ''pods_delete'', rqMeta = (),
     rqArguments = Arguments (VObject [(''name'', VString ''p''), (''clusters'', VArray [VString ''prod/x/ns/c1''])])\<rparr>"


definition sample_lib :: "(string, string, string) manager_lib" where
  "sample_lib = \<lparr>mlLoad = Inr, mlClientConfig = Inr, mlNewManager = Inr\<rparr>"

definition sample_provider :: "(string, rbac_objects server_state) provider_state" where
  "sample_provider = \<lparr>pvManagers = Map.empty, pvServer = sample_state\<rparr>"

lemma sample_manager:
  "run (managerForTarget sample_lib (ResolveTarget sample_ts) ''prod/x/ns/c1'') sample_provider =
     (Inr ''kc-c1'', snd (run (managerForTarget sample_lib (ResolveTarget sample_ts) ''prod/x/ns/c1'') sample_provider))"
proof -
  have z: "run (zoom pvServer put_server q) p = (case run q (pvServer p) of (a, s) \<Rightarrow> (a, put_server s p))"
    for q :: "(error + string, rbac_objects server_state) proc" and p :: "(string, rbac_objects server_state) provider_state"
    by (rule run_zoom) (simp_all add: put_server_def)
  obtain s2 where "run (ResolveTarget sample_ts ''prod/x/ns/c1'') sample_state = (Inr ''kc-c1'', s2)"
    using sample_fetch by blast
  then show ?thesis
    by (simp add: managerForTarget_def z sample_provider_def build_manager_def sample_lib_def)
qed

theorem managerForTarget_never_refreshed_witness:
  "\<exists>p' :: (string, rbac_objects server_state) provider_state.
     run (managerForTarget sample_lib (\<lambda>t. Ret (Inl (ExtError ''gone''))) ''prod/x/ns/c1'') p' = (Inr ''kc-c1'', p')"
  using managerForTarget_never_refreshed [OF sample_manager, of "\<lambda>t. Ret (Inl (ExtError ''gone''))" sample_state]
  by (rule exI)

theorem managerForTarget_right_cluster_witness:
  "right_kubeconfig sample_ts ''prod/x/ns/c1'' ''kc-c1''"
proof -
  let ?p' = "snd (run (managerForTarget sample_lib (ResolveTarget sample_ts) ''prod/x/ns/c1'') sample_provider)"
  from pool_run_one [of 0 "map (managerForTarget sample_lib (ResolveTarget sample_ts)) [''prod/x/ns/c1'']"
      _ sample_provider, OF _ _ sample_manager, where R = "\<lambda>_ _. False"]
  have st: "pool_steps (\<lambda>_ _. False) (map (managerForTarget sample_lib (ResolveTarget sample_ts)) [''prod/x/ns/c1''],
      sample_provider) ([Ret (Inr ''kc-c1'')], ?p')"
    by simp
  have plain: "plain_target ''prod/x/ns/c1''"
    by (simp add: plain_target_def ParseTarget_def slash_def colon_free_def)
  have "server_inv sample_ts (pvServer sample_provider)"
    by (simp add: server_inv_def sample_provider_def sample_state_def genuine_start)
  from managerForTarget_right_cluster [OF this _ _ _ st, of "[Inr ''kc-c1'']"]
  have "\<exists>kc. server_right sample_ts ''prod/x/ns/c1'' kc
      \<and> build_manager sample_lib ''prod/x/ns/c1'' kc = Inr ''kc-c1''"
    by (simp add: sample_provider_def outcome_Some)
  then show ?thesis
    using plain sample_config_ok sample_names_ok
    by (auto simp: server_right_def build_manager_def sample_lib_def)
qed

end
