(* ===== verification/Schemas.thy ===== *)
theory Schemas
  imports Embed
begin

text \<open>
  The schema of a wrapped tool (\<open>wrapFanOut\<close> of \<open>internal/embed/fanout.go\<close>), and that it is the
  type of the wrapped handler: arguments the wrapped schema admits never fail to decode, and the
  arguments made of them for one cluster are admitted by the schema of the tool itself.

  A \<open>schema\<close> has the fields of a \<open>jsonschema.Schema\<close> that the code or the theorem reads;
  \<open>validates\<close> is what JSON Schema says of these. \<open>whole\<close> tells which numbers are integers.
\<close>

section \<open>Schemas\<close>

datatype schema = Schema
  (scType: string)
  (scItems: "schema option")
  (scDescription: string)
  (scProperties: "(string \<times> schema) list option")
  (scRequired: "string list")

definition em_dash :: string where
  "em_dash = [byte 0xE2, byte 0x80, byte 0x94]"

definition clustersParamDescription :: "bool \<Rightarrow> string" where
  "clustersParamDescription readOnly =
     (if readOnly then
        ''One or more cluster targets, each \"kubeconfig[/context[/namespace[/name]]]\" (from list_clusters' target field, or a shorter prefix to select every matching cluster). Omit entirely to run against every known cluster; an empty array runs against none.''
      else
        ''One or more cluster targets, each the full \"kubeconfig/context/namespace/name\" path (from list_clusters' target field) '' @ em_dash @ '' no partial/prefix matching for this tool. Required; an empty array runs against none.'')"

definition string_schema :: schema where
  "string_schema = Schema ''string'' None [] None []"

definition clusters_schema :: "bool \<Rightarrow> schema" where
  "clusters_schema readOnly =
     Schema ''array'' (Some string_schema) (clustersParamDescription readOnly) None []"

fun wrap_schema :: "bool \<Rightarrow> schema \<Rightarrow> schema" where
  "wrap_schema readOnly (Schema ty items d props req) =
     Schema ty items d
       (Some (AList.update clustersParameterName (clusters_schema readOnly)
          (case props of Some ps \<Rightarrow> AList.delete targetParameterName ps | None \<Rightarrow> [])))
       (if \<not> readOnly then req @ [clustersParameterName] else req)"

text \<open>A tool whose \<open>InputSchema\<close> is of another Go type, or nil, is left as it is.\<close>

definition wrap_input_schema :: "bool \<Rightarrow> schema option \<Rightarrow> schema option" where
  "wrap_input_schema readOnly = map_option (wrap_schema readOnly)"

section \<open>What a schema admits\<close>

fun has_type :: "(string \<Rightarrow> bool) \<Rightarrow> string \<Rightarrow> jvalue \<Rightarrow> bool" where
  "has_type whole ty v =
     (ty = [] \<or>
      (case v of
         VNull \<Rightarrow> ty = ''null''
       | VBool _ \<Rightarrow> ty = ''boolean''
       | VNumber n \<Rightarrow> ty = ''number'' \<or> ty = ''integer'' \<and> whole n
       | VString _ \<Rightarrow> ty = ''string''
       | VArray _ \<Rightarrow> ty = ''array''
       | VObject _ \<Rightarrow> ty = ''object''))"

fun validates :: "(string \<Rightarrow> bool) \<Rightarrow> schema \<Rightarrow> jvalue \<Rightarrow> bool" where
  "validates whole (Schema ty items d props req) v =
     (has_type whole ty v \<and>
      (case v of
         VArray vs \<Rightarrow> (case items of None \<Rightarrow> True | Some it \<Rightarrow> list_all (validates whole it) vs)
       | VObject kvs \<Rightarrow>
           list_all (\<lambda>k. map_of (members kvs) k \<noteq> None) req
           \<and> (case props of
                None \<Rightarrow> True
              | Some ps \<Rightarrow> list_all (\<lambda>(k, p).
                  case map_of (members kvs) k of None \<Rightarrow> True | Some x \<Rightarrow> validates whole p x) ps)
       | _ \<Rightarrow> True))"

section \<open>Members of objects\<close>

lemma map_of_members: "map_of (members kvs) = map_of (rev kvs)"
proof -
  have "map_of (fold (\<lambda>(k, v). AList.update k v) kvs al) = map_of al ++ map_of (rev kvs)" for al
    by (induction kvs arbitrary: al) (auto simp: update_conv' fun_eq_iff map_add_def split: option.split)
  then show ?thesis by (simp add: members_def)
qed

lemma distinct_members: "distinct (map fst (members kvs))"
proof -
  have "distinct (map fst al) \<Longrightarrow> distinct (map fst (fold (\<lambda>(k, v). AList.update k v) kvs al))" for al
    by (induction kvs arbitrary: al) (auto simp: distinct_update)
  then show ?thesis by (simp add: members_def)
qed

lemma members_distinct:
  assumes "distinct (map fst kvs)"
  shows "map_of (members kvs) = map_of kvs"
  unfolding map_of_members using assms
  by (intro map_of_inject_set [THEN iffD2]) (simp_all add: rev_map [symmetric])

lemma synth_members:
  "map_of (members (synth_args (members kvs) target)) k =
     (if k = targetParameterName then Some (VString target)
      else if k = clustersParameterName then None else map_of (members kvs) k)"
proof -
  have "distinct (map fst (synth_args (members kvs) target))"
    by (simp add: synth_args_def distinct_update distinct_delete distinct_members)
  from members_distinct [OF this] show ?thesis
    by (simp add: synth_args_def update_conv' delete_conv')
qed

section \<open>The wrapped schema is the type of the wrapped handler\<close>

lemma string_values:
  "list_all (validates whole string_schema) vs \<Longrightarrow> \<exists>ss. vs = map VString ss \<and> unmarshal_strings vs = Inr ss"
proof (induction vs)
  case Nil
  then show ?case by simp
next
  case (Cons v vs)
  then obtain ss where ss: "vs = map VString ss" "unmarshal_strings vs = Inr ss" by auto
  from Cons.prems obtain s where "v = VString s"
    by (cases v) (simp_all add: string_schema_def)
  with ss show ?case by (intro exI [of _ "s # ss"]) simp
qed

lemma clusters_values:
  assumes "validates whole (clusters_schema readOnly) v"
  shows "\<exists>ss. v = VArray (map VString ss) \<and> unmarshal_slice v = Inr ss"
  using assms string_values [of whole] by (cases v) (auto simp: clusters_schema_def)

lemma wrapped_property:
  assumes "list_all P (AList.update k x ps)"
  shows "P (k, x)"
  using assms by (induction ps) (auto split: if_splits)

lemma in_update: "(i, p) \<in> set xs \<Longrightarrow> i \<noteq> k \<Longrightarrow> (i, p) \<in> set (AList.update k x xs)"
  by (induction xs) auto

lemma other_property:
  assumes "list_all P (AList.update k x (AList.delete j ps))" and "(i, p) \<in> set ps"
    and "i \<noteq> k" and "i \<noteq> j"
  shows "P (i, p)"
proof -
  have "(i, p) \<in> set (AList.delete j ps)" using assms(2,4) by (induction ps) auto
  then have "(i, p) \<in> set (AList.update k x (AList.delete j ps))"
    using assms(3) by (rule in_update)
  with assms(1) show ?thesis by (auto simp: list_all_iff)
qed

text \<open>
  C35. The schema that a wrapped tool announces is the type of its handler. Take a tool whose own
  schema has no \<open>clusters\<close> and admits any string as its \<open>cluster\<close>. Arguments that the wrapped
  schema admits always decode: \<open>clusters\<close> is an array of strings, or is left out of a read-only
  tool. And the arguments made of them for any one cluster are admitted by the tool's own
  schema, so its handler is never called with arguments it does not expect.
\<close>

theorem wrap_schema_types:
  assumes "validates whole (wrap_schema readOnly sc) (VObject kvs)"
    and "list_all (\<lambda>(k, p). k \<noteq> clustersParameterName
         \<and> (k = targetParameterName \<longrightarrow> validates whole p (VString target)))
       (case scProperties sc of None \<Rightarrow> [] | Some ps \<Rightarrow> ps)"
    and "clustersParameterName \<notin> set (scRequired sc)"
  shows "(case map_of (members kvs) clustersParameterName of
            None \<Rightarrow> readOnly
          | Some v \<Rightarrow> \<exists>ss. v = VArray (map VString ss) \<and> unmarshal_slice v = Inr ss)
     \<and> validates whole sc (VObject (synth_args (members kvs) target))"
proof -
  obtain ty items d props req where sc: "sc = Schema ty items d props req" by (cases sc)
  define ps where "ps = (case props of None \<Rightarrow> [] | Some ps \<Rightarrow> ps)"
  let ?ok = "\<lambda>(k, p). case map_of (members kvs) k of None \<Rightarrow> True | Some x \<Rightarrow> validates whole p x"
  let ?ps = "AList.update clustersParameterName (clusters_schema readOnly) (AList.delete targetParameterName ps)"
  have "(case props of Some ps \<Rightarrow> AList.delete targetParameterName ps | None \<Rightarrow> []) = AList.delete targetParameterName ps"
    by (simp add: ps_def split: option.split)
  with assms(1) have all: "list_all ?ok ?ps" and ty: "has_type whole ty (VObject kvs)"
    and req: "list_all (\<lambda>k. map_of (members kvs) k \<noteq> None) (if \<not> readOnly then req @ [clustersParameterName] else req)"
    by (simp_all add: sc)
  have "case map_of (members kvs) clustersParameterName of
          None \<Rightarrow> readOnly
        | Some v \<Rightarrow> \<exists>ss. v = VArray (map VString ss) \<and> unmarshal_slice v = Inr ss"
    using wrapped_property [OF all] req clusters_values [of whole readOnly]
    by (auto split: option.split if_splits)
  note decodes = this
  have props: "case map_of (members (synth_args (members kvs) target)) k of None \<Rightarrow> True
      | Some x \<Rightarrow> validates whole p x" if "(k, p) \<in> set ps" for k p
  proof -
    have "k \<noteq> clustersParameterName" "k = targetParameterName \<longrightarrow> validates whole p (VString target)"
      using assms(2) that by (auto simp: sc ps_def list_all_iff)
    with other_property [OF all that] show ?thesis by (auto simp: synth_members split: option.split)
  qed
  have "list_all (\<lambda>(k, p). case map_of (members (synth_args (members kvs) target)) k of None \<Rightarrow> True
      | Some x \<Rightarrow> validates whole p x) ps"
    using props by (auto simp: list_all_iff)
  moreover have "list_all (\<lambda>k. map_of (members (synth_args (members kvs) target)) k \<noteq> None) req"
    using req assms(3) by (auto simp: sc synth_members list_all_iff split: if_splits)
  ultimately show ?thesis
    using ty decodes by (cases props) (simp_all add: sc ps_def)
qed

theorem wrap_schema_types_witness:
  defines "sc \<equiv> Schema ''object'' None [] (Some [(''cluster'', string_schema), (''namespace'', string_schema)])
      [''namespace'']"
    and "args \<equiv> [(''namespace'', VString ''kube-system''), (''clusters'', VArray [VString ''prod''])]"
  shows "validates (\<lambda>_. True) (wrap_schema False sc) (VObject args)
     \<and> \<not> validates (\<lambda>_. True) (wrap_schema False sc) (VObject [(''namespace'', VString ''kube-system'')])
     \<and> validates (\<lambda>_. True) sc (VObject (synth_args (members args) ''prod/x/ns/c1''))"
proof -
  have v: "validates (\<lambda>_. True) (wrap_schema False sc) (VObject args)"
    by (simp add: sc_def args_def string_schema_def clusters_schema_def clustersParameterName_def
        targetParameterName_def members_def)
  have "\<not> validates (\<lambda>_. True) (wrap_schema False sc) (VObject [(''namespace'', VString ''kube-system'')])"
    by (simp add: sc_def clustersParameterName_def members_def)
  moreover from wrap_schema_types [OF v, of "''prod/x/ns/c1''"]
  have "validates (\<lambda>_. True) sc (VObject (synth_args (members args) ''prod/x/ns/c1''))"
    by (simp add: sc_def string_schema_def clustersParameterName_def targetParameterName_def)
  ultimately show ?thesis using v by blast
qed

end
