(* ===== verification/Sessions.thy ===== *)
theory Sessions
  imports Embed
begin

text \<open>
  The process as a whole: \<open>BuildServer\<close> of \<open>internal/server/build.go\<close>, and every goroutine of every
  request of every session running at once over one state, with the clock, the tunnels and the
  machine moving in between.

  The other theories state what a request does for an environment \<open>R\<close>; here the environment is
  the server itself. The lemmas: each kind of goroutine keeps the invariant of the state, so
  whatever is reachable from the start of the daemon has it, and every answer is right.
\<close>

section \<open>The registered tools\<close>

text \<open>
  A handler by the type of its input: a list of cluster filters, or the targets and the command.
  Names are those given to \<open>mcp.AddTool\<close>, in its order.
\<close>

datatype 's tool_handler =
    FilterTool "string list \<Rightarrow> 's \<Rightarrow> error + CallToolResult \<Rightarrow> 's \<Rightarrow> bool"
  | CommandTool "ExecInput \<Rightarrow> 's \<Rightarrow> error + CallToolResult \<Rightarrow> 's \<Rightarrow> bool"

definition no_protocol_error ::
  "('s \<Rightarrow> CallToolResult \<Rightarrow> 's \<Rightarrow> bool) \<Rightarrow> 's \<Rightarrow> error + CallToolResult \<Rightarrow> 's \<Rightarrow> bool" where
  "no_protocol_error h s r s' = (case r of Inl _ \<Rightarrow> False | Inr result \<Rightarrow> h s result s')"

definition BuildServer ::
  "('w server_state \<Rightarrow> 'w server_state \<Rightarrow> bool) \<Rightarrow> ('c, 'o, 'q, 'w) ToolServer
    \<Rightarrow> (string \<times> 'w server_state tool_handler) list" where
  "BuildServer R ts =
     [(''list_clusters'', FilterTool (\<lambda>cs s r s'. pool_steps R ([ListClusters ts cs], s) ([Ret r], s'))),
      (''get_cluster_kubeconfig'', FilterTool (\<lambda>cs. no_protocol_error (GetClusterKubeconfig R ts cs))),
      (''get_cluster_kubeconfig_readonly'',
        FilterTool (\<lambda>cs. no_protocol_error (GetClusterKubeconfigReadonly R ts cs))),
      (''exec_in_cluster'', CommandTool (ExecInCluster R ts)),
      (''exec_in_cluster_readonly'', CommandTool (ExecInClusterReadonly R ts))]"

section \<open>Goroutines\<close>

datatype task =
    ListTask "string list"
  | TargetsTask
  | PatternsTask "string list"
  | KubeconfigTask bool string
  | ExecTask bool string "string list" string
  | ManagerTask string

datatype 'm task_answer =
    ListAnswer "error + CallToolResult"
  | TargetsAnswer "error + string list"
  | PatternsAnswer "CallToolResult + string list"
  | KubeconfigAnswer kubeconfigResult
  | ExecAnswer clusterExecResult
  | ManagerAnswer "error + 'm"

definition returns_as :: "('a \<Rightarrow> 'b) \<Rightarrow> ('a, 's) proc \<Rightarrow> ('b, 's) proc" where
  "returns_as f p = bind_proc p (\<lambda>a. Ret (f a))"

abbreviation on_server :: "('a, 's) proc \<Rightarrow> ('a, ('m, 's) provider_state) proc" where
  "on_server \<equiv> zoom pvServer put_server"

fun task_proc ::
  "('k, 'r, 'm) manager_lib \<Rightarrow> ('c, 'o, 'q, 'w) ToolServer \<Rightarrow> task
    \<Rightarrow> ('m task_answer, ('m, 'w server_state) provider_state) proc" where
  "task_proc lib ts (ListTask cs) = returns_as ListAnswer (on_server (ListClusters ts cs))"
| "task_proc lib ts TargetsTask = returns_as TargetsAnswer (on_server (ListTargets ts))"
| "task_proc lib ts (PatternsTask cs) = returns_as PatternsAnswer (on_server (kubeconfig_first ts cs))"
| "task_proc lib ts (KubeconfigTask readonly t) =
     returns_as KubeconfigAnswer (on_server (kubeconfig_worker ts readonly t))"
| "task_proc lib ts (ExecTask readonly t command stdin) =
     returns_as ExecAnswer (on_server (execOneTarget ts command stdin readonly t))"
| "task_proc lib ts (ManagerTask t) =
     returns_as ManagerAnswer (managerForTarget lib (ResolveTarget ts) t)"

section \<open>The process\<close>

text \<open>
  A goroutine starts at any time; one that has not returned does its next action; the clock
  advances; timers and exits change the tunnels (\<open>proxy_step\<close> says how); other programs change
  the machine and the clusters.
\<close>

inductive server_step ::
  "('k, 'r, 'm) manager_lib \<Rightarrow> ('c, 'o, 'q, 'w) ToolServer
    \<Rightarrow> (task \<times> ('m task_answer, ('m, 'w server_state) provider_state) proc) list
         \<times> ('m, 'w server_state) provider_state
    \<Rightarrow> (task \<times> ('m task_answer, ('m, 'w server_state) provider_state) proc) list
         \<times> ('m, 'w server_state) provider_state \<Rightarrow> bool"
  for lib ts where
  arrive: "server_step lib ts (gs, p) (gs @ [(k, task_proc lib ts k)], p)"
| action: "i < length gs \<Longrightarrow> gs ! i = (k, Atom f) \<Longrightarrow> f p = (q, p') \<Longrightarrow>
     server_step lib ts (gs, p) (gs[i := (k, q)], p')"
| tick: "0 \<le> d \<Longrightarrow>
     server_step lib ts (gs, p) (gs, put_server (pvServer p\<lparr>svNow := svNow (pvServer p) + d\<rparr>) p)"
| tunnel: "server_step lib ts (gs, p) (gs, put_server (pvServer p\<lparr>svTunnels := m\<rparr>) p)"
| machine: "server_step lib ts (gs, p) (gs, put_server (pvServer p\<lparr>svMachine := m\<rparr>) p)"

abbreviation server_steps where
  "server_steps lib ts \<equiv> (server_step lib ts)\<^sup>*\<^sup>*"

definition start_provider ::
  "('c, 'o, 'q, 'w) ToolServer \<Rightarrow> int \<Rightarrow> 'w machine \<Rightarrow> ('m, 'w server_state) provider_state" where
  "start_provider ts t m = newCapiProvider (start_state (tsCfg ts) t m)"

section \<open>What each goroutine keeps and answers\<close>

definition right_manager ::
  "('k, 'r, 'm) manager_lib \<Rightarrow> ('c, 'o, 'q, 'w) ToolServer \<Rightarrow> string \<Rightarrow> 'm \<Rightarrow> bool" where
  "right_manager lib ts t mgr =
     (\<exists>kc. (plain_target t \<longrightarrow> right_kubeconfig ts t kc) \<and> build_manager lib t kc = Inr mgr)"

fun right_answer ::
  "('k, 'r, 'm) manager_lib \<Rightarrow> ('c, 'o, 'q, 'w) ToolServer \<Rightarrow> task \<Rightarrow> 'm task_answer \<Rightarrow> bool" where
  "right_answer lib ts (ListTask cs) (ListAnswer r) =
     okQ (\<lambda>result. (\<exists>t. result = textResult (Plain t) True)
        \<or> (\<exists>rs. result = list_result rs \<and> list_all (\<lambda>r. from_api ts (FormatTarget (rcCluster r))) rs)) r"
| "right_answer lib ts TargetsTask (TargetsAnswer r) = okQ (list_all (from_api ts)) r"
| "right_answer lib ts (PatternsTask cs) (PatternsAnswer r) =
     (case r of Inl result \<Rightarrow> \<exists>t. result = textResult (Plain t) True
              | Inr targets \<Rightarrow> target_source ts cs targets)"
| "right_answer lib ts (KubeconfigTask readonly t) (KubeconfigAnswer e) = kubeconfig_entry_for ts readonly t e"
| "right_answer lib ts (ExecTask readonly t command stdin) (ExecAnswer e) =
     (exact_path t \<longrightarrow> exec_entry_for t e)"
| "right_answer lib ts (ManagerTask t) (ManagerAnswer r) = okQ (right_manager lib ts t) r"
| "right_answer lib ts _ _ = False"

definition process_inv ::
  "('k, 'r, 'm) manager_lib \<Rightarrow> ('c, 'o, 'q, 'w) ToolServer \<Rightarrow> ('m, 'w server_state) provider_state \<Rightarrow> bool" where
  "process_inv lib ts p =
     (genuine ts (pvServer p) \<and> (\<forall>t mgr. pvManagers p t = Some mgr \<longrightarrow> right_manager lib ts t mgr))"

lemma keeps_returns_as: "keeps I (\<lambda>a. Q (f a)) p \<Longrightarrow> keeps I Q (returns_as f p)"
  unfolding returns_as_def by (erule keeps_bind) simp

lemma keeps_on_server:
  "keeps (genuine ts) Q p \<Longrightarrow> keeps (process_inv lib ts) Q (on_server p)"
  by (rule keeps_zoom) (simp_all add: process_inv_def put_server_def)

lemma genuine_exec_access:
  "keeps (genuine ts) (okQ (\<lambda>_. True)) (exec_access ts src ctx ns name readonly kc)"
proof (cases readonly)
  case True
  have "keeps (genuine ts) (okQ (\<lambda>_. True)) (readOnlyKubeconfig ts kc)"
    by (rule keeps_weaken [OF genuine_readOnlyKubeconfig]) (simp add: okQ_def split: sum.split)
  then show ?thesis unfolding exec_access_def if_P [OF True] by (rule keeps_try) simp
next
  case False
  have world: "keeps (genuine ts) (okQ (\<lambda>_. True)) (on_world q)" for q
    by (rule ok_anything [OF keeps_on_world [OF keeps_True]])
  show ?thesis
    unfolding exec_access_def if_not_P [OF False]
    by (rule keeps_try [OF world], rule keeps_try [OF world]) simp
qed

lemma genuine_execOneTarget:
  assumes "config_ok (tsCfg ts)" and "names_ok (tsExt ts)"
  shows "keeps (genuine ts) (\<lambda>_. True) (execOneTarget ts command stdin readonly t)"
proof (cases "ParseTarget t")
  case (Inl e)
  then show ?thesis by (simp add: execOneTarget_def)
next
  case (Inr x)
  obtain k ctx ns name where x: "x = (k, ctx, ns, name)" by (cases x) auto
  show ?thesis
  proof (cases "map_of (Kubeconfigs (tsCfg ts)) k")
    case None
    with Inr x show ?thesis by (simp add: execOneTarget_def Let_def)
  next
    case (Some src)
    have "(srcName src, src) \<in> set (Kubeconfigs (tsCfg ts))"
      by (rule config_source(3) [OF assms(1) map_of_SomeD [OF Some]])
    note admin = keeps_cachedKubeconfig [OF assms this]
    from Inr x Some show ?thesis
      by (auto simp: execOneTarget_def Let_def intro!: genuine_or_result [OF admin]
          genuine_or_result [OF genuine_exec_access] genuine_or_result [OF ok_anything [OF genuine_run_command]])
  qed
qed

lemma keeps_ListClusters:
  assumes "config_ok (tsCfg ts)"
  shows "keeps (genuine ts) (okQ (\<lambda>result. (\<exists>t. result = textResult (Plain t) True)
      \<or> (\<exists>rs. result = list_result rs \<and> list_all (\<lambda>r. from_api ts (FormatTarget (rcCluster r))) rs)))
    (ListClusters ts cs)"
    (is "keeps _ (okQ ?Q) _")
  unfolding ListClusters_def
proof (rule keeps_try [OF keeps_allResolvedClusters [OF assms]])
  fix resolved
  assume "list_all (api_target ts) resolved"
  then have api: "list_all (\<lambda>r. from_api ts (FormatTarget (rcCluster r))) (filter P resolved)" for P
    by (auto simp: list_all_iff intro: api_target_from_api)
  have all: "?Q (list_result resolved)" using api [of "\<lambda>_. True"] by auto
  have "keeps (genuine ts) (okQ ?Q)
     (bind_proc (ResolveClusterPatterns cs (Ret (Inr (map rcCluster resolved))) False) (\<lambda>r. case r of
        Inl err \<Rightarrow> Ret (Inr (textResult (Plain (Error err)) True))
      | Inr matched \<Rightarrow> Ret (Inr (list_result (filter (\<lambda>r. FormatTarget (rcCluster r) \<in> set matched) resolved)))))"
  proof (rule keeps_bind [OF keeps_resolve [where K = "\<lambda>_. True"]])
    show "keeps (genuine ts) (okQ (\<lambda>_. True)) (Ret (Inr (map rcCluster resolved)))"
      by simp
    show "keeps (genuine ts) (okQ ?Q) (case r of
        Inl err \<Rightarrow> Ret (Inr (textResult (Plain (Error err)) True))
      | Inr matched \<Rightarrow> Ret (Inr (list_result (filter (\<lambda>r. FormatTarget (rcCluster r) \<in> set matched) resolved))))" for r
      using api by (cases r) auto
  qed
  with all show "keeps (genuine ts) (okQ ?Q)
     (if length cs > 0 then
        bind_proc (ResolveClusterPatterns cs (Ret (Inr (map rcCluster resolved))) False) (\<lambda>r. case r of
          Inl err \<Rightarrow> Ret (Inr (textResult (Plain (Error err)) True))
        | Inr matched \<Rightarrow> Ret (Inr (list_result (filter (\<lambda>r. FormatTarget (rcCluster r) \<in> set matched) resolved))))
      else Ret (Inr (list_result resolved)))"
    by simp
qed

lemma right_manager_built:
  assumes "config_ok (tsCfg ts)" and "names_ok (tsExt ts)"
  shows "right_manager lib ts t mgr \<longleftrightarrow> (\<exists>kc. server_right ts t kc \<and> build_manager lib t kc = Inr mgr)"
  using assms by (auto simp: right_manager_def server_right_def)

lemma keeps_task:
  assumes "config_ok (tsCfg ts)" and "names_ok (tsExt ts)"
  shows "keeps (process_inv lib ts) (right_answer lib ts k) (task_proc lib ts k)"
proof (cases k)
  case (ListTask cs)
  then show ?thesis
    using keeps_ListClusters [OF assms(1)] by (auto intro!: keeps_returns_as keeps_on_server)
next
  case TargetsTask
  then show ?thesis
    using keeps_ListTargets [OF assms(1)] by (auto intro!: keeps_returns_as keeps_on_server)
next
  case (PatternsTask cs)
  then show ?thesis
    using keeps_kubeconfig_first [OF assms(1)] by (auto intro!: keeps_returns_as keeps_on_server)
next
  case (KubeconfigTask readonly t)
  then show ?thesis
    using keeps_kubeconfig_worker [OF assms] by (auto intro!: keeps_returns_as keeps_on_server)
next
  case (ExecTask readonly t command stdin)
  have "keeps (\<lambda>_. True) (\<lambda>e. exact_path t \<longrightarrow> exec_entry_for t e) (execOneTarget ts command stdin readonly t)"
    by (cases "exact_path t") (auto simp: keeps_True intro: keeps_weaken [OF keeps_exact_target])
  from keeps_conj [OF genuine_execOneTarget [OF assms] this] ExecTask show ?thesis
    by (auto intro!: keeps_returns_as keeps_on_server)
next
  case (ManagerTask t)
  have inv: "process_inv lib ts = (\<lambda>p. server_inv ts (pvServer p)
      \<and> (\<forall>t mgr. pvManagers p t = Some mgr \<longrightarrow> (\<exists>kc. server_right ts t kc \<and> build_manager lib t kc = Inr mgr)))"
    using assms by (auto simp: process_inv_def server_inv_def right_manager_built [OF assms] fun_eq_iff)
  have "right_manager lib ts t = (\<lambda>mgr. \<exists>kc. server_right ts t kc \<and> build_manager lib t kc = Inr mgr)"
    by (auto simp: right_manager_built [OF assms] fun_eq_iff)
  then have "keeps (process_inv lib ts) (okQ (right_manager lib ts t)) (managerForTarget lib (ResolveTarget ts) t)"
    unfolding inv by (simp only:) (rule srv.manager_keeps)
  with ManagerTask show ?thesis by (auto intro!: keeps_returns_as)
qed

text \<open>One step keeps the invariant, and what is left of every goroutine still answers rightly.\<close>

lemma server_step_keeps:
  assumes "config_ok (tsCfg ts)" and "names_ok (tsExt ts)" and "server_step lib ts c c'"
    and "process_inv lib ts (snd c) \<and> (\<forall>(k, q) \<in> set (fst c). keeps (process_inv lib ts) (right_answer lib ts k) q)"
  shows "process_inv lib ts (snd c') \<and> (\<forall>(k, q) \<in> set (fst c'). keeps (process_inv lib ts) (right_answer lib ts k) q)"
  using assms(3,4)
proof cases
  case (action i gs k f p q p')
  then have "(k, Atom f) \<in> set gs" by (metis nth_mem)
  with action assms(4) have "keeps (process_inv lib ts) (right_answer lib ts k) (Atom f)" by auto
  with action assms(4) have "keeps (process_inv lib ts) (right_answer lib ts k) q \<and> process_inv lib ts p'"
    by (auto simp: keeps_Atom)
  with action assms(4) show ?thesis by (auto dest!: set_update_subset_insert [THEN subsetD])
qed (use assms keeps_task [OF assms(1,2)] in
    \<open>auto simp: process_inv_def put_server_def genuine_def\<close>)


text \<open>A goroutine that runs alone from start to end is one of the schedules.\<close>

lemma server_run_one:
  "i < length gs \<Longrightarrow> gs ! i = (k, q) \<Longrightarrow> run q p = (a, p') \<Longrightarrow>
   server_steps lib ts (gs, p) (gs[i := (k, Ret a)], p')"
proof (induction q arbitrary: gs p rule: proc_induct)
  case (Ret x)
  then have "gs[i := (k, Ret a)] = gs" by (metis list_update_id prod.inject run.simps(1))
  with Ret show ?case by simp
next
  case (Atom f)
  obtain q p1 where fp: "f p = (q, p1)" by (cases "f p")
  have step: "server_step lib ts (gs, p) (gs[i := (k, q)], p1)"
    using Atom.prems fp by (blast intro: server_step.action)
  have "server_steps lib ts (gs[i := (k, q)], p1) ((gs[i := (k, q)])[i := (k, Ret a)], p')"
    using Atom.IH [of "gs[i := (k, fst (f p))]" p "snd (f p)"] Atom.prems fp by (simp add: run_Atom)
  with step show ?case by (simp add: converse_rtranclp_into_rtranclp)
qed

lemma server_request:
  assumes "run (task_proc lib ts k) p = (a, p')"
  shows "server_steps lib ts (gs, p) (gs @ [(k, Ret a)], p')"
proof -
  have "server_step lib ts (gs, p) (gs @ [(k, task_proc lib ts k)], p)" by (rule server_step.arrive)
  moreover have "server_steps lib ts (gs @ [(k, task_proc lib ts k)], p)
      ((gs @ [(k, task_proc lib ts k)])[length gs := (k, Ret a)], p')"
    by (rule server_run_one [OF _ _ assms]) simp_all
  ultimately show ?thesis by (simp add: list_update_append converse_rtranclp_into_rtranclp)
qed


end
