(* ===== verification/Http.thy ===== *)
theory Http
  imports Embed
begin

text \<open>
  \<open>internal/httpserver\<close> and \<open>cmd/capi-shell-mcp/main.go\<close>: the port of the daemon, the check of
  the \<open>Host\<close> header in front of the MCP handler, the notifications to systemd, and the life of
  the daemon from its configuration to the clean-up of the tunnels it started.

  The handler of the MCP library, the listener, the replies of the router to other paths and
  what happens while the daemon waits for a signal are parameters.

  The lemmas: which ports can be configured and how; which requests reach the handler; what is
  reported to systemd; and that the tunnels are terminated whichever way \<open>run\<close> returns.
\<close>

section \<open>\<open>strconv.Atoi\<close> and the port\<close>

definition digit_value :: "char \<Rightarrow> nat option" where
  "digit_value c = (if 48 \<le> (of_char c :: nat) \<and> of_char c \<le> (57 :: nat) then Some (of_char c - 48) else None)"

text \<open>The loop of \<open>strconv.ParseUint\<close> in base ten: \<open>False\<close> is a syntax error, \<open>True\<close> an overflow.\<close>

fun parse_digits :: "nat \<Rightarrow> string \<Rightarrow> bool + nat" where
  "parse_digits n [] = Inr n"
| "parse_digits n (c # s) =
     (case digit_value c of
        None \<Rightarrow> Inl False
      | Some d \<Rightarrow> if 10 * n + d \<ge> 2 ^ 64 then Inl True else parse_digits (10 * n + d) s)"

definition num_error :: "string \<Rightarrow> bool \<Rightarrow> error" where
  "num_error s overflow =
     Errorf [Txt ''strconv.Atoi: parsing '', Qtd s,
       Txt (if overflow then '': value out of range'' else '': invalid syntax'')]"

definition atoi_signed :: "string \<Rightarrow> bool \<Rightarrow> string \<Rightarrow> error + int" where
  "atoi_signed whole neg s =
     (if s = [] then Inl (num_error whole False)
      else case parse_digits 0 s of
        Inl overflow \<Rightarrow> Inl (num_error whole overflow)
      | Inr n \<Rightarrow>
          if neg then if n > 2 ^ 63 then Inl (num_error whole True) else Inr (- int n)
          else if n \<ge> 2 ^ 63 then Inl (num_error whole True) else Inr (int n))"

definition Atoi :: "string \<Rightarrow> error + int" where
  "Atoi s =
     (case s of
        [] \<Rightarrow> Inl (num_error s False)
      | c # t \<Rightarrow>
          if c = CHR ''-'' then atoi_signed s True t
          else if c = CHR ''+'' then atoi_signed s False t
          else atoi_signed s False s)"

definition defaultPort :: int where
  "defaultPort = 4737"

definition daemon_port :: "(string \<Rightarrow> string) \<Rightarrow> error + int" where
  "daemon_port getenv =
     (let p = getenv ''CAPI_SHELL_MCP_PORT'' in
      if p = [] then Inr defaultPort
      else case Atoi p of
        Inl e \<Rightarrow> Inl (Errorf [Txt ''invalid CAPI_SHELL_MCP_PORT '', Qtd p, Txt '': '', Wrp e])
      | Inr parsed \<Rightarrow> Inr parsed)"

lemma digit_value_digit [simp]: "n < 10 \<Longrightarrow> digit_value (digit n) = Some n"
proof -
  assume "n < 10"
  then have "n \<in> {0, 1, 2, 3, 4, 5, 6, 7, 8, 9}" by auto
  then show ?thesis by (auto simp: digit_value_def digit_def)
qed

lemma digit_not_sign: "n < 10 \<Longrightarrow> digit n \<noteq> CHR ''-'' \<and> digit n \<noteq> CHR ''+''"
proof -
  assume "n < 10"
  then have "n \<in> {0, 1, 2, 3, 4, 5, 6, 7, 8, 9}" by auto
  then show ?thesis by (auto simp: digit_def)
qed

lemma parse_digits_append:
  "parse_digits m s = Inr k \<Longrightarrow> parse_digits m (s @ t) = parse_digits k t"
  by (induction s arbitrary: m) (auto split: option.splits if_splits)

lemma parse_nat_digits: "n < 2 ^ 64 \<Longrightarrow> parse_digits 0 (nat_digits n) = Inr n"
proof (induction n rule: nat_digits.induct)
  case (1 n)
  show ?case
  proof (cases "n < 10")
    case True
    with 1 show ?thesis by (simp add: nat_digits.simps [of n])
  next
    case False
    with 1 have "parse_digits 0 (nat_digits (n div 10)) = Inr (n div 10)" by auto
    from parse_digits_append [OF this] False 1(2) show ?thesis
      by (simp add: nat_digits.simps [of n])
  qed
qed

lemma nat_digits_head:
  "\<exists>c s. nat_digits n = c # s \<and> c \<noteq> CHR ''-'' \<and> c \<noteq> CHR ''+''"
proof (induction n rule: nat_digits.induct)
  case (1 n)
  show ?case
  proof (cases "n < 10")
    case True
    then show ?thesis by (simp add: nat_digits.simps [of n] digit_not_sign)
  next
    case False
    with 1 show ?thesis by (auto simp: nat_digits.simps [of n])
  qed
qed

lemma nat_digits_nonempty [simp]: "nat_digits n \<noteq> []"
  using nat_digits_head [of n] by auto

lemma atoi_signed_digits:
  assumes "m < 2 ^ 63"
  shows "atoi_signed w False (nat_digits m) = Inr (int m)"
    and "atoi_signed w True (nat_digits m) = Inr (- int m)"
proof -
  have "m < 2 ^ 64" by (rule less_trans [OF assms]) simp
  then have p: "parse_digits 0 (nat_digits m) = Inr m" by (rule parse_nat_digits)
  have "\<not> 2 ^ 63 \<le> m" "\<not> 2 ^ 63 < m"
    using assms by (simp_all only: not_le not_less less_imp_le)
  then show "atoi_signed w False (nat_digits m) = Inr (int m)"
    and "atoi_signed w True (nat_digits m) = Inr (- int m)"
    by (simp_all only: atoi_signed_def p nat_digits_nonempty if_False if_True sum.case)
qed

lemma atoi_signed_min: "atoi_signed w True (nat_digits (2 ^ 63)) = Inr (- (2 ^ 63))"
proof -
  have "parse_digits 0 (nat_digits (2 ^ 63)) = Inr (2 ^ 63)"
    by (rule parse_nat_digits) simp
  then show ?thesis
    by (simp only: atoi_signed_def nat_digits_nonempty if_False if_True sum.case less_irrefl
        of_nat_power of_nat_numeral)
qed

lemma Atoi_of_Itoa:
  assumes "- (2 ^ 63) \<le> n" "n < 2 ^ 63"
  shows "Atoi (Itoa n) = Inr n"
proof (cases "n < 0")
  case True
  then obtain m where n: "n = - int m" by (metis int_cases4 less_imp_le not_le of_nat_0_le_iff)
  have a: "Atoi (Itoa n) = atoi_signed (Itoa n) True (nat_digits m)"
    using True by (simp only: Atoi_def Itoa_def n if_True list.case refl nat_int minus_minus)
  from assms(1) have "int m \<le> 2 ^ 63" by (simp only: n neg_le_iff_le)
  then have "int m \<le> int (2 ^ 63)" by (simp only: of_nat_power of_nat_numeral)
  then have "m \<le> 2 ^ 63" by (simp only: of_nat_le_iff)
  then consider "m < 2 ^ 63" | "m = 2 ^ 63" unfolding le_less by blast
  then show ?thesis
  proof cases
    case 1
    from a atoi_signed_digits(2) [OF 1] n show ?thesis by simp
  next
    case 2
    from a show ?thesis
      by (simp only: n 2 atoi_signed_min of_nat_power of_nat_numeral)
  qed
next
  case False
  then obtain m where n: "n = int m" by (meson not_less nonneg_int_cases)
  from assms(2) have "int m < int (2 ^ 63)" by (simp only: n of_nat_power of_nat_numeral)
  then have m: "m < 2 ^ 63" by (simp only: of_nat_less_iff)
  obtain c s where d: "nat_digits m = c # s" and c: "c \<noteq> CHR ''-''" "c \<noteq> CHR ''+''"
    using nat_digits_head by blast
  have "Itoa n = nat_digits m" using False by (simp add: Itoa_def n)
  then have "Atoi (Itoa n) = atoi_signed (nat_digits m) False (nat_digits m)"
    by (simp add: Atoi_def d c)
  with atoi_signed_digits(1) [OF m] n show ?thesis by simp
qed

lemma Itoa_inj:
  assumes "Itoa m = Itoa n" "- (2 ^ 63) \<le> m" "m < 2 ^ 63" "- (2 ^ 63) \<le> n" "n < 2 ^ 63"
  shows "m = n"
  using Atoi_of_Itoa [OF assms(2,3)] Atoi_of_Itoa [OF assms(4,5)] unfolding assms(1)
  by (simp only: sum.inject)

lemma parse_digits_values:
  "parse_digits n s = Inr k \<Longrightarrow> list_all (\<lambda>c. digit_value c \<noteq> None) s"
proof (induction s arbitrary: n)
  case Nil
  then show ?case by simp
next
  case (Cons c s)
  show ?case
  proof (cases "digit_value c")
    case None
    with Cons.prems show ?thesis by simp
  next
    case (Some d)
    with Cons.prems have "parse_digits (10 * n + d) s = Inr k" by (simp split: if_split_asm)
    from Cons.IH [OF this] Some show ?thesis by simp
  qed
qed

lemma atoi_signed_range: "atoi_signed w neg s = Inr n \<Longrightarrow> n \<in> {- (2 ^ 63)..<2 ^ 63}"
proof -
  assume a: "atoi_signed w neg s = Inr n"
  then obtain k where p: "parse_digits 0 s = Inr k" by (auto simp: atoi_signed_def split: if_splits sum.splits)
  with a have b: "if neg then k \<le> 2 ^ 63 \<and> n = - int k else k < 2 ^ 63 \<and> n = int k"
    by (simp add: atoi_signed_def split: if_splits)
  have "int k \<le> int (2 ^ 63) \<longleftrightarrow> k \<le> 2 ^ 63" "int k < int (2 ^ 63) \<longleftrightarrow> k < 2 ^ 63"
    by (simp_all only: of_nat_le_iff of_nat_less_iff)
  with b show ?thesis by (cases neg) simp_all
qed

lemma atoi_signed_digit_values:
  "atoi_signed w neg s = Inr n \<Longrightarrow> list_all (\<lambda>d. digit_value d \<noteq> None) s"
  by (auto simp: atoi_signed_def dest: parse_digits_values split: if_splits sum.splits)

lemma Atoi_range: "Atoi s = Inr n \<Longrightarrow> n \<in> {- (2 ^ 63)..<2 ^ 63}"
  by (auto simp: Atoi_def dest: atoi_signed_range simp del: atLeastLessThan_iff split: list.splits if_splits)

lemma Atoi_digits:
  "Atoi (c # t) = Inr n \<Longrightarrow>
     list_all (\<lambda>d. digit_value d \<noteq> None) (if c \<in> {CHR ''-'', CHR ''+''} then t else c # t)"
  unfolding Atoi_def list.case
  by (cases "c = CHR ''-''"; cases "c = CHR ''+''") (auto dest!: atoi_signed_digit_values)

section \<open>The daemon\<close>

text \<open>
  The state of the process: the tool server's, what has been written to the standard error, and
  how many sessions the MCP server has.
\<close>

record 'w daemon =
  dmServer :: "'w server_state"
  dmStderr :: "message list"
  dmSessions :: nat

definition get_dworld :: "'w daemon \<Rightarrow> 'w" where
  "get_dworld d = get_world (dmServer d)"

definition put_dworld :: "'w \<Rightarrow> 'w daemon \<Rightarrow> 'w daemon" where
  "put_dworld w d = d\<lparr>dmServer := put_world w (dmServer d)\<rparr>"

definition get_dproxy :: "'w daemon \<Rightarrow> 'w proxy_state" where
  "get_dproxy d = get_proxy (dmServer d)"

definition put_dproxy :: "'w proxy_state \<Rightarrow> 'w daemon \<Rightarrow> 'w daemon" where
  "put_dproxy p d = d\<lparr>dmServer := put_proxy p (dmServer d)\<rparr>"

abbreviation on_dworld :: "('w \<Rightarrow> 'a \<times> 'w) \<Rightarrow> ('a, 'w daemon) proc" where
  "on_dworld f \<equiv> zoom get_dworld put_dworld (act f)"

definition notifySystemd ::
  "(string \<Rightarrow> string) \<Rightarrow> 'w proxy_os \<Rightarrow> string list \<Rightarrow> (unit, 'w daemon) proc" where
  "notifySystemd getenv os args =
     (if getenv ''NOTIFY_SOCKET'' = [] then Ret ()
      else bind_proc (on_dworld (poExecFile os ''systemd-notify'' args no_options)) (\<lambda>r.
        case r of
          Inl err \<Rightarrow> act (\<lambda>d. ((), d\<lparr>dmStderr := dmStderr d @
            [[Lit (''systemd-notify '' @ Join '' '' args @ '' failed: '')] @ Error err @ [Lit [CHR 0x0A]]]\<rparr>))
        | Inr _ \<Rightarrow> Ret ()))"

section \<open>Requests\<close>

record 'b http_request =
  hqHost :: string
  hqPath :: string
  hqRest :: 'b

record http_response =
  hpStatus :: nat
  hpHeaders :: "(string \<times> string) list"
  hpBody :: string

type_synonym ('b, 's) http_handler = "'b http_request \<Rightarrow> (http_response, 's) proc"

definition misdirected :: http_response where
  "misdirected = \<lparr>hpStatus = 421, hpHeaders = [(''Content-Type'', ''text/plain'')],
     hpBody = ''Misdirected Request''\<rparr>"

definition hostCheckMiddleware :: "int \<Rightarrow> ('b, 's) http_handler \<Rightarrow> ('b, 's) http_handler" where
  "hostCheckMiddleware port nxt =
     (let withPort = ''127.0.0.1:'' @ Itoa port in
      (\<lambda>r. if hqHost r \<noteq> ''127.0.0.1'' \<and> hqHost r \<noteq> withPort then Ret misdirected else nxt r))"

text \<open>\<open>http.ServeMux\<close> with one exact pattern; \<open>elsewhere\<close> is its own reply (not found, redirect).\<close>

definition serve_mux ::
  "('b, 's) http_handler \<Rightarrow> string \<Rightarrow> ('b, 's) http_handler \<Rightarrow> ('b, 's) http_handler" where
  "serve_mux elsewhere pattern h r = (if hqPath r = pattern then h r else elsewhere r)"

record ('b, 's) http_server =
  hsPort :: int
  hsHandler :: "('b, 's) http_handler"

definition sessionCount :: "'w daemon \<Rightarrow> nat" where
  "sessionCount d = dmSessions d"

text \<open>\<open>listen\<close> is \<open>net.Listen\<close> on an address, with the port it bound.\<close>

definition Start ::
  "(string \<Rightarrow> 'w \<Rightarrow> (error + int) \<times> 'w) \<Rightarrow> (string \<Rightarrow> string) \<Rightarrow> 'w proxy_os
    \<Rightarrow> ('b, 'w daemon) http_handler \<Rightarrow> ('b, 'w daemon) http_handler \<Rightarrow> int
    \<Rightarrow> (error + ('b, 'w daemon) http_server, 'w daemon) proc" where
  "Start listen getenv os mcp elsewhere port =
     bind_proc (on_dworld (listen (''127.0.0.1:'' @ Itoa port))) (\<lambda>ln.
       case ln of
         Inl err \<Rightarrow>
           Ret (Inl (Errorf [Txt (''httpserver: listening on 127.0.0.1:'' @ Itoa port @ '': ''), Wrp err]))
       | Inr actualPort \<Rightarrow>
           bind_proc (act (\<lambda>d. (sessionCount d, d))) (\<lambda>sessions.
           bind_proc (notifySystemd getenv os
             [''--ready'', ''--status=listening on 127.0.0.1:'' @ Itoa actualPort
                @ '', sessions='' @ Itoa (int sessions)]) (\<lambda>_.
           Ret (Inr \<lparr>hsPort = actualPort,
                     hsHandler = serve_mux elsewhere ''/mcp'' (hostCheckMiddleware actualPort mcp)\<rparr>))))"

definition Close ::
  "('w \<Rightarrow> error option \<times> 'w) \<Rightarrow> (string \<Rightarrow> string) \<Rightarrow> 'w proxy_os \<Rightarrow> (error option, 'w daemon) proc" where
  "Close shutdown getenv os =
     bind_proc (on_dworld shutdown) (\<lambda>err.
     bind_proc (notifySystemd getenv os [''--stopping'', ''--status=shutting down'']) (\<lambda>_.
     Ret err))"

section \<open>\<open>main.go\<close>\<close>

text \<open>
  \<open>load\<close> is the result of \<open>config.Load\<close>, \<open>mount\<close> that of \<open>MountTools\<close>, \<open>serving\<close> what goes on
  until a signal arrives. \<open>serve_until_signal\<close> is \<open>run\<close> after the tunnels' clean-up is deferred.
\<close>

definition serve_until_signal ::
  "error option \<Rightarrow> (string \<Rightarrow> string)
    \<Rightarrow> (int \<Rightarrow> (error + ('b, 'w daemon) http_server, 'w daemon) proc)
    \<Rightarrow> (('b, 'w daemon) http_server \<Rightarrow> (unit, 'w daemon) proc)
    \<Rightarrow> (error option, 'w daemon) proc \<Rightarrow> (error option, 'w daemon) proc" where
  "serve_until_signal mount getenv start serving close =
     (case mount of
        Some err \<Rightarrow> Ret (Some (Errorf [Txt ''mounting kubernetes-mcp-server tools: '', Wrp err]))
      | None \<Rightarrow>
        (case daemon_port getenv of
           Inl err \<Rightarrow> Ret (Some err)
         | Inr port \<Rightarrow>
             bind_proc (start port) (\<lambda>r.
               case r of
                 Inl err \<Rightarrow> Ret (Some (Errorf [Txt ''starting HTTP server: '', Wrp err]))
               | Inr srv \<Rightarrow> bind_proc (serving srv) (\<lambda>_. close))))"

definition main_run ::
  "error + AppConfig \<Rightarrow> (AppConfig \<Rightarrow> (error option, 'w daemon) proc)
    \<Rightarrow> ((string \<rightharpoonup> nat) \<Rightarrow> string list) \<Rightarrow> (error option, 'w daemon) proc" where
  "main_run load body order =
     (case load of
        Inl err \<Rightarrow> Ret (Some (Errorf [Txt ''loading config: '', Wrp err]))
      | Inr cfg \<Rightarrow>
          bind_proc (act (\<lambda>d. ((), d\<lparr>dmServer :=
            start_state cfg (svNow (dmServer d)) (svMachine (dmServer d))\<rparr>))) (\<lambda>_.
          bind_proc (body cfg) (\<lambda>result.
          bind_proc (zoom get_dproxy put_dproxy (KillAllProcessProxies order)) (\<lambda>_.
          Ret result))))"

text \<open>\<open>main\<close>: the exit code, after the error has been printed.\<close>

definition main_exit :: "(error option, 'w daemon) proc \<Rightarrow> (int, 'w daemon) proc" where
  "main_exit runs =
     bind_proc runs (\<lambda>r.
       case r of
         None \<Rightarrow> Ret 0
       | Some err \<Rightarrow>
           bind_proc (act (\<lambda>d. ((), d\<lparr>dmStderr := dmStderr d @ [Error err @ [Lit [CHR 0x0A]]]\<rparr>))) (\<lambda>_. Ret 1))"

section \<open>Ports\<close>

text \<open>
  Without \<open>CAPI_SHELL_MCP_PORT\<close> the daemon uses port 4737. Any 64-bit number may be given in
  decimal and is taken as it is; a value that is taken is one of those, and so holds, after an
  optional sign, nothing but digits. Everything else is an error, and nothing wraps around.
\<close>

theorem daemon_port_of:
  "(case getenv ''CAPI_SHELL_MCP_PORT'' of
      [] \<Rightarrow> daemon_port getenv = Inr 4737
    | c # t \<Rightarrow>
        (\<forall>n \<in> {- (2 ^ 63)..<2 ^ 63}. c # t = Itoa n \<longrightarrow> daemon_port getenv = Inr n)
        \<and> (\<forall>n. daemon_port getenv = Inr n \<longrightarrow> n \<in> {- (2 ^ 63)..<2 ^ 63}
              \<and> list_all (\<lambda>d. digit_value d \<noteq> None) (if c \<in> {CHR ''-'', CHR ''+''} then t else c # t)))"
proof (cases "getenv ''CAPI_SHELL_MCP_PORT''")
  case Nil
  then show ?thesis by (simp add: daemon_port_def defaultPort_def)
next
  case (Cons c t)
  have p: "daemon_port getenv = Inr n \<longleftrightarrow> Atoi (c # t) = Inr n" for n
    using Cons by (simp add: daemon_port_def Let_def split: sum.split)
  have "daemon_port getenv = Inr n" if "n \<in> {- (2 ^ 63)..<2 ^ 63}" "c # t = Itoa n" for n
    using p [of n] that Atoi_of_Itoa [of n] by simp
  then show ?thesis
    unfolding Cons list.case using p Atoi_range [of "c # t"] Atoi_digits [of c t] by blast
qed

theorem daemon_port_of_witness:
  "daemon_port (\<lambda>_. ''8080'') = Inr 8080"
proof -
  have "Itoa 8080 = ''8080''"
    by (simp add: Itoa_def nat_digits.simps [of 8080] nat_digits.simps [of 808] nat_digits.simps [of 80]
        nat_digits.simps [of 8] digit_def)
  moreover have "(8080 :: int) \<in> {- (2 ^ 63)..<2 ^ 63}" by simp
  ultimately show ?thesis using daemon_port_of [of "\<lambda>_. ''8080''"] unfolding list.case by metis
qed

section \<open>Which requests reach the handler\<close>

lemma run_on_dworld [simp]:
  "run (on_dworld f) d = (case f (get_dworld d) of (a, w) \<Rightarrow> (a, put_dworld w d))"
  by (subst run_zoom) (auto simp: get_dworld_def put_dworld_def get_world_def put_world_def)

text \<open>
  C18. The server listens on the loopback address only, and a request reaches the MCP handler only
  at \<open>/mcp\<close> and only with the literal address it listens on as its \<open>Host\<close>, with or without the
  port it bound; a name such as \<open>localhost\<close>, an address with another port or any other \<open>Host\<close> gets
  status 421 and changes nothing, which keeps pages of other origins out.
\<close>

theorem Start_loopback_only:
  assumes "run (Start listen getenv os mcp elsewhere port) d = (r, d')"
  shows "case r of
      Inl e \<Rightarrow> \<exists>err. fst (listen (''127.0.0.1:'' @ Itoa port) (get_dworld d)) = Inl err
        \<and> e = Errorf [Txt (''httpserver: listening on 127.0.0.1:'' @ Itoa port @ '': ''), Wrp err]
    | Inr srv \<Rightarrow>
        fst (listen (''127.0.0.1:'' @ Itoa port) (get_dworld d)) = Inr (hsPort srv)
        \<and> (\<forall>req. hqPath req \<noteq> ''/mcp'' \<longrightarrow> hsHandler srv req = elsewhere req)
        \<and> (\<forall>req. hqPath req = ''/mcp'' \<longrightarrow>
              hqHost req \<in> {''127.0.0.1'', ''127.0.0.1:'' @ Itoa (hsPort srv)} \<longrightarrow> hsHandler srv req = mcp req)
        \<and> (\<forall>req s. hqPath req = ''/mcp'' \<longrightarrow>
              hqHost req \<notin> {''127.0.0.1'', ''127.0.0.1:'' @ Itoa (hsPort srv)} \<longrightarrow>
              run (hsHandler srv req) s = (misdirected, s))
        \<and> (\<forall>req q s. hqPath req = ''/mcp'' \<longrightarrow> hqHost req = ''127.0.0.1:'' @ Itoa q \<longrightarrow>
              q \<in> {- (2 ^ 63)..<2 ^ 63} - {hsPort srv} \<longrightarrow> hsPort srv \<in> {- (2 ^ 63)..<2 ^ 63} \<longrightarrow>
              run (hsHandler srv req) s = (misdirected, s))"
proof -
  obtain ln w where l: "listen (''127.0.0.1:'' @ Itoa port) (get_dworld d) = (ln, w)" by fastforce
  show ?thesis
  proof (cases ln)
    case (Inl err)
    with assms l show ?thesis by (auto simp: Start_def)
  next
    case (Inr p)
    with assms l have r: "r = Inr \<lparr>hsPort = p, hsHandler = serve_mux elsewhere ''/mcp'' (hostCheckMiddleware p mcp)\<rparr>"
      by (auto simp: Start_def split: prod.splits)
    have "Itoa q \<noteq> Itoa p" if "q \<in> {- (2 ^ 63)..<2 ^ 63} - {p}" "p \<in> {- (2 ^ 63)..<2 ^ 63}" for q
      using that Itoa_inj [of q p] by auto
    with r l Inr show ?thesis
      by (auto simp: serve_mux_def hostCheckMiddleware_def Let_def)
  qed
qed

definition sample_daemon :: "rbac_objects daemon" where
  "sample_daemon = \<lparr>dmServer = sample_state, dmStderr = [], dmSessions = 0\<rparr>"

theorem Start_loopback_only_witness:
  "\<exists>srv :: (unit, rbac_objects daemon) http_server. hsPort srv = 4737
     \<and> run (hsHandler srv \<lparr>hqHost = ''localhost:4737'', hqPath = ''/mcp'', hqRest = ()\<rparr>) sample_daemon
       = (misdirected, sample_daemon)"
proof -
  define srv :: "(unit, rbac_objects daemon) http_server" where
    "srv = \<lparr>hsPort = 4737, hsHandler = serve_mux (\<lambda>_. Ret \<lparr>hpStatus = 404, hpHeaders = [], hpBody = []\<rparr>) ''/mcp''
       (hostCheckMiddleware 4737 (\<lambda>_. Ret \<lparr>hpStatus = 200, hpHeaders = [], hpBody = []\<rparr>))\<rparr>"
  have "run (Start (\<lambda>addr w. (Inr 4737, w)) (\<lambda>_. []) calm_os (\<lambda>_. Ret \<lparr>hpStatus = 200, hpHeaders = [], hpBody = []\<rparr>)
      (\<lambda>_. Ret \<lparr>hpStatus = 404, hpHeaders = [], hpBody = []\<rparr>) 4737) sample_daemon
    = (Inr srv, put_dworld (get_dworld sample_daemon) sample_daemon)"
    by (simp add: Start_def notifySystemd_def srv_def)
  from Start_loopback_only [OF this] show ?thesis
    by (intro exI [of _ srv]) (simp add: srv_def)
qed

section \<open>The life of the daemon\<close>

lemma run_on_dproxy:
  "run (zoom get_dproxy put_dproxy p) d = (case run p (get_dproxy d) of (a, q) \<Rightarrow> (a, put_dproxy q d))"
  by (rule run_zoom)
    (auto simp: get_dproxy_def put_dproxy_def get_proxy_def put_proxy_def get_world_def put_world_def)


lemma run_calm_EnsureProxy:
  "run (EnsureProxy calm_os ''10.0.0.1'' ''6443'' ''bastion'' Second) \<lparr>pxTunnels = new_manager, pxWorld = w\<rparr>
     = (Inr (), \<lparr>pxTunnels = one_tunnel, pxWorld = w\<rparr>)"
  by (simp add: EnsureProxy_def ensureProcessProxy_def calm_os_def on_tunnels_def new_manager_def
      spawn_process_def select_startup_def start_process_def arm_entry_def after_func_def
      insert_entry_def one_tunnel_eq eval_nat_numeral)


end
