(* ===== verification/Spec2Isabelle.thy ===== *)
theory Spec2Isabelle
  imports GoBase Procs Cache Targets PatternOrder GoTime Config Store Shell ExecCmd Kube ReadOnly RbacRace Proxy Flight Systemd Server Tunneled Clash Tools Bounded MapOrder Embed Schemas Sessions Http
begin

text \<open>
  A model of capi-shell-mcp, a daemon that offers the workload clusters of Cluster API management
  clusters to MCP clients: it lists them, hands out their kubeconfigs, runs commands against
  them, and mounts the tools of kubernetes-mcp-server so that they work on them too. It does so
  for all clients at once over shared caches and shared sshuttle tunnels, and promises that a
  call reaches the clusters it names and no others, and that the read-only tools hand out
  nothing but short-lived tokens.

  \<^bold>\<open>How the program is modelled.\<close> A pure Go function is a HOL function of the same name. A Go
  function with effects is a computation of type \<open>('a, 's) proc\<close> (theory Procs): a tree of atomic
  actions over a state, one action per critical section or call to the outside. \<open>run\<close> executes
  it alone; \<open>pool_step\<close> interleaves the computations of a wait group with each other and with an
  environment, action by action. An error is the left side of a sum and a value of \<open>error\<close>
  (theory GoBase), which keeps the wrapped causes; every early return is a branch. A fan-out
  (\<open>fan_out\<close>) is the relation of all its schedules. Go's \<open>int\<close>, \<open>int64\<close> and \<open>time.Duration\<close> are
  64-bit words, and an instant is an integer count of nanoseconds. A Go map whose order of iteration matters is an
  association list in some order, or comes with the order as a parameter.

  \<^bold>\<open>Theories and sources.\<close> All paths are under \<open>internal/\<close> unless they say otherwise.
  \<^item> GoBase: errors, message texts, and what is used of \<open>strings\<close>, \<open>strconv\<close>, \<open>path/filepath\<close>.
  \<^item> GoTime: \<open>Duration.Seconds\<close>, floats included.
  \<^item> Procs: computations, their interleavings, the rule for fan-outs, and that every fair
    schedule finishes.
  \<^item> Cache (\<open>cache/cache.go\<close>), with the interface \<open>ttl_store\<close> as a locale; Store extends it to
    \<open>keyed_store\<close>, a cache keyed by encoded identities, interpreted for both caches.
  \<^item> Targets (\<open>capi/target.go\<close>, \<open>capi/target_pattern.go\<close>, \<open>capi/resolve_patterns.go\<close>);
    PatternOrder makes the patterns an instance of the class \<open>order\<close>.
  \<^item> Config (\<open>config/config.go\<close>) and Store (\<open>capi/store.go\<close>).
  \<^item> Shell (\<open>shell/shell.go\<close>), with the interface \<open>execer\<close> as a locale, and ExecCmd (\<open>exec/exec.go\<close>).
  \<^item> Kube (\<open>capi/clusters.go\<close>, \<open>capi/kubeconfig.go\<close>, \<open>capi/kubeconfig_fetch.go\<close>,
    \<open>capi/transform.go\<close>, \<open>capi/openstack.go\<close>) and ReadOnly (\<open>capi/readonly.go\<close>;
    RbacRace has several runs of it at once).
  \<^item> Proxy (\<open>proxy/manager.go\<close>, \<open>proxy/clock.go\<close>), Flight (its computations, interleaved) and Systemd
    (its systemd half).
  \<^item> Tunneled puts the kubeconfigs of Server and the tunnels of Proxy together; Clash shows what names
    with colons do to the caches.
  \<^item> Server (\<open>server/server.go\<close>, \<open>clients.go\<close>, \<open>resolve.go\<close>, \<open>target.go\<close>, \<open>kubeconfig.go\<close>) and Tools
    (\<open>server/tools.go\<close>, \<open>types.go\<close>); Bounded counts the actions of their operations, MapOrder shows that the order Go
    visits the configuration's maps in is not observable.
  \<^item> Embed (\<open>embed/fanout.go\<close>, \<open>provider.go\<close>, \<open>mount.go\<close>), with the interface \<open>target_resolver\<close> as a locale;
    Schemas has the argument schemas of the mounted tools.
  \<^item> Sessions: \<open>server/build.go\<close>, and all requests of all sessions at once.
  \<^item> Http (\<open>httpserver/\<close>, \<open>cmd/capi-shell-mcp/main.go\<close>).

  \<^bold>\<open>State.\<close> The record \<open>server_state\<close> holds what the process shares: the clock, the two caches of
  \<open>capi.Store\<close>, the tunnels of \<open>proxy.Manager\<close> (entries and timers in an explicit heap, because
  the code shares them by pointer) and the machine (files and the rest of the outside).
  \<open>provider_state\<close> adds the managers of \<open>capiProvider\<close>, \<open>daemon\<close> the standard error and the sessions.

  \<^bold>\<open>What the lemmas show.\<close>
  \<^item> Targets: parsing and formatting are inverse for fields without slashes; a pattern selects by
    path prefix; resolution yields each selected target once, in order, lists the clusters at most
    once, and in strict mode never; so a tool that writes never widens. PatternOrder: a shorter
    pattern selects all that a longer one does.
  \<^item> Cache and Store: the cache refines a log of its writes with a lifetime; although keyed by
    joined strings, the caches keep clusters apart; lifetimes are the configured ones up to the overflow of the duration.
  \<^item> Config: expansion of environment references, which documents load, and every default.
  \<^item> Shell and ExecCmd: captured output stays within the cap when the copiers do not overlap, and
    how it does not when they do; the environment of a command; the temporary kubeconfig is
    gone when the call returns; when the call fails.
  \<^item> Kube and ReadOnly: what a cluster's identity, OpenStack environment and tunnel target are
    read from; the read-only objects converge from any prior state, also under concurrent runs
    (RbacRace), of which one can fail without need; a minted kubeconfig
    depends on nothing but server, CA and token.
  \<^item> Proxy and Flight: the computations of the code, interleaved with timers, exits and exit hooks
    (\<open>flight_step\<close>), refine a state machine (\<open>proxy_step\<close>) whose invariant gives that there is at
    most one live tunnel per target and the manager can reach it; a refresh can race with expiry;
    a tunnel through another host is taken for one's own. Systemd: which units a call leaves.
    Tunneled: a kubeconfig is answered only with the tunnel of its cluster in place.
  \<^item> Server, Tools, Embed: caches hold nothing but genuine answers of the API, so each answer of
    each tool is about its own target, on every branch and in every schedule, and every
    schedule that is fair finishes, within a bound on the actions per target (Bounded); a listed target
    is accepted by every tool unless a part of it holds a slash; the schema of a mounted tool is the
    type of its handler (Schemas). Sessions states this of the reachable states of the process.
  \<^item> Http: which ports are accepted, which requests reach the handler, and that the tunnels end
    with the daemon.

  \<^bold>\<open>Parameters and hypotheses.\<close> What is not in the repository is an argument: the Kubernetes API,
  client-go, gojq, the YAML and JSON libraries, kubernetes-mcp-server, the MCP library, the operating system, child
  processes, the routing of \<open>net/http\<close>. Laws are assumed where a theorem needs them, as predicates with
  an instance in memory: \<open>serves\<close> (the RBAC API creates, updates and refuses as documented)
  and \<open>refuses_missing\<close> (it refuses to change what does not exist),
  \<open>systemd_serves\<close> (the three commands of systemd), \<open>config_ok\<close> (distinct names without colons; which documents give one is a
  theorem of Config, and Clash shows that it is needed),
  \<open>names_ok\<close> (names in the API have no colons). Every call to the outside is taken to return.

  \<^bold>\<open>Bounds.\<close> There is no fuel. Loops are structural or have a measure (\<open>expandEnv\<close>, \<open>trim_left\<close>,
  \<open>nat_digits\<close>), and a \<open>proc\<close> is well-founded, so its runs end.

  \<^bold>\<open>Not modelled.\<close> Cancellation of contexts. The text syntax of JSON and YAML: a result is kept as a
  tree, and \<open>%q\<close> is kept symbolic. Descriptions and instructions given to clients.
  \<open>embed/toolsets_import.go\<close>, which has only imports. \<open>proxy/clock.go\<close> is \<open>time.AfterFunc\<close>: a clock is the set of armed timers.
  Of \<open>singleflight\<close> only what it documents: \<open>flight_step\<close> and \<open>proxy_step\<close> let one call per target be in progress. In
  \<open>server_step\<close> the calls of \<open>EnsureProxy\<close> made by requests interleave without that restriction, which allows more
  schedules than there are. The two copying goroutines of a child are one after the other in \<open>OSExecer_ExecFile\<close> and
  interleaved in \<open>race_step\<close>.
\<close>

end
